(* ===== verification/Prelude.thy ===== *)
theory Prelude
  imports Complex_Main "HOL-Library.Word"
begin

text \<open>
  What every component shares: bytes, the exception classes of the program with
  their Python method resolution order, results that may carry an exception, and
  stateful programs that may also fail to return, with the weakest-precondition
  rules the component proofs use.
\<close>

unbundle bit_operations_syntax

section \<open>Bytes\<close>

type_synonym byte = "8 word"
type_synonym bytes = "8 word list"

named_theorems step_defs \<open>definitions of operations that proofs unfold\<close>
named_theorems wp_rules \<open>weakest-precondition equations\<close>

section \<open>Exceptions\<close>

text \<open>
  The exception classes that the program raises, catches or lets through.
  \<open>TermiosError\<close> is the class \<open>termios.error\<close> of the standard library, which is a
  direct subclass of \<open>Exception\<close>, not of \<open>OSError\<close>.
\<close>

datatype exc_class =
    BaseException | KeyboardInterrupt | Exception
  | OSError | BlockingIOError | FileExistsError | TermiosError
  | ArithmeticError | OverflowError | ValueError | RuntimeError
  | ProtocolError | CRCError
  | SerialLinkError | SerialTimeoutError
  | SupervisorError | SaturatedCounterError | ValidationCampaignError

fun mro :: "exc_class \<Rightarrow> exc_class list" where
  "mro BaseException = [BaseException]"
| "mro KeyboardInterrupt = [KeyboardInterrupt, BaseException]"
| "mro Exception = [Exception, BaseException]"
| "mro OSError = [OSError, Exception, BaseException]"
| "mro BlockingIOError = [BlockingIOError, OSError, Exception, BaseException]"
| "mro FileExistsError = [FileExistsError, OSError, Exception, BaseException]"
| "mro TermiosError = [TermiosError, Exception, BaseException]"
| "mro ArithmeticError = [ArithmeticError, Exception, BaseException]"
| "mro OverflowError = [OverflowError, ArithmeticError, Exception, BaseException]"
| "mro ValueError = [ValueError, Exception, BaseException]"
| "mro RuntimeError = [RuntimeError, Exception, BaseException]"
| "mro ProtocolError = [ProtocolError, Exception, BaseException]"
| "mro CRCError = [CRCError, ProtocolError, Exception, BaseException]"
| "mro SerialLinkError = [SerialLinkError, Exception, BaseException]"
| "mro SerialTimeoutError = [SerialTimeoutError, SerialLinkError, Exception, BaseException]"
| "mro SupervisorError = [SupervisorError, Exception, BaseException]"
| "mro SaturatedCounterError = [SaturatedCounterError, ValueError, Exception, BaseException]"
| "mro ValidationCampaignError = [ValidationCampaignError, ValueError, Exception, BaseException]"

fun class_name :: "exc_class \<Rightarrow> string" where
  "class_name BaseException = ''BaseException''"
| "class_name KeyboardInterrupt = ''KeyboardInterrupt''"
| "class_name Exception = ''Exception''"
| "class_name OSError = ''OSError''"
| "class_name BlockingIOError = ''BlockingIOError''"
| "class_name FileExistsError = ''FileExistsError''"
| "class_name TermiosError = ''error''"
| "class_name ArithmeticError = ''ArithmeticError''"
| "class_name OverflowError = ''OverflowError''"
| "class_name ValueError = ''ValueError''"
| "class_name RuntimeError = ''RuntimeError''"
| "class_name ProtocolError = ''ProtocolError''"
| "class_name CRCError = ''CRCError''"
| "class_name SerialLinkError = ''SerialLinkError''"
| "class_name SerialTimeoutError = ''SerialTimeoutError''"
| "class_name SupervisorError = ''SupervisorError''"
| "class_name SaturatedCounterError = ''SaturatedCounterError''"
| "class_name ValidationCampaignError = ''ValidationCampaignError''"

datatype exc = Exc (exc_class: exc_class) (exc_msg: string)

text \<open>\<open>catches cs e\<close>: does \<open>except (cs)\<close> catch the exception \<open>e\<close>?\<close>

definition catches :: "exc_class list \<Rightarrow> exc \<Rightarrow> bool" where
  "catches cs e \<longleftrightarrow> (\<exists>c \<in> set cs. c \<in> set (mro (exc_class e)))"

lemma catches_Exc [simp]:
  "catches [] e = False"
  "catches (c # cs) e = (c \<in> set (mro (exc_class e)) \<or> catches cs e)"
  by (auto simp: catches_def)

lemma mro_self [simp]: "c \<in> set (mro c)"
  by (cases c) auto

lemma mro_trans: "d \<in> set (mro c) \<Longrightarrow> b \<in> set (mro d) \<Longrightarrow> b \<in> set (mro c)"
  by (cases c) auto

section \<open>Results of pure code that may raise\<close>

type_synonym 'a res = "exc + 'a"

definition bind_res :: "'a res \<Rightarrow> ('a \<Rightarrow> 'b res) \<Rightarrow> 'b res" where
  "bind_res r f = (case r of Inl e \<Rightarrow> Inl e | Inr x \<Rightarrow> f x)"

lemma bind_res_simps [simp]:
  "bind_res (Inl e) f = Inl e"
  "bind_res (Inr x) f = f x"
  by (simp_all add: bind_res_def)

lemma bind_res_Inr_iff: "bind_res r f = Inr y \<longleftrightarrow> (\<exists>x. r = Inr x \<and> f x = Inr y)"
  by (cases r) auto

definition is_ok :: "'a res \<Rightarrow> bool" where
  "is_ok r = (case r of Inl _ \<Rightarrow> False | Inr _ \<Rightarrow> True)"

lemma is_ok_simps [simp]: "is_ok (Inr x)" "\<not> is_ok (Inl e)"
  by (simp_all add: is_ok_def)

definition raises :: "exc_class \<Rightarrow> 'a res \<Rightarrow> bool" where
  "raises c r = (case r of Inl e \<Rightarrow> c \<in> set (mro (exc_class e)) | Inr _ \<Rightarrow> False)"

lemma raises_simps [simp]:
  "raises c (Inl (Exc d m)) = (c \<in> set (mro d))"
  "\<not> raises c (Inr x)"
  by (simp_all add: raises_def)

section \<open>Stateful programs\<close>

text \<open>
  A program takes the state and returns a result (a value or an exception) with
  the new state; \<open>None\<close> is a run that does not return.
\<close>

type_synonym ('s, 'a) prog = "'s \<Rightarrow> ('a res \<times> 's) option"

definition ret :: "'a \<Rightarrow> ('s, 'a) prog" where
  "ret x s = Some (Inr x, s)"

definition raise :: "exc_class \<Rightarrow> string \<Rightarrow> ('s, 'a) prog" where
  "raise c m s = Some (Inl (Exc c m), s)"

definition lift_res :: "'a res \<Rightarrow> ('s, 'a) prog" where
  "lift_res r s = Some (r, s)"

definition bind_prog :: "('s, 'a) prog \<Rightarrow> ('a \<Rightarrow> ('s, 'b) prog) \<Rightarrow> ('s, 'b) prog" where
  "bind_prog m f s =
     (case m s of
        None \<Rightarrow> None
      | Some (Inl e, s') \<Rightarrow> Some (Inl e, s')
      | Some (Inr x, s') \<Rightarrow> f x s')"

definition get_st :: "('s \<Rightarrow> 'a) \<Rightarrow> ('s, 'a) prog" where
  "get_st f s = Some (Inr (f s), s)"

definition modify :: "('s \<Rightarrow> 's) \<Rightarrow> ('s, unit) prog" where
  "modify f s = Some (Inr (), f s)"

definition when_prog :: "bool \<Rightarrow> ('s, unit) prog \<Rightarrow> ('s, unit) prog" where
  "when_prog b m = (if b then m else ret ())"

text \<open>\<open>try_except m cs h\<close>: the handler \<open>h\<close> runs when \<open>m\<close> raises one of \<open>cs\<close>.\<close>

definition try_except ::
  "('s, 'a) prog \<Rightarrow> exc_class list \<Rightarrow> (exc \<Rightarrow> ('s, 'a) prog) \<Rightarrow> ('s, 'a) prog" where
  "try_except m cs h s =
     (case m s of
        None \<Rightarrow> None
      | Some (Inl e, s') \<Rightarrow> if catches cs e then h e s' else Some (Inl e, s')
      | Some (Inr x, s') \<Rightarrow> Some (Inr x, s'))"

text \<open>
  \<open>try_finally m c\<close>: the clean-up \<open>c\<close> runs on every exit; an exception of the
  clean-up replaces the outcome of \<open>m\<close>. This is \<open>try .. finally\<close> and the exit of
  a \<open>with\<close> block whose \<open>__exit__\<close> returns \<open>None\<close>.
\<close>

definition try_finally :: "('s, 'a) prog \<Rightarrow> ('s, unit) prog \<Rightarrow> ('s, 'a) prog" where
  "try_finally m c s =
     (case m s of
        None \<Rightarrow> None
      | Some (r, s') \<Rightarrow>
          (case c s' of
             None \<Rightarrow> None
           | Some (Inl e, s'') \<Rightarrow> Some (Inl e, s'')
           | Some (Inr _, s'') \<Rightarrow> Some (r, s'')))"

lemma bind_ret [simp]: "bind_prog (ret x) f = f x"
  by (rule ext) (simp add: bind_prog_def ret_def)

lemma bind_raise [simp]: "bind_prog (raise c m) f = raise c m"
  by (rule ext) (simp add: bind_prog_def raise_def)

lemma bind_assoc_prog:
  "bind_prog (bind_prog m f) g = bind_prog m (\<lambda>x. bind_prog (f x) g)"
  by (rule ext) (simp add: bind_prog_def split: option.splits sum.splits prod.splits)

section \<open>Weakest preconditions\<close>

text \<open>
  \<open>wp m Q E s\<close>: if \<open>m\<close> returns from \<open>s\<close>, then a value satisfies \<open>Q\<close> and an
  exception satisfies \<open>E\<close> with the final state. Returning is a separate claim,
  \<open>returns m s\<close>.
\<close>

definition wp ::
  "('s, 'a) prog \<Rightarrow> ('a \<Rightarrow> 's \<Rightarrow> bool) \<Rightarrow> (exc \<Rightarrow> 's \<Rightarrow> bool) \<Rightarrow> 's \<Rightarrow> bool" where
  "wp m Q E s =
     (case m s of
        None \<Rightarrow> True
      | Some (Inl e, s') \<Rightarrow> E e s'
      | Some (Inr x, s') \<Rightarrow> Q x s')"

definition returns :: "('s, 'a) prog \<Rightarrow> 's \<Rightarrow> bool" where
  "returns m s \<longleftrightarrow> m s \<noteq> None"

lemma wp_ret [simp, wp_rules]: "wp (ret x) Q E s = Q x s"
  by (simp add: wp_def ret_def)

lemma wp_raise [simp, wp_rules]: "wp (raise c m) Q E s = E (Exc c m) s"
  by (simp add: wp_def raise_def)

lemma wp_lift_res [simp, wp_rules]:
  "wp (lift_res r) Q E s = (case r of Inl e \<Rightarrow> E e s | Inr x \<Rightarrow> Q x s)"
  by (simp add: wp_def lift_res_def split: sum.splits)

lemma wp_eta [simp]:
  "wp (ret x) Q E = Q x" "wp (raise c m) Q E = E (Exc c m)"
  "wp (lift_res (Inl e)) Q E = E e" "wp (lift_res (Inr x)) Q E = Q x"
  by (rule ext, simp)+

lemma wp_get_st [simp, wp_rules]: "wp (get_st f) Q E s = Q (f s) s"
  by (simp add: wp_def get_st_def)

lemma wp_modify [simp, wp_rules]: "wp (modify f) Q E s = Q () (f s)"
  by (simp add: wp_def modify_def)

lemma wp_bind [simp, wp_rules]:
  "wp (bind_prog m f) Q E s = wp m (\<lambda>x. wp (f x) Q E) E s"
  by (simp add: wp_def bind_prog_def split: option.splits sum.splits prod.splits)

lemma wp_bind_eta [simp]: "wp (bind_prog m f) Q E = wp m (\<lambda>x. wp (f x) Q E) E"
  by (rule ext) (rule wp_bind)

lemma wp_when [simp, wp_rules]:
  "wp (when_prog b m) Q E s = (if b then wp m Q E s else Q () s)"
  by (simp add: when_prog_def)

lemma wp_try_except [simp, wp_rules]:
  "wp (try_except m cs h) Q E s =
     wp m Q (\<lambda>e s'. if catches cs e then wp (h e) Q E s' else E e s') s"
  by (simp add: wp_def try_except_def split: option.splits sum.splits prod.splits)

lemma wp_try_finally [simp, wp_rules]:
  "wp (try_finally m c) Q E s =
     wp m (\<lambda>x. wp c (\<lambda>_. Q x) E) (\<lambda>e. wp c (\<lambda>_. E e) E) s"
  by (simp add: wp_def try_finally_def split: option.splits sum.splits prod.splits)

lemma wp_mono:
  assumes "wp m Q E s"
    and "\<And>x s'. Q x s' \<Longrightarrow> Q' x s'" and "\<And>e s'. E e s' \<Longrightarrow> E' e s'"
  shows "wp m Q' E' s"
  using assms by (auto simp: wp_def split: option.splits sum.splits prod.splits)

lemma wp_True [simp]: "wp m (\<lambda>_ _. True) (\<lambda>_ _. True) s"
  by (simp add: wp_def split: option.splits sum.splits prod.splits)

lemma wp_resultD:
  assumes "wp m Q E s"
  shows "m s = Some (Inr x, s') \<Longrightarrow> Q x s'" "m s = Some (Inl e, s') \<Longrightarrow> E e s'"
  using assms by (auto simp: wp_def)

lemma wp_I:
  assumes "\<And>x s'. m s = Some (Inr x, s') \<Longrightarrow> Q x s'"
    and "\<And>e s'. m s = Some (Inl e, s') \<Longrightarrow> E e s'"
  shows "wp m Q E s"
  using assms by (auto simp: wp_def split: option.splits sum.splits prod.splits)

named_theorems returns_intros \<open>rules for programs that return\<close>

lemma returns_simps [simp, returns_intros]:
  "returns (ret x) s" "returns (raise c m) s" "returns (lift_res r) s"
  "returns (get_st f) s" "returns (modify g) s"
  by (simp_all add: returns_def ret_def raise_def lift_res_def get_st_def modify_def)

lemma returns_bind [returns_intros]:
  assumes "returns m s" and "\<And>x s'. m s = Some (Inr x, s') \<Longrightarrow> returns (f x) s'"
  shows "returns (bind_prog m f) s"
  using assms by (auto simp: returns_def bind_prog_def split: option.splits sum.splits prod.splits)

lemma returns_when [returns_intros]: "returns m s \<Longrightarrow> returns (when_prog b m) s"
  by (simp add: when_prog_def)

lemma returns_if [returns_intros]:
  "(b \<Longrightarrow> returns m s) \<Longrightarrow> (\<not> b \<Longrightarrow> returns n s) \<Longrightarrow> returns (if b then m else n) s"
  by simp

lemma returns_case_option [returns_intros]:
  "returns m s \<Longrightarrow> (\<And>x. returns (n x) s) \<Longrightarrow>
     returns (case r of None \<Rightarrow> m | Some x \<Rightarrow> n x) s"
  by (cases r) auto

lemma returns_case_prod [returns_intros]:
  "(\<And>x y. returns (n x y) s) \<Longrightarrow> returns (case r of (x, y) \<Rightarrow> n x y) s"
  by (cases r) auto

lemma returns_try_except [returns_intros]:
  assumes "returns m s" and "\<And>e s'. returns (k e) s'"
  shows "returns (try_except m cs k) s"
  using assms by (auto simp: returns_def try_except_def split: option.splits sum.splits prod.splits)

lemma returns_try_finally [returns_intros]:
  assumes "returns m s" and "\<And>s'. returns c s'"
  shows "returns (try_finally m c) s"
  using assms unfolding returns_def try_finally_def
  by (fastforce split: option.splits sum.splits prod.splits)

lemma wp_conj:
  "wp m Q E s \<Longrightarrow> wp m Q' E' s \<Longrightarrow>
     wp m (\<lambda>x t. Q x t \<and> Q' x t) (\<lambda>e t. E e t \<and> E' e t) s"
  by (auto simp: wp_def split: option.splits sum.splits prod.splits)

section \<open>Frame conditions\<close>

text \<open>\<open>keeps f m\<close>: no run of \<open>m\<close> changes what \<open>f\<close> observes of the state.\<close>

definition keeps :: "('s \<Rightarrow> 'b) \<Rightarrow> ('s, 'a) prog \<Rightarrow> bool" where
  "keeps f m \<longleftrightarrow> (\<forall>s r s'. m s = Some (r, s') \<longrightarrow> f s' = f s)"

named_theorems keeps_intros \<open>frame rules\<close>

lemma keepsD: "keeps f m \<Longrightarrow> m s = Some (r, s') \<Longrightarrow> f s' = f s"
  by (auto simp: keeps_def)

lemma keeps_wp:
  "keeps f m \<Longrightarrow> wp m (\<lambda>_ t. f t = f s) (\<lambda>_ t. f t = f s) s"
  by (rule wp_I) (auto dest: keepsD)

lemma keeps_ret [keeps_intros]: "keeps f (ret x)"
  by (simp add: keeps_def ret_def)

lemma keeps_raise [keeps_intros]: "keeps f (raise c m)"
  by (simp add: keeps_def raise_def)

lemma keeps_lift_res [keeps_intros]: "keeps f (lift_res r)"
  by (simp add: keeps_def lift_res_def)

lemma keeps_get_st [keeps_intros]: "keeps f (get_st g)"
  by (simp add: keeps_def get_st_def)

lemma keeps_modify [keeps_intros]: "(\<And>s. f (g s) = f s) \<Longrightarrow> keeps f (modify g)"
  by (simp add: keeps_def modify_def)

lemma keeps_bind [keeps_intros]:
  "keeps f m \<Longrightarrow> (\<And>x. keeps f (k x)) \<Longrightarrow> keeps f (bind_prog m k)"
  by (fastforce simp: keeps_def bind_prog_def split: option.splits sum.splits)

lemma keeps_when [keeps_intros]: "keeps f m \<Longrightarrow> keeps f (when_prog b m)"
  by (simp add: when_prog_def keeps_ret)

lemma keeps_if [keeps_intros]:
  "(b \<Longrightarrow> keeps f m) \<Longrightarrow> (\<not> b \<Longrightarrow> keeps f n) \<Longrightarrow> keeps f (if b then m else n)"
  by simp

lemma keeps_case_option [keeps_intros]:
  "(r = None \<Longrightarrow> keeps f m) \<Longrightarrow> (\<And>x. r = Some x \<Longrightarrow> keeps f (n x)) \<Longrightarrow>
     keeps f (case r of None \<Rightarrow> m | Some x \<Rightarrow> n x)"
  by (cases r) auto

lemma keeps_try_except [keeps_intros]:
  "keeps f m \<Longrightarrow> (\<And>e. keeps f (h e)) \<Longrightarrow> keeps f (try_except m cs h)"
  by (fastforce simp: keeps_def try_except_def split: option.splits sum.splits if_splits)

lemma keeps_try_finally [keeps_intros]:
  "keeps f m \<Longrightarrow> keeps f c \<Longrightarrow> keeps f (try_finally m c)"
  by (fastforce simp: keeps_def try_finally_def split: option.splits sum.splits prod.splits)

text \<open>\<open>rises f m\<close>: no run of \<open>m\<close> makes the quantity \<open>f\<close> smaller.\<close>

definition rises :: "('s \<Rightarrow> 'b :: preorder) \<Rightarrow> ('s, 'a) prog \<Rightarrow> bool" where
  "rises f m \<longleftrightarrow> (\<forall>s r s'. m s = Some (r, s') \<longrightarrow> f s \<le> f s')"

named_theorems rises_intros \<open>rules for quantities that grow\<close>

lemma risesD: "rises f m \<Longrightarrow> m s = Some (r, s') \<Longrightarrow> f s \<le> f s'"
  by (auto simp: rises_def)

lemma rises_wp: "rises f m \<Longrightarrow> wp m (\<lambda>_ t. f s \<le> f t) (\<lambda>_ t. f s \<le> f t) s"
  by (rule wp_I) (auto dest: risesD)

lemma rises_keeps: "keeps f m \<Longrightarrow> rises f m"
  by (auto simp: rises_def keeps_def)

lemma rises_bind [rises_intros]:
  assumes "rises f m" "\<And>x. rises f (k x)"
  shows "rises f (bind_prog m k)"
  unfolding rises_def bind_prog_def
  by (auto split: option.splits sum.splits prod.splits
      dest: risesD [OF assms(1)] intro: order_trans [OF risesD [OF assms(1)] risesD [OF assms(2)]])

lemma rises_try_except [rises_intros]:
  assumes "rises f m" "\<And>e. rises f (k e)"
  shows "rises f (try_except m cs k)"
  unfolding rises_def try_except_def
  by (auto split: option.splits sum.splits prod.splits if_splits
      dest: risesD [OF assms(1)] intro: order_trans [OF risesD [OF assms(1)] risesD [OF assms(2)]])

lemma rises_try_finally [rises_intros]:
  assumes "rises f m" "rises f c"
  shows "rises f (try_finally m c)"
  unfolding rises_def try_finally_def
  by (auto split: option.splits sum.splits prod.splits
      dest: risesD [OF assms(1)] intro: order_trans [OF risesD [OF assms(1)] risesD [OF assms(2)]])

lemma rises_conj:
  fixes f g :: "'s \<Rightarrow> bool"
  shows "rises f m \<Longrightarrow> rises g m \<Longrightarrow> rises (\<lambda>s. f s \<and> g s) m"
  by (fastforce simp: rises_def le_bool_def)

lemma keeps_rises: "keeps f m \<Longrightarrow> rises (\<lambda>s. f s = c) m"
  by (auto simp: rises_def keeps_def)

lemma rises_when [rises_intros]: "rises f m \<Longrightarrow> rises f (when_prog b m)"
  by (auto simp: when_prog_def intro: rises_keeps keeps_ret)

lemma rises_if [rises_intros]: "rises f m \<Longrightarrow> rises f n \<Longrightarrow> rises f (if b then m else n)"
  by simp

lemma rises_case_option:
  "rises f m \<Longrightarrow> (\<And>x. rises f (n x)) \<Longrightarrow> rises f (case r of None \<Rightarrow> m | Some x \<Rightarrow> n x)"
  by (cases r) auto

lemma rises_leaf [rises_intros]:
  "rises f (ret x)" "rises f (raise c t)" "rises f (lift_res r)" "rises f (get_st g)"
  by (auto intro!: rises_keeps keeps_intros)

section \<open>Lists\<close>

lemma take_Suc_snoc: "n < length xs \<Longrightarrow> take (Suc n) xs = take n xs @ [xs ! n]"
  by (rule take_Suc_conv_app_nth)

lemma length_4E:
  assumes "length xs = 4" obtains a b c d where "xs = [a, b, c, d]"
  using assms by (auto simp: numeral_eq_Suc length_Suc_conv)

end
