(* ===== verification/Py_Format.thy ===== *)
theory Py_Format
  imports Prelude
begin

text \<open>
  The parts of the Python runtime that the program's texts and numbers rest on:
  integer and float formatting (\<open>{x}\<close>, \<open>{x:02X}\<close>, \<open>{x:g}\<close>, \<open>{x:.1f}\<close>),
  little-endian integers, floats with their special values, and strings.

  A Python string is its UTF-8 byte sequence; \<open>utf8_take\<close> cuts by code points as
  a slice of the Python string does. A finite float is the exact rational it
  denotes: formatting is exact, while the rounding of an arithmetic result to 53
  bits is not modelled.
\<close>

section \<open>Integers as text\<close>

definition digit :: "nat \<Rightarrow> char" where
  "digit d = char_of (if d < 10 then 48 + d else 55 + d)"

fun nat_in_base :: "nat \<Rightarrow> nat \<Rightarrow> string" where
  "nat_in_base b n =
     (if b < 2 \<or> n < b then [digit n] else nat_in_base b (n div b) @ [digit (n mod b)])"

declare nat_in_base.simps [simp del]

definition dec_nat :: "nat \<Rightarrow> string" where
  "dec_nat n = nat_in_base 10 n"

definition dec :: "int \<Rightarrow> string" where
  "dec i = (if i < 0 then ''-'' @ dec_nat (nat (- i)) else dec_nat (nat i))"

definition hex02 :: "int \<Rightarrow> string" where
  "hex02 i =
     (let ds = nat_in_base 16 (nat \<bar>i\<bar>);
          body = (if i < 0 then ''-'' @ ds else ds)
      in (if length body < 2 then ''0'' @ body else body))"

text \<open>\<open>dec02\<close> is \<open>{i:02d}\<close> for a natural number.\<close>

definition dec02 :: "nat \<Rightarrow> string" where
  "dec02 n = (if n < 10 then ''0'' @ dec_nat n else dec_nat n)"

fun hex_spaced :: "bytes \<Rightarrow> string" where
  "hex_spaced [] = []"
| "hex_spaced [b] = hex02 (uint b)"
| "hex_spaced (b # bs) = hex02 (uint b) @ '' '' @ hex_spaced bs"

lemma nat_in_base_nonempty [simp]: "nat_in_base b n \<noteq> []"
  by (subst nat_in_base.simps) simp

lemma dec_nat_nonempty [simp]: "dec_nat n \<noteq> []"
  by (simp add: dec_nat_def)

text \<open>The digits determine the number: decimal text is injective.\<close>

definition digit_val :: "char \<Rightarrow> nat" where
  "digit_val c = (let k = of_char c in if k < 58 then k - 48 else k - 55)"

definition val_in_base :: "nat \<Rightarrow> string \<Rightarrow> nat" where
  "val_in_base b s = foldl (\<lambda>a c. a * b + digit_val c) 0 s"

lemma digit_val_digit: "d < 36 \<Longrightarrow> digit_val (digit d) = d"
  by (simp add: digit_val_def digit_def)

lemma val_nat_in_base:
  assumes "2 \<le> b" "b \<le> 36"
  shows "val_in_base b (nat_in_base b n) = n"
  using assms
proof (induction b n rule: nat_in_base.induct)
  case (1 b n)
  show ?case
  proof (cases "n < b")
    case True
    with "1.prems" show ?thesis
      by (subst nat_in_base.simps) (simp add: val_in_base_def digit_val_digit)
  next
    case False
    with 1 have IH: "val_in_base b (nat_in_base b (n div b)) = n div b" by simp
    have "n mod b < 36"
    proof -
      have "n mod b < b" using "1.prems" by simp
      then show ?thesis using "1.prems" by linarith
    qed
    with False "1.prems" IH show ?thesis
      by (subst nat_in_base.simps) (simp add: val_in_base_def digit_val_digit)
  qed
qed

lemma dec_nat_inject [simp]: "dec_nat m = dec_nat n \<longleftrightarrow> m = n"
proof
  assume "dec_nat m = dec_nat n"
  then have "val_in_base 10 (dec_nat m) = val_in_base 10 (dec_nat n)" by simp
  then show "m = n" by (simp add: dec_nat_def val_nat_in_base)
qed simp

lemma digit_not_minus: "d < 16 \<Longrightarrow> digit d \<noteq> CHR ''-''"
proof
  assume "d < 16" and "digit d = CHR ''-''"
  then have "of_char (digit d) = (45 :: nat)" by simp
  with \<open>d < 16\<close> show False by (simp add: digit_def split: if_splits)
qed

lemma nat_in_base_hd: "hd (nat_in_base 10 n) \<noteq> CHR ''-''"
proof (induction n rule: less_induct)
  case (less n)
  show ?case
  proof (cases "n < 10")
    case True
    then show ?thesis by (subst nat_in_base.simps) (simp add: digit_not_minus)
  next
    case False
    then have "hd (nat_in_base 10 (n div 10)) \<noteq> CHR ''-''" using less by simp
    with False show ?thesis by (subst nat_in_base.simps) simp
  qed
qed

lemma dec_inject [simp]: "dec i = dec j \<longleftrightarrow> i = j"
proof
  assume eq: "dec i = dec j"
  have hd: "dec_nat n \<noteq> ''-'' @ s" for n s
  proof
    assume "dec_nat n = ''-'' @ s"
    then have "hd (dec_nat n) = CHR ''-''" by simp
    then show False by (simp add: dec_nat_def nat_in_base_hd)
  qed
  show "i = j"
    using eq hd hd [THEN not_sym] by (auto simp: dec_def split: if_splits)
qed simp

section \<open>Little-endian integers\<close>

text \<open>\<open>int.from_bytes(bs, "little")\<close> and the slice \<open>bs[i:j]\<close>.\<close>

fun from_bytes_le :: "bytes \<Rightarrow> int" where
  "from_bytes_le [] = 0"
| "from_bytes_le (b # bs) = uint b + 256 * from_bytes_le bs"

definition slice :: "nat \<Rightarrow> nat \<Rightarrow> 'a list \<Rightarrow> 'a list" where
  "slice i j xs = take (j - i) (drop i xs)"

fun to_bytes_le :: "nat \<Rightarrow> int \<Rightarrow> bytes" where
  "to_bytes_le 0 _ = []"
| "to_bytes_le (Suc n) i = word_of_int (i mod 256) # to_bytes_le n (i div 256)"

lemma from_bytes_le_bounds: "0 \<le> from_bytes_le bs \<and> from_bytes_le bs < 256 ^ length bs"
proof (induction bs)
  case (Cons b bs)
  have "0 \<le> uint b" "uint b \<le> 255"
    using uint_lt2p [of b] by auto
  with Cons show ?case by auto
qed simp

lemma from_to_bytes_le:
  "0 \<le> i \<Longrightarrow> i < 256 ^ n \<Longrightarrow> from_bytes_le (to_bytes_le n i) = i"
proof (induction n arbitrary: i)
  case (Suc n)
  have "i < 256 ^ n * 256" using Suc.prems by (simp add: mult.commute)
  then have "i div 256 < 256 ^ n" by linarith
  with Suc have "from_bytes_le (to_bytes_le n (i div 256)) = i div 256" by simp
  moreover have "uint (word_of_int (i mod 256) :: byte) = i mod 256"
    by (simp add: uint_word_of_int)
  ultimately show ?case by simp
qed simp

section \<open>Floats\<close>

datatype pyfloat = Fin rat | PInf | NInf | NaN

fun fl_less :: "pyfloat \<Rightarrow> pyfloat \<Rightarrow> bool" where
  "fl_less (Fin a) (Fin b) = (a < b)"
| "fl_less NInf (Fin _) = True"
| "fl_less NInf PInf = True"
| "fl_less (Fin _) PInf = True"
| "fl_less _ _ = False"

definition fl_le :: "pyfloat \<Rightarrow> pyfloat \<Rightarrow> bool" where
  "fl_le x y \<longleftrightarrow> fl_less x y \<or> (x = y \<and> x \<noteq> NaN)"

fun fl_add :: "pyfloat \<Rightarrow> pyfloat \<Rightarrow> pyfloat" where
  "fl_add (Fin a) (Fin b) = Fin (a + b)"
| "fl_add (Fin _) y = y"
| "fl_add x (Fin _) = x"
| "fl_add PInf PInf = PInf"
| "fl_add NInf NInf = NInf"
| "fl_add _ _ = NaN"

fun fl_neg :: "pyfloat \<Rightarrow> pyfloat" where
  "fl_neg (Fin a) = Fin (- a)"
| "fl_neg PInf = NInf"
| "fl_neg NInf = PInf"
| "fl_neg NaN = NaN"

definition fl_sub :: "pyfloat \<Rightarrow> pyfloat \<Rightarrow> pyfloat" where
  "fl_sub x y = fl_add x (fl_neg y)"

lemma fl_less_NaN [simp]: "\<not> fl_less NaN x" "\<not> fl_less x NaN"
  by (cases x; simp)+

lemma fl_le_NaN [simp]: "\<not> fl_le NaN x" "\<not> fl_le x NaN"
  by (auto simp: fl_le_def)

lemma fl_le_Fin [simp]: "fl_le (Fin a) (Fin b) \<longleftrightarrow> a \<le> b"
  by (auto simp: fl_le_def)

lemma fl_sub_Fin [simp]: "fl_sub (Fin a) (Fin b) = Fin (a - b)"
  by (simp add: fl_sub_def)

lemma fl_add_NaN [simp]: "fl_add NaN x = NaN" "fl_add x NaN = NaN"
  by (cases x; simp)+

lemma fl_sub_NaN [simp]: "fl_sub NaN x = NaN"
  by (simp add: fl_sub_def)

section \<open>Floats as text\<close>

definition round_half_even :: "rat \<Rightarrow> int" where
  "round_half_even q =
     (let f = \<lfloor>q\<rfloor>; d = q - of_int f
      in if d < 1 / 2 then f else if 1 / 2 < d then f + 1 else if even f then f else f + 1)"

definition pow10 :: "int \<Rightarrow> rat" where
  "pow10 k = (if 0 \<le> k then 10 ^ nat k else 1 / 10 ^ nat (- k))"

text \<open>\<open>dexp x\<close>: the decimal exponent of \<open>x > 0\<close>, the largest \<open>k\<close> with \<open>10^k \<le> x\<close>.\<close>

definition dexp :: "rat \<Rightarrow> int" where
  "dexp x =
     (if 1 \<le> x then int (length (dec_nat (nat \<lfloor>x\<rfloor>))) - 1
      else - int (length (dec_nat (nat (\<lceil>1 / x\<rceil> - 1)))))"

definition strip_zeros :: "string \<Rightarrow> string" where
  "strip_zeros s = rev (dropWhile (\<lambda>c. c = CHR ''0'') (rev s))"

definition with_frac :: "string \<Rightarrow> string \<Rightarrow> string" where
  "with_frac i f = (if f = [] then i else i @ ''.'' @ f)"

text \<open>\<open>{x:g}\<close>: six significant digits, trailing zeros removed.\<close>

definition fmt_g_pos :: "rat \<Rightarrow> string" where
  "fmt_g_pos x =
     (let e0 = dexp x;
          m0 = round_half_even (x * pow10 (5 - e0));
          e = (if m0 = 1000000 then e0 + 1 else e0);
          m = (if m0 = 1000000 then 100000 else m0);
          ds = dec_nat (nat m)
      in if 0 \<le> e \<and> e < 6 then
           with_frac (take (nat e + 1) ds) (strip_zeros (drop (nat e + 1) ds))
         else if -4 \<le> e \<and> e < 0 then
           with_frac ''0'' (replicate (nat (- e) - 1) CHR ''0'' @ strip_zeros ds)
         else
           with_frac (take 1 ds) (strip_zeros (drop 1 ds)) @ ''e''
             @ (if e < 0 then ''-'' else ''+'') @ dec02 (nat \<bar>e\<bar>))"

definition fmt_g :: "rat \<Rightarrow> string" where
  "fmt_g x =
     (if x = 0 then ''0'' else if x < 0 then ''-'' @ fmt_g_pos (- x) else fmt_g_pos x)"

fun fmt_g_float :: "pyfloat \<Rightarrow> string" where
  "fmt_g_float (Fin x) = fmt_g x"
| "fmt_g_float PInf = ''inf''"
| "fmt_g_float NInf = ''-inf''"
| "fmt_g_float NaN = ''nan''"

text \<open>\<open>{x:.1f}\<close> and \<open>round(x, 2)\<close>.\<close>

definition fmt_1f :: "rat \<Rightarrow> string" where
  "fmt_1f x =
     (let m = nat (round_half_even (\<bar>x\<bar> * 10))
      in (if x < 0 then ''-'' else '''') @ dec_nat (m div 10) @ ''.'' @ dec_nat (m mod 10))"

definition round2 :: "rat \<Rightarrow> rat" where
  "round2 x = of_int (round_half_even (x * 100)) / 100"

text \<open>
  \<open>repr(x)\<close>: the shortest decimal that reads back as \<open>x\<close>, where reading rounds to the
  nearest multiple of a power of two with 53 significant bits.
\<close>

definition bexp :: "rat \<Rightarrow> int" where
  "bexp x =
     (if 1 \<le> x then int (length (nat_in_base 2 (nat \<lfloor>x\<rfloor>))) - 1
      else - int (length (nat_in_base 2 (nat (\<lceil>1 / x\<rceil> - 1)))))"

definition pow2 :: "int \<Rightarrow> rat" where
  "pow2 k = (if 0 \<le> k then 2 ^ nat k else 1 / 2 ^ nat (- k))"

definition to_double :: "rat \<Rightarrow> rat" where
  "to_double x =
     (if x = 0 then 0
      else let u = max (bexp \<bar>x\<bar>) (- 1022) - 52
           in of_int (round_half_even (x * pow2 (- u))) * pow2 u)"

definition repr_digits :: "rat \<Rightarrow> int \<times> string" where
  "repr_digits x =
     (let e0 = dexp x;
          m = (\<lambda>n. round_half_even (x * pow10 (int n - 1 - e0)));
          ok = (\<lambda>n. to_double (of_int (m n) * pow10 (e0 - int n + 1)) = x);
          n = (case find ok [1..<17] of None \<Rightarrow> 17 | Some n \<Rightarrow> n)
      in (if m n = 10 ^ n then (e0 + 1, ''1'') else (e0, strip_zeros (dec_nat (nat (m n))))))"

definition fmt_repr_pos :: "rat \<Rightarrow> string" where
  "fmt_repr_pos x =
     (case repr_digits x of (e, ds) \<Rightarrow>
        if 0 \<le> e \<and> e < 16 then
          take (nat e + 1) (ds @ replicate (nat e + 1 - length ds) CHR ''0'') @ ''.''
            @ (if length ds \<le> nat e + 1 then ''0'' else drop (nat e + 1) ds)
        else if -4 \<le> e \<and> e < 0 then ''0.'' @ replicate (nat (- e) - 1) CHR ''0'' @ ds
        else
          with_frac (take 1 ds) (drop 1 ds) @ ''e'' @ (if e < 0 then ''-'' else ''+'')
            @ dec02 (nat \<bar>e\<bar>))"

fun fmt_repr :: "pyfloat \<Rightarrow> string" where
  "fmt_repr (Fin x) =
     (if x = 0 then ''0.0'' else if x < 0 then ''-'' @ fmt_repr_pos (- x) else fmt_repr_pos x)"
| "fmt_repr PInf = ''inf''"
| "fmt_repr NInf = ''-inf''"
| "fmt_repr NaN = ''nan''"

lemma round_half_even_near: "\<bar>of_int (round_half_even q) - q\<bar> \<le> 1 / 2"
proof -
  have "of_int \<lfloor>q\<rfloor> \<le> q" "q < of_int \<lfloor>q\<rfloor> + 1" by linarith+
  then show ?thesis by (auto simp: round_half_even_def Let_def abs_if; linarith)
qed

lemma round_half_even_of_int [simp]: "round_half_even (of_int i) = i"
  by (simp add: round_half_even_def)

section \<open>Strings\<close>

definition is_cont :: "char \<Rightarrow> bool" where
  "is_cont c \<longleftrightarrow> 128 \<le> (of_char c :: nat) \<and> (of_char c :: nat) < 192"

text \<open>\<open>s[:n]\<close>: the first \<open>n\<close> code points of a UTF-8 string.\<close>

fun utf8_take :: "nat \<Rightarrow> string \<Rightarrow> string" where
  "utf8_take n [] = []"
| "utf8_take n (c # cs) =
     (if is_cont c then c # utf8_take n cs
      else case n of 0 \<Rightarrow> [] | Suc k \<Rightarrow> c # utf8_take k cs)"

definition code_points :: "string \<Rightarrow> nat" where
  "code_points s = length (filter (\<lambda>c. \<not> is_cont c) s)"

lemma code_points_utf8_take: "code_points (utf8_take n s) \<le> n"
  by (induction n s rule: utf8_take.induct) (auto simp: code_points_def split: nat.splits)

lemma utf8_take_all: "code_points s \<le> n \<Longrightarrow> utf8_take n s = s"
proof (induction n s rule: utf8_take.induct)
  case (2 n c cs)
  then show ?case
    by (cases n) (auto simp: code_points_def split: if_splits)
qed simp

lemma utf8_take_prefix: "\<exists>t. s = utf8_take n s @ t"
  by (induction n s rule: utf8_take.induct) (auto split: nat.splits)

lemma utf8_take_nonempty: "s \<noteq> [] \<Longrightarrow> 0 < n \<Longrightarrow> utf8_take n s \<noteq> []"
  by (cases s; cases n) auto

text \<open>The arrow of the event messages, U+2192.\<close>

definition arrow :: string where
  "arrow = [char_of (226::nat), char_of (134::nat), char_of (146::nat)]"

definition nl :: string where
  "nl = [CHR 0x0A]"

definition join_lines :: "string list \<Rightarrow> string" where
  "join_lines ls = (case ls of [] \<Rightarrow> [] | l # ls' \<Rightarrow> l @ concat (map (\<lambda>x. nl @ x) ls'))"

end
