(* ===== verification/Crc8.thy ===== *)
theory Crc8
  imports Py_Format
begin

text \<open>
  The two implementations of CRC-8/ATM: \<open>crc8_atm\<close> of \<open>supervisor/protocol.py\<close> over
  Python integers, and \<open>crc8_compute\<close> of \<open>firmware/protocol/crc8.c\<close> over
  \<open>uint8_t\<close>. Both equal one shift-register definition, \<open>crc_word\<close>, whose linearity,
  injectivity and period give the error-detection lemmas: every pattern of one to
  three wrong bits, every burst of up to eight bits and every change of one byte
  has a non-zero syndrome.
\<close>

section \<open>The two implementations\<close>

fun crc8_bits :: "nat \<Rightarrow> int \<Rightarrow> int" where
  "crc8_bits 0 crc = crc"
| "crc8_bits (Suc n) crc =
     crc8_bits n
       (if crc AND 0x80 \<noteq> 0 then (push_bit 1 crc XOR 0x07) AND 0xFF
        else push_bit 1 crc AND 0xFF)"

definition crc8_atm :: "bytes \<Rightarrow> int" where
  "crc8_atm data = foldl (\<lambda>crc b. crc8_bits 8 (crc XOR uint b)) 0 data"

fun crc8_bits_c :: "nat \<Rightarrow> byte \<Rightarrow> byte" where
  "crc8_bits_c 0 crc = crc"
| "crc8_bits_c (Suc n) crc =
     crc8_bits_c n (if crc AND 0x80 \<noteq> 0 then push_bit 1 crc XOR 0x07 else push_bit 1 crc)"

text \<open>\<open>None\<close> is the null pointer; the loop reads the first \<open>length\<close> bytes.\<close>

definition crc8_compute :: "bytes option \<Rightarrow> nat \<Rightarrow> byte" where
  "crc8_compute data len =
     (case data of
        None \<Rightarrow> 0
      | Some bs \<Rightarrow> foldl (\<lambda>crc b. crc8_bits_c 8 (crc XOR b)) 0 (take len bs))"

section \<open>The shift register\<close>

definition crc_round :: "byte \<Rightarrow> byte" where
  "crc_round w = (if bit w 7 then push_bit 1 w XOR 7 else push_bit 1 w)"

definition crc_word :: "bytes \<Rightarrow> byte" where
  "crc_word data = foldl (\<lambda>c b. (crc_round ^^ 8) (c XOR b)) 0 data"

lemma bit_80: "bit (0x80 :: byte) n \<longleftrightarrow> n = 7" "bit (0x80 :: int) n \<longleftrightarrow> n = 7"
proof -
  have "(0x80 :: byte) = push_bit 7 1" "(0x80 :: int) = push_bit 7 1" by simp_all
  then show "bit (0x80 :: byte) n \<longleftrightarrow> n = 7" "bit (0x80 :: int) n \<longleftrightarrow> n = 7"
    by (auto simp only: bit_push_bit_iff bit_1_iff) auto
qed

lemma bit_7: "bit (7 :: byte) n \<longleftrightarrow> n < 3"
proof -
  have "(7 :: byte) = mask 3" by (simp add: mask_eq_exp_minus_1)
  then show ?thesis by (auto simp only: bit_mask_iff) auto
qed

lemma bit_shift1: "bit (push_bit 1 (w :: byte)) n \<longleftrightarrow> 0 < n \<and> n < 8 \<and> bit w (n - 1)"
  by (auto simp only: bit_push_bit_iff) auto

lemma bit_crc_round:
  "bit (crc_round w) n \<longleftrightarrow>
     n < 8 \<and> ((0 < n \<and> bit w (n - 1)) \<noteq> (bit w 7 \<and> n < 3))"
  by (auto simp only: crc_round_def bit_xor_iff bit_7 bit_shift1 split: if_splits)

lemma and_80_iff: "(w :: byte) AND 0x80 \<noteq> 0 \<longleftrightarrow> bit w 7"
proof -
  have "w AND 0x80 = (if bit w 7 then 0x80 else 0)"
    by (rule bit_word_eqI) (auto simp only: bit_and_iff bit_80 bit_0_eq split: if_splits)
  then show ?thesis by simp
qed

lemma and_80_int_iff: "(i :: int) AND 0x80 \<noteq> 0 \<longleftrightarrow> bit i 7"
proof -
  have "i AND 0x80 = (if bit i 7 then 0x80 else 0)"
    by (rule bit_eqI) (auto simp only: bit_and_iff bit_80 bit_0_eq split: if_splits)
  then show ?thesis by simp
qed

lemma crc8_bits_c_round: "crc8_bits_c n w = (crc_round ^^ n) w"
proof (induction n arbitrary: w)
  case (Suc n)
  have "crc8_bits_c (Suc n) w = crc8_bits_c n (crc_round w)"
    by (simp add: crc_round_def and_80_iff)
  with Suc show ?case by (simp add: funpow_swap1)
qed simp

lemma crc8_compute_word: "crc8_compute (Some bs) len = crc_word (take len bs)"
  by (simp add: crc8_compute_def crc_word_def crc8_bits_c_round)

lemma uint_crc_round:
  "uint (crc_round w) =
     (if uint w AND 0x80 \<noteq> 0 then (push_bit 1 (uint w) XOR 0x07) AND 0xFF
      else push_bit 1 (uint w) AND 0xFF)"
proof -
  have m: "(0xFF :: int) = mask 8" by (simp add: mask_eq_exp_minus_1)
  have p: "uint (push_bit 1 w) = take_bit 8 (push_bit 1 (uint w))"
    by (simp add: unsigned_push_bit_eq del: push_bit_Suc)
  have b: "bit (uint w) 7 = bit w 7" by (simp add: bit_uint_iff)
  have t: "uint (7 :: byte) = take_bit 8 7" by simp
  have x: "uint (push_bit 1 w XOR 7) = take_bit 8 (push_bit 1 (uint w) XOR 7)"
    by (simp only: unsigned_xor_eq p take_bit_xor t)
  show ?thesis
    unfolding crc_round_def and_80_int_iff m take_bit_eq_mask [symmetric] b
    using p x by (simp only: if_distrib [of uint] if_cancel refl)
qed

lemma crc8_bits_round: "crc8_bits n (uint w) = uint ((crc_round ^^ n) w)"
proof (induction n arbitrary: w)
  case (Suc n)
  have "crc8_bits (Suc n) (uint w) = crc8_bits n (uint (crc_round w))"
    by (simp only: crc8_bits.simps uint_crc_round)
  with Suc show ?case by (simp add: funpow_swap1)
qed simp

lemma crc8_atm_foldl:
  "foldl (\<lambda>crc b. crc8_bits 8 (crc XOR uint b)) (uint c) data =
     uint (foldl (\<lambda>c b. (crc_round ^^ 8) (c XOR b)) c data)"
proof (induction data arbitrary: c)
  case (Cons b data)
  have "crc8_bits 8 (uint c XOR uint b) = uint ((crc_round ^^ 8) (c XOR b))"
    using crc8_bits_round [of 8 "c XOR b"] by (simp add: unsigned_xor_eq)
  with Cons show ?case by (simp del: funpow.simps)
qed simp

lemma crc8_atm_word: "crc8_atm data = uint (crc_word data)"
  using crc8_atm_foldl [of 0 data] by (simp add: crc8_atm_def crc_word_def)

lemma crc8_atm_range: "0 \<le> crc8_atm data \<and> crc8_atm data \<le> 255"
  using uint_lt2p [of "crc_word data"] by (simp add: crc8_atm_word)

section \<open>Linearity and injectivity\<close>

lemma crc_round_xor: "crc_round (a XOR b) = crc_round a XOR crc_round b"
  by (rule bit_word_eqI) (auto simp only: bit_crc_round bit_xor_iff)

lemma crc_round_0 [simp]: "crc_round 0 = 0"
  by (simp add: crc_round_def)

lemma crc_round_eq_0: "crc_round a = 0 \<Longrightarrow> a = 0"
proof -
  assume z: "crc_round a = 0"
  have no: "\<not> bit (crc_round a) n" for n using z by simp
  have n7: "\<not> bit a 7" using no [of 0] by (simp add: bit_crc_round)
  show "a = 0"
  proof (rule bit_word_eqI)
    fix i assume i: "i < LENGTH(8)"
    show "bit a i = bit 0 i"
      using no [of "Suc i"] n7 i by (cases "i = 7") (auto simp: bit_crc_round)
  qed
qed

lemma pow_round_xor: "(crc_round ^^ n) (a XOR b) = (crc_round ^^ n) a XOR (crc_round ^^ n) b"
  by (induction n) (simp_all add: crc_round_xor)

lemma pow_round_0 [simp]: "(crc_round ^^ n) 0 = 0"
  by (induction n) simp_all

lemma pow_round_eq_0: "(crc_round ^^ n) a = 0 \<Longrightarrow> a = 0"
  by (induction n) (auto dest: crc_round_eq_0)

lemma xor_eq_0_iff: "(a :: byte) XOR b = 0 \<longleftrightarrow> a = b"
  by (auto simp: bit_eq_iff bit_simps)

lemma pow_round_inject: "(crc_round ^^ n) a = (crc_round ^^ n) b \<longleftrightarrow> a = b"
  using pow_round_eq_0 [of n "a XOR b"] by (auto simp: pow_round_xor xor_eq_0_iff)

definition xor_bytes :: "bytes \<Rightarrow> bytes \<Rightarrow> bytes" where
  "xor_bytes xs es = map2 (XOR) xs es"

lemma length_xor_bytes [simp]: "length (xor_bytes xs es) = min (length xs) (length es)"
  by (simp add: xor_bytes_def)

lemma xor_bytes_Cons [simp]: "xor_bytes (x # xs) (e # es) = (x XOR e) # xor_bytes xs es"
  by (simp add: xor_bytes_def)

lemma xor_bytes_Nil [simp]: "xor_bytes [] es = []" "xor_bytes xs [] = []"
  by (simp_all add: xor_bytes_def)

lemma crc_foldl_xor:
  "length xs = length es \<Longrightarrow>
     foldl (\<lambda>c b. (crc_round ^^ 8) (c XOR b)) (c XOR d) (xor_bytes xs es) =
     foldl (\<lambda>c b. (crc_round ^^ 8) (c XOR b)) c xs
       XOR foldl (\<lambda>c b. (crc_round ^^ 8) (c XOR b)) d es"
proof (induction xs es arbitrary: c d rule: list_induct2)
  case (Cons x xs e es)
  have "(crc_round ^^ 8) ((c XOR d) XOR (x XOR e)) =
      (crc_round ^^ 8) (c XOR x) XOR (crc_round ^^ 8) (d XOR e)"
    unfolding pow_round_xor by (simp add: ac_simps)
  then show ?case by (simp only: xor_bytes_Cons foldl_Cons Cons.IH)
qed simp

lemma crc_word_xor:
  "length xs = length es \<Longrightarrow> crc_word (xor_bytes xs es) = crc_word xs XOR crc_word es"
  using crc_foldl_xor [of xs es 0 0] by (simp add: crc_word_def)

lemma crc_word_snoc: "crc_word (xs @ [b]) = (crc_round ^^ 8) (crc_word xs XOR b)"
  by (simp add: crc_word_def del: funpow.simps)

text \<open>The residue: a message followed by its CRC has CRC zero, and only its CRC does so.\<close>

lemma crc_word_residue: "crc_word (xs @ [b]) = 0 \<longleftrightarrow> b = crc_word xs"
  using pow_round_eq_0 [of 8 "crc_word xs XOR b"]
  by (auto simp: crc_word_snoc xor_eq_0_iff simp del: funpow.simps)

section \<open>The syndrome, bit by bit\<close>

definition byte_bits :: "byte \<Rightarrow> bool list" where
  "byte_bits b = map (bit b) [7, 6, 5, 4, 3, 2, 1, 0]"

definition bits_of :: "bytes \<Rightarrow> bool list" where
  "bits_of bs = concat (map byte_bits bs)"

fun synd :: "bool list \<Rightarrow> byte" where
  "synd [] = 0"
| "synd (b # bs) = (if b then (crc_round ^^ Suc (length bs)) 0x80 else 0) XOR synd bs"

lemma length_byte_bits [simp]: "length (byte_bits b) = 8"
  by (simp add: byte_bits_def)

lemma length_bits_of [simp]: "length (bits_of bs) = 8 * length bs"
  by (induction bs) (simp_all add: bits_of_def)

lemma synd_append: "synd (xs @ ys) = (crc_round ^^ length ys) (synd xs) XOR synd ys"
proof (induction xs)
  case (Cons x xs)
  have "(crc_round ^^ Suc (length (xs @ ys))) w =
      (crc_round ^^ length ys) ((crc_round ^^ Suc (length xs)) w)" for w
  proof -
    have "Suc (length (xs @ ys)) = length ys + Suc (length xs)" by simp
    then show ?thesis by (simp only: funpow_add comp_apply)
  qed
  with Cons show ?case
    by (simp add: pow_round_xor xor.assoc del: funpow.simps)
qed simp

lemma synd_False [simp]: "synd (replicate n False) = 0"
  by (induction n) simp_all

lemma funpow_8: "(f ^^ 8) x = f (f (f (f (f (f (f (f x)))))))"
  by (simp add: numeral_eq_Suc)

lemma crc_round_shifts:
  "crc_round 1 = 2" "crc_round 2 = 4" "crc_round 4 = 8" "crc_round 8 = 16"
  "crc_round 16 = 32" "crc_round 32 = 64" "crc_round 64 = 128"
  by (simp_all add: crc_round_def)

lemma byte_split:
  "b = (if bit b 7 then 128 else 0) XOR (if bit b 6 then 64 else 0)
     XOR (if bit b 5 then 32 else 0) XOR (if bit b 4 then 16 else 0)
     XOR (if bit b 3 then 8 else 0) XOR (if bit b 2 then 4 else 0)
     XOR (if bit b 1 then 2 else 0) XOR (if bit (b :: byte) 0 then 1 else 0)"
proof (rule bit_word_eqI)
  fix n assume "n < LENGTH(8)"
  then have "n \<in> {0, 1, 2, 3, 4, 5, 6, 7}" by auto
  then show "bit b n = bit ((if bit b 7 then 128 else 0) XOR (if bit b 6 then 64 else 0)
     XOR (if bit b 5 then 32 else 0) XOR (if bit b 4 then 16 else 0)
     XOR (if bit b 3 then 8 else 0) XOR (if bit b 2 then 4 else 0)
     XOR (if bit b 1 then 2 else 0) XOR (if bit b 0 then 1 else (0 :: byte))) n"
    by (elim insertE emptyE) (simp_all add: bit_xor_iff)
qed

lemma synd_byte: "synd (byte_bits b) = (crc_round ^^ 8) b"
proof -
  have "(crc_round ^^ 8) b = (crc_round ^^ 8) ((if bit b 7 then 128 else 0)
     XOR (if bit b 6 then 64 else 0)
     XOR (if bit b 5 then 32 else 0) XOR (if bit b 4 then 16 else 0)
     XOR (if bit b 3 then 8 else 0) XOR (if bit b 2 then 4 else 0)
     XOR (if bit b 1 then 2 else 0) XOR (if bit b 0 then 1 else 0))"
    using byte_split [of b] by simp
  also have "\<dots> = synd (byte_bits b)"
    unfolding pow_round_xor
    by (simp add: byte_bits_def if_distrib [of "crc_round ^^ 8"] funpow_8 crc_round_shifts)
  finally show ?thesis by simp
qed

lemma crc_word_synd: "crc_word bs = synd (bits_of bs)"
proof (induction bs rule: rev_induct)
  case Nil
  show ?case by (simp add: crc_word_def bits_of_def)
next
  case (snoc b bs)
  have "bits_of (bs @ [b]) = bits_of bs @ byte_bits b" by (simp add: bits_of_def)
  with snoc show ?case
    by (simp add: crc_word_snoc synd_append synd_byte pow_round_xor del: funpow.simps)
qed

section \<open>Detected error patterns\<close>

fun parity_bits :: "bool list \<Rightarrow> bool" where
  "parity_bits [] = False"
| "parity_bits (b # bs) = (b \<noteq> parity_bits bs)"

definition parity :: "byte \<Rightarrow> bool" where
  "parity w = parity_bits (byte_bits w)"

lemma parity_bits_map2:
  "length xs = length ys \<Longrightarrow>
     parity_bits (map2 (\<noteq>) xs ys) = (parity_bits xs \<noteq> parity_bits ys)"
  by (induction xs ys rule: list_induct2) auto

lemma byte_bits_xor: "byte_bits (a XOR b) = map2 (\<noteq>) (byte_bits a) (byte_bits b)"
  by (simp add: byte_bits_def bit_xor_iff)

lemma parity_xor: "parity (a XOR b) = (parity a \<noteq> parity b)"
  by (simp only: parity_def byte_bits_xor parity_bits_map2 length_byte_bits)

lemma parity_0 [simp]: "\<not> parity 0"
  by (simp add: parity_def byte_bits_def)

lemma parity_80: "parity 0x80"
  by (simp add: parity_def byte_bits_def bit_80)

lemma parity_crc_round: "parity (crc_round w) = parity w"
  unfolding parity_def byte_bits_def
  by (cases "bit w 7") (simp_all add: bit_crc_round)

lemma parity_pow_round: "parity ((crc_round ^^ n) w) = parity w"
  by (induction n) (simp_all add: parity_crc_round)

text \<open>The syndrome's parity is the parity of the number of wrong bits.\<close>

lemma parity_synd: "parity (synd bs) = odd (count_list bs True)"
  by (induction bs) (auto simp: parity_xor parity_pow_round parity_80 simp del: funpow.simps)

fun orbit :: "nat \<Rightarrow> byte \<Rightarrow> byte list" where
  "orbit 0 w = []"
| "orbit (Suc n) w = crc_round w # orbit n (crc_round w)"

lemma orbit_pow: "0 < d \<Longrightarrow> d \<le> n \<Longrightarrow> (crc_round ^^ d) w \<in> set (orbit n w)"
proof (induction n arbitrary: d w)
  case (Suc n)
  then obtain k where d: "d = Suc k" by (cases d) auto
  show ?case
  proof (cases "k = 0")
    case False
    then have "(crc_round ^^ k) (crc_round w) \<in> set (orbit n (crc_round w))"
      using Suc d by simp
    with d show ?thesis by (simp add: funpow_swap1)
  qed (use d in simp)
qed simp

text \<open>The register has period 127: it does not return to \<open>0x80\<close> before.\<close>

lemma orbit_126: "0x80 \<notin> set (orbit 126 0x80)"
  by code_simp

lemma pow_round_period:
  assumes "0 < d" "d < 127"
  shows "(crc_round ^^ d) 0x80 \<noteq> 0x80"
proof
  assume eq: "(crc_round ^^ d) 0x80 = 0x80"
  have "(crc_round ^^ d) 0x80 \<in> set (orbit 126 0x80)"
    by (rule orbit_pow) (use assms in auto)
  then show False using eq orbit_126 by metis
qed

lemma synd_one_bit:
  "count_list bs True = 1 \<Longrightarrow> \<exists>k < length bs. synd bs = (crc_round ^^ Suc k) 0x80"
proof (induction bs)
  case (Cons b bs)
  show ?case
  proof (cases b)
    case True
    with Cons.prems have "count_list bs True = 0" by simp
    then have "True \<notin> set bs" by (simp add: count_list_0_iff)
    then have "bs = replicate (length bs) False"
      by (metis (full_types) replicate_eqI)
    then have "synd bs = 0" by (metis synd_False)
    with True show ?thesis by auto
  next
    case False
    with Cons show ?thesis by (auto intro: less_SucI)
  qed
qed simp

lemma synd_two_bits:
  "count_list bs True = 2 \<Longrightarrow> length bs \<le> 127 \<Longrightarrow> synd bs \<noteq> 0"
proof (induction bs)
  case (Cons b bs)
  show ?case
  proof (cases b)
    case True
    with Cons.prems obtain k where k: "k < length bs" "synd bs = (crc_round ^^ Suc k) 0x80"
      using synd_one_bit [of bs] by auto
    define d where "d = length bs - k"
    have d: "0 < d" "d < 127" "Suc (length bs) = Suc k + d"
      using k(1) Cons.prems(2) by (auto simp: d_def)
    have "(crc_round ^^ Suc (length bs)) 0x80 =
        (crc_round ^^ Suc k) ((crc_round ^^ d) 0x80)"
      by (simp only: d(3) funpow_add comp_apply)
    then have "(crc_round ^^ Suc (length bs)) 0x80 \<noteq> (crc_round ^^ Suc k) 0x80"
      using pow_round_period [OF d(1,2)] by (simp only: pow_round_inject) simp
    with True k(2) show ?thesis by (simp add: xor_eq_0_iff del: funpow.simps)
  next
    case False
    with Cons show ?thesis by simp
  qed
qed simp

text \<open>Every pattern of one to three wrong bits within 127 bits is detected.\<close>

definition wrong_bits :: "bytes \<Rightarrow> nat" where
  "wrong_bits es = count_list (bits_of es) True"

lemma synd_few_bits:
  assumes "0 < count_list bs True" "count_list bs True \<le> 3" "length bs \<le> 127"
  shows "synd bs \<noteq> 0"
proof (cases "count_list bs True = 2")
  case True
  from True assms(3) show ?thesis by (rule synd_two_bits)
next
  case False
  with assms have "odd (count_list bs True)" by presburger
  then show ?thesis using parity_synd [of bs] by auto
qed

lemma crc_word_few_bits:
  "0 < wrong_bits es \<Longrightarrow> wrong_bits es \<le> 3 \<Longrightarrow> length es \<le> 15 \<Longrightarrow> crc_word es \<noteq> 0"
  unfolding crc_word_synd wrong_bits_def by (rule synd_few_bits) auto

text \<open>Every burst of up to eight bits is detected, wherever it lies.\<close>

lemma ex_byte_bits: "length xs = 8 \<Longrightarrow> \<exists>w. byte_bits w = xs"
proof -
  assume "length xs = 8"
  then obtain a b c d e f g h where xs: "xs = [a, b, c, d, e, f, g, h]"
    by (auto simp: numeral_eq_Suc length_Suc_conv)
  let ?w = "(if a then 128 else 0) XOR (if b then 64 else 0) XOR (if c then 32 else 0)
     XOR (if d then 16 else 0) XOR (if e then 8 else 0) XOR (if f then 4 else 0)
     XOR (if g then 2 else 0) XOR (if h then 1 else (0 :: byte))"
  have "byte_bits ?w = xs"
    by (simp add: byte_bits_def xs bit_xor_iff)
  then show ?thesis by blast
qed

lemma synd_burst:
  assumes "True \<in> set b" "length b \<le> 8"
  shows "synd (replicate i False @ b @ replicate k False) \<noteq> 0"
proof -
  obtain w where w: "byte_bits w = replicate (8 - length b) False @ b"
    using ex_byte_bits [of "replicate (8 - length b) False @ b"] assms(2) by auto
  have "synd b = (crc_round ^^ 8) w"
    using synd_byte [of w] by (simp add: w synd_append)
  moreover have "w \<noteq> 0"
  proof
    assume "w = 0"
    then have "byte_bits w = replicate 8 False" by (simp add: byte_bits_def numeral_eq_Suc)
    then have "set (byte_bits w) \<subseteq> {False}" by simp
    with w assms(1) show False by auto
  qed
  ultimately have "synd b \<noteq> 0" using pow_round_eq_0 by metis
  then show ?thesis using pow_round_eq_0 [of k] by (auto simp: synd_append)
qed

text \<open>A change of one byte, of any number of its bits, is detected.\<close>

lemma crc_word_one_byte:
  assumes "e \<noteq> 0"
  shows "crc_word (replicate i 0 @ e # replicate k 0) \<noteq> 0"
proof -
  have z: "bits_of (replicate n 0) = replicate (8 * n) False" for n
    by (induction n) (simp_all add: bits_of_def byte_bits_def numeral_eq_Suc)
  have "bits_of (replicate i 0 @ e # replicate k 0) =
      replicate (8 * i) False @ byte_bits e @ replicate (8 * k) False"
    using z by (simp add: bits_of_def)
  moreover have "True \<in> set (byte_bits e)"
  proof (rule ccontr)
    assume "True \<notin> set (byte_bits e)"
    then have "byte_bits e = byte_bits 0"
      by (auto simp: byte_bits_def)
    with assms show False
      using synd_byte [of e] synd_byte [of 0] pow_round_inject [of 8 e 0] by simp
  qed
  ultimately show ?thesis unfolding crc_word_synd by (simp add: synd_burst)
qed

end
