(* ===== verification/Protocol.thy ===== *)
theory Protocol
  imports Crc8
begin

text \<open>
  \<open>supervisor/protocol.py\<close>: the frame codec and the decoders of the status
  payloads. A frame's type and sequence are Python integers and its payload is a
  byte string; \<open>encode_frame_obj\<close> and \<open>decode_frame_obj\<close> take arbitrary Python
  objects, as the code does, and show what the type checks reject.
\<close>

section \<open>Constants\<close>

definition SOF :: int where "SOF = 0xA5"
definition VERSION :: int where "VERSION = 0x01"
definition MAX_PAYLOAD :: nat where "MAX_PAYLOAD = 8"

definition TYPE_PING :: int where "TYPE_PING = 0x01"
definition TYPE_ECHO :: int where "TYPE_ECHO = 0x02"
definition TYPE_GET_COMM_STATUS :: int where "TYPE_GET_COMM_STATUS = 0x03"
definition TYPE_GET_TIMING_STATUS :: int where "TYPE_GET_TIMING_STATUS = 0x04"
definition TYPE_GET_JITTER_STATUS :: int where "TYPE_GET_JITTER_STATUS = 0x05"
definition TYPE_GET_RUNTIME_MEMORY_STATUS :: int where
  "TYPE_GET_RUNTIME_MEMORY_STATUS = 0x06"
definition TYPE_GET_CPU_LOAD_STATUS :: int where "TYPE_GET_CPU_LOAD_STATUS = 0x07"
definition TYPE_GET_OVERRUN_STATUS :: int where "TYPE_GET_OVERRUN_STATUS = 0x08"
definition TYPE_GET_RESET_CAUSE :: int where "TYPE_GET_RESET_CAUSE = 0x09"
definition TYPE_INJECT_WATCHDOG_BLOCK :: int where "TYPE_INJECT_WATCHDOG_BLOCK = 0x0A"
definition TYPE_GET_WATCHDOG_STATUS :: int where "TYPE_GET_WATCHDOG_STATUS = 0x0B"
definition TYPE_PONG :: int where "TYPE_PONG = 0x81"
definition TYPE_COMM_STATUS :: int where "TYPE_COMM_STATUS = 0x83"
definition TYPE_TIMING_STATUS :: int where "TYPE_TIMING_STATUS = 0x84"
definition TYPE_JITTER_STATUS :: int where "TYPE_JITTER_STATUS = 0x85"
definition TYPE_RUNTIME_MEMORY_STATUS :: int where "TYPE_RUNTIME_MEMORY_STATUS = 0x86"
definition TYPE_CPU_LOAD_STATUS :: int where "TYPE_CPU_LOAD_STATUS = 0x87"
definition TYPE_OVERRUN_STATUS :: int where "TYPE_OVERRUN_STATUS = 0x88"
definition TYPE_RESET_CAUSE :: int where "TYPE_RESET_CAUSE = 0x89"
definition TYPE_WATCHDOG_STATUS :: int where "TYPE_WATCHDOG_STATUS = 0x8B"
definition TYPE_ACK :: int where "TYPE_ACK = 0x90"
definition TYPE_NACK :: int where "TYPE_NACK = 0x91"
definition NACK_UNSUPPORTED_TYPE :: int where "NACK_UNSUPPORTED_TYPE = 0x01"
definition NACK_INVALID_LENGTH :: int where "NACK_INVALID_LENGTH = 0x02"
definition MCUSR_WDRF_MASK :: int where "MCUSR_WDRF_MASK = push_bit 3 1"

lemmas type_defs =
  TYPE_PING_def TYPE_ECHO_def TYPE_GET_COMM_STATUS_def TYPE_GET_TIMING_STATUS_def
  TYPE_GET_JITTER_STATUS_def TYPE_GET_RUNTIME_MEMORY_STATUS_def
  TYPE_GET_CPU_LOAD_STATUS_def TYPE_GET_OVERRUN_STATUS_def TYPE_GET_RESET_CAUSE_def
  TYPE_INJECT_WATCHDOG_BLOCK_def TYPE_GET_WATCHDOG_STATUS_def TYPE_PONG_def
  TYPE_COMM_STATUS_def TYPE_TIMING_STATUS_def TYPE_JITTER_STATUS_def
  TYPE_RUNTIME_MEMORY_STATUS_def TYPE_CPU_LOAD_STATUS_def TYPE_OVERRUN_STATUS_def
  TYPE_RESET_CAUSE_def TYPE_WATCHDOG_STATUS_def TYPE_ACK_def TYPE_NACK_def

section \<open>Data\<close>

record frame =
  frame_type :: int
  sequence :: int
  payload :: bytes

definition mk_frame :: "int \<Rightarrow> int \<Rightarrow> bytes \<Rightarrow> frame" where
  "mk_frame t s p = \<lparr>frame_type = t, sequence = s, payload = p\<rparr>"

record comm_status =
  uart_rx_overflow :: int
  parser_timeouts :: int
  crc_errors :: int

record timing_status =
  actuator_ticks :: int
  control_ticks :: int
  sensor_safety_ticks :: int
  communication_ticks :: int

record jitter_status =
  actuator_ms :: int
  control_ms :: int
  sensor_safety_ms :: int
  communication_ms :: int

record runtime_memory_status =
  min_free_bytes :: int
  painted_bytes :: int
  used_painted_bytes :: int

record cpu_load_status =
  busy_ticks :: int
  elapsed_ms :: int

record overrun_status =
  actuator :: int
  control :: int
  sensor_safety :: int
  communication :: int

record reset_cause_status =
  reset_cause :: int

record watchdog_status =
  timeout_marker :: int

section \<open>The codec\<close>

text \<open>The Python objects that the type checks tell apart.\<close>

datatype pyval = PyInt int | PyBool bool | PyBytes bytes | PyOther

text \<open>
  \<open>_validate_octet\<close> returns nothing in the code; here it returns the integer it
  accepted, which the code then reads again from the frame.
\<close>

definition validate_octet :: "string \<Rightarrow> pyval \<Rightarrow> int res" where
  "validate_octet name v =
     (case v of
        PyInt i \<Rightarrow>
          if 0 \<le> i \<and> i \<le> 0xFF then Inr i
          else Inl (Exc ProtocolError (name @ '' must be in range 0..255''))
      | _ \<Rightarrow> Inl (Exc ProtocolError (name @ '' must be an integer'')))"

text \<open>\<open>bytes((i, ..))\<close>.\<close>

definition mk_bytes :: "int list \<Rightarrow> bytes res" where
  "mk_bytes is =
     (if \<forall>i \<in> set is. 0 \<le> i \<and> i \<le> 255 then Inr (map word_of_int is)
      else Inl (Exc ValueError ''bytes must be in range(0, 256)''))"

definition encode_frame_obj :: "pyval \<Rightarrow> pyval \<Rightarrow> pyval \<Rightarrow> bytes res" where
  "encode_frame_obj ft sq pl =
     bind_res (validate_octet ''frame_type'' ft) (\<lambda>t.
     bind_res (validate_octet ''sequence'' sq) (\<lambda>s.
     case pl of
       PyBytes p \<Rightarrow>
         if length p > MAX_PAYLOAD then
           Inl (Exc ProtocolError
             (''payload length '' @ dec (int (length p)) @ '' exceeds ''
                @ dec (int MAX_PAYLOAD) @ '' bytes''))
         else
           bind_res (mk_bytes [VERSION, t, s, int (length p)]) (\<lambda>hd.
           bind_res (mk_bytes [SOF]) (\<lambda>sof.
           bind_res (mk_bytes [crc8_atm (hd @ p)]) (\<lambda>crc.
           Inr (sof @ (hd @ p) @ crc))))
     | _ \<Rightarrow> Inl (Exc ProtocolError ''payload must be bytes'')))"

definition encode_frame :: "frame \<Rightarrow> bytes res" where
  "encode_frame f =
     encode_frame_obj (PyInt (frame_type f)) (PyInt (sequence f)) (PyBytes (payload f))"

definition decode_frame :: "bytes \<Rightarrow> frame res" where
  "decode_frame data =
     (if length data < 6 then
        Inl (Exc ProtocolError ''frame is shorter than the 6-byte minimum'')
      else if uint (data ! 0) \<noteq> SOF then
        Inl (Exc ProtocolError (''invalid SOF 0x'' @ hex02 (uint (data ! 0))))
      else if uint (data ! 1) \<noteq> VERSION then
        Inl (Exc ProtocolError
          (''unsupported protocol version 0x'' @ hex02 (uint (data ! 1))))
      else
        let payload_length = unat (data ! 4) in
        if payload_length > MAX_PAYLOAD then
          Inl (Exc ProtocolError
            (''payload length '' @ dec (int payload_length) @ '' exceeds ''
               @ dec (int MAX_PAYLOAD) @ '' bytes''))
        else
          let expected_size = 6 + payload_length in
          if length data \<noteq> expected_size then
            Inl (Exc ProtocolError
              (''frame size '' @ dec (int (length data)) @ '' does not match LENGTH ''
                 @ dec (int payload_length) @ '' (expected ''
                 @ dec (int expected_size) @ '')''))
          else
            let expected_crc = crc8_atm (slice 1 (length data - 1) data) in
            if uint (last data) \<noteq> expected_crc then
              Inl (Exc CRCError
                (''CRC mismatch: received 0x'' @ hex02 (uint (last data))
                   @ '', expected 0x'' @ hex02 expected_crc))
            else
              Inr (mk_frame (uint (data ! 2)) (uint (data ! 3))
                     (slice 5 (5 + payload_length) data)))"

definition decode_frame_obj :: "pyval \<Rightarrow> frame res" where
  "decode_frame_obj v =
     (case v of
        PyBytes data \<Rightarrow> decode_frame data
      | _ \<Rightarrow> Inl (Exc ProtocolError ''encoded frame must be bytes''))"

section \<open>Status decoders\<close>

text \<open>The two checks every decoder starts with: the type, then the exact length.\<close>

definition expect_status :: "string \<Rightarrow> int \<Rightarrow> nat \<Rightarrow> frame \<Rightarrow> bytes res" where
  "expect_status name ty n f =
     (if frame_type f \<noteq> ty then
        Inl (Exc ProtocolError
          (''expected '' @ name @ '' type 0x'' @ hex02 ty @ '', received 0x''
             @ hex02 (frame_type f)))
      else if length (payload f) \<noteq> n then
        Inl (Exc ProtocolError
          (name @ '' payload must contain exactly '' @ dec (int n)
             @ (if n = 1 then '' byte, received '' else '' bytes, received '')
             @ dec (int (length (payload f)))))
      else Inr (payload f))"

definition decode_comm_status :: "frame \<Rightarrow> comm_status res" where
  "decode_comm_status f =
     bind_res (expect_status ''COMM_STATUS'' TYPE_COMM_STATUS 3 f) (\<lambda>p.
     Inr \<lparr>uart_rx_overflow = uint (p ! 0),
          parser_timeouts = uint (p ! 1),
          crc_errors = uint (p ! 2)\<rparr>)"

definition decode_timing_status :: "frame \<Rightarrow> timing_status res" where
  "decode_timing_status f =
     bind_res (expect_status ''TIMING_STATUS'' TYPE_TIMING_STATUS 8 f) (\<lambda>p.
     Inr \<lparr>actuator_ticks = from_bytes_le (slice 0 2 p),
          control_ticks = from_bytes_le (slice 2 4 p),
          sensor_safety_ticks = from_bytes_le (slice 4 6 p),
          communication_ticks = from_bytes_le (slice 6 8 p)\<rparr>)"

definition ticks_to_microseconds :: "int \<Rightarrow> rat" where
  "ticks_to_microseconds ticks = of_int ticks * (1 / 2)"

definition decode_jitter_status :: "frame \<Rightarrow> jitter_status res" where
  "decode_jitter_status f =
     bind_res (expect_status ''JITTER_STATUS'' TYPE_JITTER_STATUS 8 f) (\<lambda>p.
     Inr \<lparr>actuator_ms = from_bytes_le (slice 0 2 p),
          control_ms = from_bytes_le (slice 2 4 p),
          sensor_safety_ms = from_bytes_le (slice 4 6 p),
          communication_ms = from_bytes_le (slice 6 8 p)\<rparr>)"

definition decode_runtime_memory_status :: "frame \<Rightarrow> runtime_memory_status res" where
  "decode_runtime_memory_status f =
     bind_res (expect_status ''RUNTIME_MEMORY_STATUS'' TYPE_RUNTIME_MEMORY_STATUS 6 f) (\<lambda>p.
     Inr \<lparr>min_free_bytes = from_bytes_le (slice 0 2 p),
          painted_bytes = from_bytes_le (slice 2 4 p),
          used_painted_bytes = from_bytes_le (slice 4 6 p)\<rparr>)"

definition decode_cpu_load_status :: "frame \<Rightarrow> cpu_load_status res" where
  "decode_cpu_load_status f =
     bind_res (expect_status ''CPU_LOAD_STATUS'' TYPE_CPU_LOAD_STATUS 8 f) (\<lambda>p.
     Inr \<lparr>busy_ticks = from_bytes_le (slice 0 4 p),
          elapsed_ms = from_bytes_le (slice 4 8 p)\<rparr>)"

definition calculate_scheduled_task_utilization :: "int \<Rightarrow> int \<Rightarrow> rat" where
  "calculate_scheduled_task_utilization busy elapsed =
     (if elapsed = 0 then 0
      else let available_ticks = elapsed * 2000
           in 100 * of_int busy / of_int available_ticks)"

definition decode_overrun_status :: "frame \<Rightarrow> overrun_status res" where
  "decode_overrun_status f =
     bind_res (expect_status ''OVERRUN_STATUS'' TYPE_OVERRUN_STATUS 8 f) (\<lambda>p.
     Inr \<lparr>actuator = from_bytes_le (slice 0 2 p),
          control = from_bytes_le (slice 2 4 p),
          sensor_safety = from_bytes_le (slice 4 6 p),
          communication = from_bytes_le (slice 6 8 p)\<rparr>)"

definition decode_reset_cause :: "frame \<Rightarrow> reset_cause_status res" where
  "decode_reset_cause f =
     bind_res (expect_status ''RESET_CAUSE'' TYPE_RESET_CAUSE 1 f) (\<lambda>p.
     Inr \<lparr>reset_cause = uint (p ! 0)\<rparr>)"

definition reset_cause_has_wdrf :: "int \<Rightarrow> bool" where
  "reset_cause_has_wdrf cause \<longleftrightarrow> cause AND MCUSR_WDRF_MASK \<noteq> 0"

definition decode_watchdog_status :: "frame \<Rightarrow> watchdog_status res" where
  "decode_watchdog_status f =
     bind_res (expect_status ''WATCHDOG_STATUS'' TYPE_WATCHDOG_STATUS 1 f) (\<lambda>p.
     if uint (p ! 0) \<notin> {0, 1} then
       Inl (Exc ProtocolError
         (''WATCHDOG_STATUS marker must be 0 or 1, received '' @ dec (uint (p ! 0))))
     else Inr \<lparr>timeout_marker = uint (p ! 0)\<rparr>)"

definition watchdog_test_passed :: "bool \<Rightarrow> bool \<Rightarrow> int \<Rightarrow> bool" where
  "watchdog_test_passed mcu_recovered ping_after_reset marker \<longleftrightarrow>
     mcu_recovered \<and> ping_after_reset \<and> marker = 1"

section \<open>The wire format\<close>

text \<open>The abstract contract of the codec: which frames are valid and their bytes.\<close>

definition valid_frame :: "frame \<Rightarrow> bool" where
  "valid_frame f \<longleftrightarrow>
     0 \<le> frame_type f \<and> frame_type f \<le> 255 \<and> 0 \<le> sequence f \<and> sequence f \<le> 255 \<and>
     length (payload f) \<le> MAX_PAYLOAD"

definition wire_body :: "frame \<Rightarrow> bytes" where
  "wire_body f =
     [1, word_of_int (frame_type f), word_of_int (sequence f), of_nat (length (payload f))]
       @ payload f"

definition wire :: "frame \<Rightarrow> bytes" where
  "wire f = 0xA5 # wire_body f @ [crc_word (wire_body f)]"

lemma length_wire: "length (wire f) = 6 + length (payload f)"
  by (simp add: wire_def wire_body_def)

lemma validate_octet_PyInt:
  "validate_octet name (PyInt i) =
     (if 0 \<le> i \<and> i \<le> 255 then Inr i
      else Inl (Exc ProtocolError (name @ '' must be in range 0..255'')))"
  by (simp add: validate_octet_def)

lemma encode_frame_wire: "valid_frame f \<Longrightarrow> encode_frame f = Inr (wire f)"
  using crc8_atm_range
  by (simp add: encode_frame_def encode_frame_obj_def validate_octet_PyInt valid_frame_def
      mk_bytes_def VERSION_def SOF_def MAX_PAYLOAD_def wire_def wire_body_def crc8_atm_word)

lemma encode_frame_invalid:
  "\<not> valid_frame f \<Longrightarrow> \<exists>m. encode_frame f = Inl (Exc ProtocolError m)"
  by (auto simp: encode_frame_def encode_frame_obj_def validate_octet_PyInt valid_frame_def)

lemma encode_frame_iff: "encode_frame f = Inr bs \<longleftrightarrow> valid_frame f \<and> bs = wire f"
  using encode_frame_wire [of f] encode_frame_invalid [of f] by (cases "valid_frame f") auto

text \<open>
  The type checks: \<open>encode_frame\<close> accepts exactly integers (not booleans) in the
  octet range and a byte string of at most eight bytes.
\<close>

lemma encode_frame_obj_ok_iff:
  "is_ok (encode_frame_obj ft sq pl) \<longleftrightarrow>
     (\<exists>t s p. ft = PyInt t \<and> sq = PyInt s \<and> pl = PyBytes p \<and> valid_frame (mk_frame t s p))"
proof -
  have "is_ok (encode_frame f) = valid_frame f" for f
    using encode_frame_wire [of f] encode_frame_invalid [of f] by (cases "valid_frame f") auto
  from this [of "mk_frame t s p" for t s p]
  have enc: "is_ok (encode_frame_obj (PyInt t) (PyInt s) (PyBytes p)) =
      valid_frame (mk_frame t s p)" for t s p
    by (simp add: encode_frame_def mk_frame_def)
  have "is_ok (encode_frame_obj ft sq pl) \<Longrightarrow>
      \<exists>t s p. ft = PyInt t \<and> sq = PyInt s \<and> pl = PyBytes p"
    by (cases ft; cases sq; cases pl)
      (auto simp: encode_frame_obj_def validate_octet_def bind_res_def split: if_splits)
  with enc show ?thesis by blast
qed

lemma uint_eq_numeral:
  "uint (b :: byte) = 0xA5 \<longleftrightarrow> b = 0xA5" "uint (b :: byte) = 1 \<longleftrightarrow> b = 1"
  using word_uint_eq_iff [of b "0xA5"] word_uint_eq_iff [of b 1] by auto

lemma wire_nth:
  "wire f ! 0 = 0xA5" "wire f ! 1 = 1" "wire f ! 2 = word_of_int (frame_type f)"
  "wire f ! 3 = word_of_int (sequence f)" "wire f ! 4 = of_nat (length (payload f))"
  by (simp_all add: wire_def wire_body_def nth_Cons')

lemma uint_octet: "0 \<le> i \<Longrightarrow> i \<le> 255 \<Longrightarrow> uint (word_of_int i :: byte) = i"
  by (simp add: uint_word_of_int)

lemma unat_octet: "n \<le> 255 \<Longrightarrow> unat (of_nat n :: byte) = n"
  by (simp add: unat_of_nat)

lemma slice_wire_body: "slice 1 (length (wire f) - 1) (wire f) = wire_body f"
  by (simp add: slice_def wire_def)

lemma slice_wire_payload: "slice 5 (5 + length (payload f)) (wire f) = payload f"
  by (simp add: slice_def wire_def wire_body_def numeral_eq_Suc)

lemmas wire_facts = wire_nth [unfolded One_nat_def] slice_wire_body [unfolded One_nat_def]
  slice_wire_payload

lemma decode_wire: "valid_frame f \<Longrightarrow> decode_frame (wire f) = Inr f"
proof -
  assume v: "valid_frame f"
  have l: "length (wire f) = 6 + length (payload f)" by (rule length_wire)
  have p: "unat (of_nat (length (payload f)) :: byte) = length (payload f)"
    using v by (simp add: valid_frame_def MAX_PAYLOAD_def unat_octet)
  have c: "uint (last (wire f)) = crc8_atm (wire_body f)"
    by (simp add: wire_def crc8_atm_word)
  have b: "slice (Suc 0) (5 + length (payload f)) (wire f) = wire_body f"
    using slice_wire_body [of f] l by simp
  have "decode_frame (wire f) = Inr (mk_frame (frame_type f) (sequence f) (payload f))"
    using v l p c b
    by (simp add: decode_frame_def wire_facts SOF_def VERSION_def valid_frame_def uint_octet)
  then show ?thesis by (simp add: mk_frame_def)
qed

lemma length_ge_5E:
  assumes "5 \<le> length xs" obtains a b c d e r where "xs = a # b # c # d # e # r"
  using assms by (auto simp: numeral_eq_Suc Suc_le_length_iff)

text \<open>The acceptance conditions of \<open>decode_frame\<close>, read off its early returns.\<close>

lemma decode_frame_InrD:
  assumes "decode_frame bs = Inr f"
  shows "6 \<le> length bs" "uint (bs ! 0) = 0xA5" "uint (bs ! 1) = 1" "unat (bs ! 4) \<le> 8"
    "length bs = 6 + unat (bs ! 4)"
    "uint (last bs) = crc8_atm (slice 1 (length bs - 1) bs)"
    "f = mk_frame (uint (bs ! 2)) (uint (bs ! 3)) (slice 5 (5 + unat (bs ! 4)) bs)"
  using assms
  by (auto simp: decode_frame_def SOF_def VERSION_def MAX_PAYLOAD_def Let_def split: if_splits)

lemma decode_frame_canonical:
  assumes "decode_frame bs = Inr f"
  shows "valid_frame f \<and> bs = wire f"
proof -
  note d = decode_frame_InrD [OF assms]
  have "5 \<le> length bs" using d(1) by simp
  then obtain x0 x1 x2 x3 x4 r where bs: "bs = x0 # x1 # x2 # x3 # x4 # r"
    by (rule length_ge_5E)
  have lr: "length r = Suc (unat x4)" using d(5) by (simp add: bs)
  then have r: "r = butlast r @ [last r]" by (cases r rule: rev_cases) auto
  have x: "x0 = 0xA5" "x1 = 1"
    using d(2,3) by (simp_all add: bs uint_eq_numeral)
  have f: "f = mk_frame (uint x2) (uint x3) (butlast r)"
    using d(7) lr by (simp add: bs slice_def numeral_eq_Suc butlast_conv_take)
  have body: "slice 1 (length bs - 1) bs = wire_body f"
    using lr x by (simp add: bs slice_def f wire_body_def mk_frame_def butlast_conv_take numeral_eq_Suc)
  have "last r = crc_word (wire_body f)"
    using d(6) lr unfolding body by (auto simp: bs crc8_atm_word word_uint_eq_iff split: if_splits)
  with r have "bs = wire f"
    using lr x by (simp add: wire_def bs f wire_body_def mk_frame_def)
  moreover have "valid_frame f"
    using uint_lt2p [of x2] uint_lt2p [of x3] d(4) lr
    by (simp add: valid_frame_def f mk_frame_def MAX_PAYLOAD_def bs)
  ultimately show ?thesis by simp
qed

text \<open>The codec is a bijection between the valid frames and the accepted byte strings.\<close>

lemma decode_frame_iff: "decode_frame bs = Inr f \<longleftrightarrow> valid_frame f \<and> bs = wire f"
  using decode_frame_canonical decode_wire by blast

lemma wire_inject: "valid_frame f \<Longrightarrow> valid_frame g \<Longrightarrow> wire f = wire g \<longleftrightarrow> f = g"
  by (metis decode_wire sum.inject(2))

lemma decode_frame_error_class:
  "decode_frame bs = Inl e \<Longrightarrow> exc_class e \<in> {ProtocolError, CRCError}"
  by (auto simp: decode_frame_def Let_def split: if_splits)

section \<open>Corrupted frames\<close>

text \<open>
  A corrupted frame that is still accepted has an intact SOF and an error pattern
  of syndrome zero over the rest, whatever the decoder then reads as LENGTH.
\<close>

lemma crc_wire_tail: "crc_word (wire_body f @ [crc_word (wire_body f)]) = 0"
  by (simp add: crc_word_residue)

lemma accepted_corruption:
  assumes "decode_frame (xor_bytes (wire f) es) = Inr g" "length es = length (wire f)"
  obtains eb where "es = 0 # eb" "crc_word eb = 0" "length eb = 5 + length (payload f)"
proof -
  obtain e0 eb where es: "es = e0 # eb" and le: "length eb = 5 + length (payload f)"
    using assms(2) by (cases es) (auto simp: length_wire)
  let ?tf = "wire_body f @ [crc_word (wire_body f)]" and ?tg = "wire_body g @ [crc_word (wire_body g)]"
  have lt: "length ?tf = length eb" using le by (simp add: wire_body_def)
  have "xor_bytes (wire f) es = wire g"
    using assms(1) decode_frame_canonical by blast
  then have eq: "0xA5 XOR e0 = (0xA5 :: byte)" "xor_bytes ?tf eb = ?tg"
    by (simp_all add: es wire_def)
  have "e0 = 0xA5 XOR (0xA5 XOR e0)" by (simp flip: xor.assoc)
  also have "\<dots> = 0" by (simp only: eq(1)) simp
  finally have "e0 = 0" .
  moreover have "crc_word eb = 0"
    using crc_word_xor [OF lt] crc_wire_tail [of f] crc_wire_tail [of g] by (simp add: eq(2))
  ultimately show ?thesis using that es le by simp
qed

lemma decode_few_wrong_bits:
  assumes "valid_frame f" "length es = length (wire f)" "0 < wrong_bits es" "wrong_bits es \<le> 3"
  shows "\<not> is_ok (decode_frame (xor_bytes (wire f) es))"
proof
  assume "is_ok (decode_frame (xor_bytes (wire f) es))"
  then obtain g where "decode_frame (xor_bytes (wire f) es) = Inr g"
    by (auto simp: is_ok_def split: sum.splits)
  then obtain eb where eb: "es = 0 # eb" "crc_word eb = 0" "length eb = 5 + length (payload f)"
    using assms(2) by (rule accepted_corruption)
  have "wrong_bits es = wrong_bits eb"
    by (simp add: eb(1) wrong_bits_def bits_of_def byte_bits_def)
  moreover have "length eb \<le> 15"
    using assms(1) eb(3) by (simp add: valid_frame_def MAX_PAYLOAD_def)
  ultimately show False using crc_word_few_bits [of eb] assms(3,4) eb(2) by simp
qed

lemma decode_burst:
  assumes "length es = length (wire f)"
    and "bits_of es = replicate i False @ b @ replicate k False"
    and "True \<in> set b" "length b \<le> 8"
  shows "\<not> is_ok (decode_frame (xor_bytes (wire f) es))"
proof
  assume "is_ok (decode_frame (xor_bytes (wire f) es))"
  then obtain g where "decode_frame (xor_bytes (wire f) es) = Inr g"
    by (auto simp: is_ok_def split: sum.splits)
  then obtain eb where eb: "es = 0 # eb" "crc_word eb = 0" "length eb = 5 + length (payload f)"
    using assms(1) by (rule accepted_corruption)
  have "crc_word es = crc_word eb" by (simp add: eb(1) crc_word_def)
  then show False
    using synd_burst [OF assms(3,4), of i k] assms(2) eb(2) by (simp add: crc_word_synd)
qed

lemma bits_of_zeros: "bits_of (replicate n 0) = replicate (8 * n) False"
  by (induction n) (simp_all add: bits_of_def byte_bits_def numeral_eq_Suc)

lemma byte_bits_True: "e \<noteq> 0 \<Longrightarrow> True \<in> set (byte_bits e)"
proof (rule ccontr)
  assume "e \<noteq> 0" and "True \<notin> set (byte_bits e)"
  then have "byte_bits e = byte_bits 0" by (auto simp: byte_bits_def)
  then have "(crc_round ^^ 8) e = (crc_round ^^ 8) 0"
    using synd_byte [of e] synd_byte [of 0] by simp
  with \<open>e \<noteq> 0\<close> show False by (simp only: pow_round_inject)
qed

lemma xor_bytes_single:
  "i < length xs \<Longrightarrow> xor_bytes xs (replicate i 0 @ e # replicate (length xs - Suc i) 0) =
     xs[i := xs ! i XOR e]"
proof (induction xs arbitrary: i)
  case (Cons x xs)
  have z: "xor_bytes ys (replicate (length ys) 0) = ys" for ys :: bytes
    by (induction ys) simp_all
  show ?case using Cons by (cases i) (simp_all add: z)
qed simp

lemma decode_one_byte:
  assumes "i < length (wire f)" "b \<noteq> wire f ! i"
  shows "\<not> is_ok (decode_frame ((wire f)[i := b]))"
proof -
  define e where "e = wire f ! i XOR b"
  let ?es = "replicate i 0 @ e # replicate (length (wire f) - Suc i) 0"
  have e: "e \<noteq> 0" using assms(2) by (simp add: e_def xor_eq_0_iff)
  have b: "wire f ! i XOR e = b" by (simp add: e_def flip: xor.assoc)
  have bits: "bits_of ?es = replicate (8 * i) False @ byte_bits e
      @ replicate (8 * (length (wire f) - Suc i)) False"
    using bits_of_zeros by (simp add: bits_of_def)
  have "\<not> is_ok (decode_frame (xor_bytes (wire f) ?es))"
    by (rule decode_burst [OF _ bits]) (use assms(1) byte_bits_True [OF e] in auto)
  then show ?thesis using xor_bytes_single [OF assms(1), of e] b by simp
qed

section \<open>The status decoders\<close>

lemma expect_status_iff:
  "expect_status name ty n f = Inr p \<longleftrightarrow>
     frame_type f = ty \<and> length (payload f) = n \<and> p = payload f"
  by (auto simp: expect_status_def)

lemma expect_status_Inl:
  "expect_status name ty n f = Inl e \<Longrightarrow> exc_class e = ProtocolError"
  by (auto simp: expect_status_def split: if_splits)

lemmas decoder_defs =
  decode_comm_status_def decode_timing_status_def decode_jitter_status_def
  decode_runtime_memory_status_def decode_cpu_load_status_def decode_overrun_status_def
  decode_reset_cause_def

lemma slice_bounds:
  assumes "length (slice i j p) = n"
  shows "0 \<le> from_bytes_le (slice i j p) \<and> from_bytes_le (slice i j p) < 256 ^ n"
  using from_bytes_le_bounds [of "slice i j p"] assms by simp

lemma length_slice: "j \<le> length p \<Longrightarrow> length (slice i j p) = j - i"
  by (simp add: slice_def)

lemma from_bytes_slice_bounds:
  "i \<le> j \<Longrightarrow> j \<le> length p \<Longrightarrow>
     0 \<le> from_bytes_le (slice i j p) \<and> from_bytes_le (slice i j p) < 256 ^ (j - i)"
  by (rule slice_bounds) (simp add: length_slice)

lemma uint_byte_bounds: "0 \<le> uint (b :: byte) \<and> uint b \<le> 255"
  using uint_lt2p [of b] by simp

end
