(* ===== verification/Serial_Link.thy ===== *)
theory Serial_Link
  imports Protocol
begin

text \<open>
  \<open>supervisor/serial_link.py\<close>: the serial port object. The operating system is an
  argument, a record \<open>os\<close> of the calls the program makes on a world of unknown type;
  \<open>SerialLink._fd\<close> is the field \<open>link_fd\<close> of the host program's state. The locale
  \<open>tty\<close> states what the link relies on, and its lemmas are what the rest of the
  program relies on.
\<close>

section \<open>The operating system\<close>

datatype tty_flag = CS8 | CREAD | CLOCAL | OtherFlag nat
datatype baud = B9600 | OtherBaud nat

record tty_attrs =
  iflag :: "tty_flag set"
  oflag :: "tty_flag set"
  cflag :: "tty_flag set"
  lflag :: "tty_flag set"
  ispeed :: baud
  ospeed :: baud
  vmin :: nat
  vtime :: nat

text \<open>A point of wall-clock time, as the two texts the program makes of it.\<close>

record datetime =
  dt_iso :: string
  dt_stamp :: string

datatype file_mode = ModeW | ModeX

record completed_process =
  returncode :: int
  proc_stdout :: string
  proc_stderr :: string

record 'w os =
  os_open :: "string \<Rightarrow> 'w \<Rightarrow> int res \<times> 'w"
  os_close :: "int \<Rightarrow> 'w \<Rightarrow> unit res \<times> 'w"
  os_tcgetattr :: "int \<Rightarrow> 'w \<Rightarrow> tty_attrs res \<times> 'w"
  os_tcsetattr :: "int \<Rightarrow> tty_attrs \<Rightarrow> 'w \<Rightarrow> unit res \<times> 'w"
  os_tcdrain :: "int \<Rightarrow> 'w \<Rightarrow> unit res \<times> 'w"
  os_tcflush_in :: "int \<Rightarrow> 'w \<Rightarrow> unit res \<times> 'w"
  os_write :: "int \<Rightarrow> bytes \<Rightarrow> 'w \<Rightarrow> nat res \<times> 'w"
  os_read :: "int \<Rightarrow> nat \<Rightarrow> 'w \<Rightarrow> bytes res \<times> 'w"
  os_select :: "int \<Rightarrow> rat \<Rightarrow> 'w \<Rightarrow> bool res \<times> 'w"
  os_monotonic :: "'w \<Rightarrow> rat \<times> 'w"
  os_time :: "'w \<Rightarrow> rat \<times> 'w"
  os_now :: "'w \<Rightarrow> datetime \<times> 'w"
  os_sleep :: "rat \<Rightarrow> 'w \<Rightarrow> 'w"
  os_makedirs :: "string \<Rightarrow> 'w \<Rightarrow> unit res \<times> 'w"
  os_fopen :: "string \<Rightarrow> file_mode \<Rightarrow> 'w \<Rightarrow> int res \<times> 'w"
  os_fwrite :: "int \<Rightarrow> string \<Rightarrow> 'w \<Rightarrow> unit res \<times> 'w"
  os_fflush :: "int \<Rightarrow> 'w \<Rightarrow> unit res \<times> 'w"
  os_fclose :: "int \<Rightarrow> 'w \<Rightarrow> unit res \<times> 'w"
  os_exists :: "string \<Rightarrow> 'w \<Rightarrow> bool res \<times> 'w"
  os_is_file :: "string \<Rightarrow> 'w \<Rightarrow> bool res \<times> 'w"
  os_is_dir :: "string \<Rightarrow> 'w \<Rightarrow> bool res \<times> 'w"
  os_bopen :: "string \<Rightarrow> 'w \<Rightarrow> int res \<times> 'w"
  os_bread :: "int \<Rightarrow> nat \<Rightarrow> 'w \<Rightarrow> string res \<times> 'w"
  os_bclose :: "int \<Rightarrow> 'w \<Rightarrow> unit res \<times> 'w"
  os_sha256 :: "string \<Rightarrow> 'w \<Rightarrow> string \<times> 'w"
  os_run :: "string list \<Rightarrow> 'w \<Rightarrow> completed_process res \<times> 'w"
  os_read_bytes :: "string \<Rightarrow> 'w \<Rightarrow> string res \<times> 'w"

text \<open>
  The host program's state: the world, the descriptor of the serial link, the
  handle of the open CSV file and the lines printed to standard output and to
  standard error.
\<close>

record 'w host =
  world :: 'w
  link_fd :: "int option"
  csv_file :: "int option"
  out :: "string list"
  err :: "string list"

definition call :: "('w \<Rightarrow> 'a res \<times> 'w) \<Rightarrow> (('w, 'z) host_scheme, 'a) prog" where
  "call m h = (case m (world h) of (r, w) \<Rightarrow> Some (r, h\<lparr>world := w\<rparr>))"

definition call_total :: "('w \<Rightarrow> 'a \<times> 'w) \<Rightarrow> (('w, 'z) host_scheme, 'a) prog" where
  "call_total m h = (case m (world h) of (x, w) \<Rightarrow> Some (Inr x, h\<lparr>world := w\<rparr>))"

definition print_line :: "string \<Rightarrow> (('w, 'z) host_scheme, unit) prog" where
  "print_line l = modify (\<lambda>h. h\<lparr>out := out h @ [l]\<rparr>)"

definition print_err :: "string \<Rightarrow> (('w, 'z) host_scheme, unit) prog" where
  "print_err l = modify (\<lambda>h. h\<lparr>err := err h @ [l]\<rparr>)"

fun print_lines :: "string list \<Rightarrow> (('w, 'z) host_scheme, unit) prog" where
  "print_lines [] = ret ()"
| "print_lines (l # ls) = bind_prog (print_line l) (\<lambda>_. print_lines ls)"

text \<open>
  \<open>time.sleep(x)\<close>: the library refuses a NaN, a negative number and what does not
  fit 63 bits of nanoseconds.
\<close>

definition py_sleep :: "'w os \<Rightarrow> pyfloat \<Rightarrow> (('w, 'z) host_scheme, unit) prog" where
  "py_sleep os x =
     (case x of
        Fin r \<Rightarrow>
          if r * 1000000000 < - (2 ^ 63) \<or> 2 ^ 63 \<le> r * 1000000000 then
            raise OverflowError ''timestamp too large to convert to C PyTime_t''
          else if r < 0 then raise ValueError ''sleep length must be non-negative''
          else modify (\<lambda>h. h\<lparr>world := os_sleep os r (world h)\<rparr>)
      | PInf \<Rightarrow> raise OverflowError ''timestamp too large to convert to C PyTime_t''
      | NInf \<Rightarrow> raise OverflowError ''timestamp too large to convert to C PyTime_t''
      | NaN \<Rightarrow> raise ValueError ''Invalid value NaN (not a number)'')"

section \<open>The serial link\<close>

definition raw_9600 :: "tty_attrs \<Rightarrow> tty_attrs" where
  "raw_9600 a =
     a\<lparr>iflag := {}, oflag := {}, cflag := {CS8, CREAD, CLOCAL}, lflag := {},
       ispeed := B9600, ospeed := B9600, vmin := 0, vtime := 0\<rparr>"

definition serial_open :: "'w os \<Rightarrow> string \<Rightarrow> (('w, 'z) host_scheme, unit) prog" where
  "serial_open os port =
     bind_prog (get_st link_fd) (\<lambda>cur.
     if cur \<noteq> None then raise SerialLinkError ''serial port is already open''
     else
       bind_prog (call (os_open os port)) (\<lambda>fd.
       bind_prog
         (try_except
           (bind_prog (call (os_tcgetattr os fd)) (\<lambda>a.
            call (os_tcsetattr os fd (raw_9600 a))))
           [Exception]
           (\<lambda>e. bind_prog (call (os_close os fd)) (\<lambda>_. lift_res (Inl e))))
         (\<lambda>_. modify (\<lambda>h. h\<lparr>link_fd := Some fd\<rparr>))))"

definition serial_close :: "'w os \<Rightarrow> (('w, 'z) host_scheme, unit) prog" where
  "serial_close os =
     bind_prog (get_st link_fd) (\<lambda>cur.
     case cur of
       None \<Rightarrow> ret ()
     | Some fd \<Rightarrow>
         bind_prog (modify (\<lambda>h. h\<lparr>link_fd := None\<rparr>)) (\<lambda>_.
         call (os_close os fd)))"

definition require_fd :: "(('w, 'z) host_scheme, int) prog" where
  "require_fd =
     bind_prog (get_st link_fd) (\<lambda>cur.
     case cur of
       None \<Rightarrow> raise SerialLinkError ''serial port is not open''
     | Some fd \<Rightarrow> ret fd)"

definition serial_write :: "'w os \<Rightarrow> bytes \<Rightarrow> (('w, 'z) host_scheme, unit) prog" where
  "serial_write os data =
     (if data = [] then ret ()
      else
        bind_prog require_fd (\<lambda>fd.
        bind_prog (call (os_write os fd data)) (\<lambda>written.
        if written \<noteq> length data then
          raise SerialLinkError
            (''partial serial write: wrote '' @ dec (int written) @ '' of ''
               @ dec (int (length data)) @ '' bytes'')
        else call (os_tcdrain os fd))))"

text \<open>\<open>write\<close> on an arbitrary object: anything but bytes is refused before the port is used.\<close>

definition serial_write_obj :: "'w os \<Rightarrow> pyval \<Rightarrow> (('w, 'z) host_scheme, unit) prog" where
  "serial_write_obj os v =
     (case v of
        PyBytes data \<Rightarrow> serial_write os data
      | _ \<Rightarrow> raise SerialLinkError ''serial write data must be bytes'')"

definition timeout_message :: "nat \<Rightarrow> bytes \<Rightarrow> string" where
  "timeout_message sz received =
     ''timed out waiting for '' @ dec (int sz) @ '' bytes (received ''
       @ dec (int (length received)) @ '')''"

text \<open>
  The loop of \<open>read_exact\<close>. It may not end (a descriptor that stays readable and
  yields nothing, under a clock that stands still), so it is a partial function.
\<close>

partial_function (option) read_loop ::
  "'w os \<Rightarrow> int \<Rightarrow> nat \<Rightarrow> rat \<Rightarrow> bytes \<Rightarrow> 'w \<Rightarrow> (bytes res \<times> 'w) option" where
  "read_loop os fd sz deadline received w =
     (if length received < sz then
        (case os_monotonic os w of (now, w1) \<Rightarrow>
          if deadline - now \<le> 0 then
            Some (Inl (Exc SerialTimeoutError (timeout_message sz received)), w1)
          else
            (case os_select os fd (deadline - now) w1 of
               (Inl e, w2) \<Rightarrow> Some (Inl e, w2)
             | (Inr readable, w2) \<Rightarrow>
                 if \<not> readable then
                   Some (Inl (Exc SerialTimeoutError (timeout_message sz received)), w2)
                 else
                   (case os_read os fd (sz - length received) w2 of
                      (Inl e, w3) \<Rightarrow>
                        if catches [BlockingIOError] e then
                          read_loop os fd sz deadline received w3
                        else Some (Inl e, w3)
                    | (Inr chunk, w3) \<Rightarrow>
                        read_loop os fd sz deadline (received @ chunk) w3)))
      else Some (Inr received, w))"

definition read_exact :: "'w os \<Rightarrow> int \<Rightarrow> rat \<Rightarrow> (('w, 'z) host_scheme, bytes) prog" where
  "read_exact os sz timeout_s =
     (if sz < 0 then raise ValueError ''size must be non-negative''
      else if timeout_s < 0 then raise ValueError ''timeout_s must be non-negative''
      else if sz = 0 then ret []
      else
        bind_prog require_fd (\<lambda>fd.
        bind_prog (call_total (os_monotonic os)) (\<lambda>t0.
        (\<lambda>h. case read_loop os fd (nat sz) (t0 + timeout_s) [] (world h) of
               None \<Rightarrow> None
             | Some (r, w) \<Rightarrow> Some (r, h\<lparr>world := w\<rparr>)))))"

definition RX_TIMEOUT_RECOVERY_SETTLE_SECONDS :: rat where
  "RX_TIMEOUT_RECOVERY_SETTLE_SECONDS = 1 / 10 + 14 * 10 / 9600"

definition recover_rx_after_timeout :: "'w os \<Rightarrow> (('w, 'z) host_scheme, unit) prog" where
  "recover_rx_after_timeout os =
     bind_prog require_fd (\<lambda>fd.
     bind_prog (py_sleep os (Fin RX_TIMEOUT_RECOVERY_SETTLE_SECONDS)) (\<lambda>_.
     call (os_tcflush_in os fd)))"

text \<open>
  \<open>with SerialLink(port) as link: body\<close>: a new object with no descriptor, opened on
  entry and closed on every exit.
\<close>

definition with_link ::
  "'w os \<Rightarrow> string \<Rightarrow> (('w, 'z) host_scheme, 'a) prog \<Rightarrow> (('w, 'z) host_scheme, 'a) prog" where
  "with_link os port body =
     bind_prog (modify (\<lambda>h. h\<lparr>link_fd := None\<rparr>)) (\<lambda>_.
     bind_prog (serial_open os port) (\<lambda>_. try_finally body (serial_close os)))"

section \<open>Rules for the calls\<close>

lemma wp_call [simp, wp_rules]:
  "wp (call m) Q E h =
     (case m (world h) of
        (Inl e, w) \<Rightarrow> E e (h\<lparr>world := w\<rparr>)
      | (Inr x, w) \<Rightarrow> Q x (h\<lparr>world := w\<rparr>))"
  by (auto simp: wp_def call_def split: prod.splits sum.splits)

lemma wp_call_total [simp, wp_rules]:
  "wp (call_total m) Q E h = (case m (world h) of (x, w) \<Rightarrow> Q x (h\<lparr>world := w\<rparr>))"
  by (auto simp: wp_def call_total_def split: prod.splits)

lemma wp_print_line [simp, wp_rules]:
  "wp (print_line l) Q E h = Q () (h\<lparr>out := out h @ [l]\<rparr>)"
  by (simp add: print_line_def)

lemma wp_print_err [simp, wp_rules]:
  "wp (print_err l) Q E h = Q () (h\<lparr>err := err h @ [l]\<rparr>)"
  by (simp add: print_err_def)

lemma wp_print_lines [simp, wp_rules]:
  "wp (print_lines ls) Q E h = Q () (h\<lparr>out := out h @ ls\<rparr>)"
  by (induction ls arbitrary: h) simp_all

lemma wp_print_eta [simp]:
  "wp (print_line l) Q E = (\<lambda>h. Q () (h\<lparr>out := out h @ [l]\<rparr>))"
  "wp (print_lines ls) Q E = (\<lambda>h. Q () (h\<lparr>out := out h @ ls\<rparr>))"
  by (rule ext, simp)+

lemma wp_require_fd [simp, wp_rules]:
  "wp require_fd Q E h =
     (case link_fd h of
        None \<Rightarrow> E (Exc SerialLinkError ''serial port is not open'') h
      | Some fd \<Rightarrow> Q fd h)"
  by (simp add: require_fd_def split: option.splits)

lemma wp_py_sleep_Fin [simp, wp_rules]:
  "0 \<le> r \<Longrightarrow> r * 1000000000 < 2 ^ 63 \<Longrightarrow>
     wp (py_sleep os (Fin r)) Q E h = Q () (h\<lparr>world := os_sleep os r (world h)\<rparr>)"
  by (simp add: py_sleep_def)

lemma wp_read_loop [wp_rules]:
  "wp (\<lambda>h. case read_loop os fd n t bs (world h) of
             None \<Rightarrow> None | Some (r, w) \<Rightarrow> Some (r, h\<lparr>world := w\<rparr>)) Q E h =
     (case read_loop os fd n t bs (world h) of
        None \<Rightarrow> True
      | Some (Inl e, w) \<Rightarrow> E e (h\<lparr>world := w\<rparr>)
      | Some (Inr x, w) \<Rightarrow> Q x (h\<lparr>world := w\<rparr>))"
  by (auto simp: wp_def split: option.splits sum.splits prod.splits)

text \<open>The calls change the world and nothing else of the host's state.\<close>

definition local_part ::
  "('w, 'z) host_scheme \<Rightarrow> int option \<times> int option \<times> string list \<times> string list \<times> 'z" where
  "local_part h = (link_fd h, csv_file h, out h, err h, host.more h)"

lemma local_part_world [simp]: "local_part (h\<lparr>world := w\<rparr>) = local_part h"
  by (simp add: local_part_def)

lemma keeps_local_call [keeps_intros]: "keeps local_part (call m)"
  by (auto simp: keeps_def call_def split: prod.splits)

lemma keeps_local_call_total [keeps_intros]: "keeps local_part (call_total m)"
  by (auto simp: keeps_def call_total_def split: prod.splits)

lemma keeps_call:
  "(\<And>w r w'. m w = (r, w') \<Longrightarrow> v w' = v w) \<Longrightarrow> keeps (\<lambda>h. v (world h)) (call m)"
  by (auto simp: keeps_def call_def split: prod.splits)

lemma keeps_call_total:
  "(\<And>w r w'. m w = (r, w') \<Longrightarrow> v w' = v w) \<Longrightarrow> keeps (\<lambda>h. v (world h)) (call_total m)"
  by (auto simp: keeps_def call_total_def split: prod.splits)

lemma rises_call:
  "(\<And>w r w'. m w = (r, w') \<Longrightarrow> f w \<le> f w') \<Longrightarrow> rises (\<lambda>h. f (world h)) (call m)"
  by (auto simp: rises_def call_def split: prod.splits)

lemma rises_call_total:
  "(\<And>w r w'. m w = (r, w') \<Longrightarrow> f w \<le> f w') \<Longrightarrow> rises (\<lambda>h. f (world h)) (call_total m)"
  by (auto simp: rises_def call_total_def split: prod.splits)

lemma keeps_require_fd [keeps_intros]: "keeps f require_fd"
  unfolding require_fd_def by (intro keeps_intros)

lemma keeps_local_read_exact [keeps_intros]: "keeps local_part (read_exact os n t)"
proof -
  have "keeps local_part (\<lambda>h. case read_loop os fd k dl acc (world h) of
      None \<Rightarrow> None | Some (r, w) \<Rightarrow> Some (r, h\<lparr>world := w\<rparr>))" for fd k dl acc
    by (auto simp: keeps_def split: option.splits prod.splits)
  then show ?thesis unfolding read_exact_def by (intro keeps_intros)
qed

lemma keeps_local_serial_write [keeps_intros]: "keeps local_part (serial_write os bs)"
  unfolding serial_write_def by (intro keeps_intros)

lemma keeps_world_print_line [keeps_intros]: "keeps world (print_line l)"
  unfolding print_line_def by (intro keeps_intros) simp

lemma keeps_world_print_lines [keeps_intros]: "keeps world (print_lines ls)"
  by (induction ls) (auto intro: keeps_intros)

lemma keeps_of_world: "keeps world m \<Longrightarrow> keeps (\<lambda>h. v (world h)) m"
  by (auto simp: keeps_def)

lemma returns_print [returns_intros]:
  "returns (print_line l) h" "returns (print_err l) h" "returns (print_lines ls) h"
proof -
  show p: "returns (print_line l) h" "returns (print_err l) h" for l h
    by (simp_all add: print_line_def print_err_def)
  show "returns (print_lines ls) h"
    by (induction ls arbitrary: h) (auto intro!: returns_intros p)
qed

lemma returns_py_sleep [returns_intros]: "returns (py_sleep os x) h"
  unfolding py_sleep_def by (cases x) (auto intro!: returns_intros)

lemma returns_call [simp, returns_intros]: "returns (call m) h" "returns (call_total n) h"
  by (auto simp: returns_def call_def call_total_def split: prod.splits)

lemma returns_require_fd [simp, returns_intros]: "returns require_fd h"
  unfolding require_fd_def by (rule returns_bind) (auto split: option.splits)

lemma returns_serial [returns_intros]:
  "returns (serial_open os p) h" "returns (serial_close os) h" "returns (serial_write os bs) h"
  "returns (recover_rx_after_timeout os) h"
  unfolding serial_open_def serial_close_def serial_write_def recover_rx_after_timeout_def
  by (intro returns_intros)+

lemma returns_with_link [returns_intros]:
  "(\<And>h. returns m h) \<Longrightarrow> returns (with_link os p m) h"
  unfolding with_link_def by (intro returns_intros)

section \<open>What a program prints\<close>

text \<open>\<open>says P m\<close>: every line that \<open>m\<close> prints, on any run, satisfies \<open>P\<close>.\<close>

definition says :: "(string \<Rightarrow> bool) \<Rightarrow> (('w, 'z) host_scheme, 'a) prog \<Rightarrow> bool" where
  "says P m \<longleftrightarrow>
     (\<forall>s r s'. m s = Some (r, s') \<longrightarrow> (\<exists>ls. out s' = out s @ ls \<and> list_all P ls))"

named_theorems says_intros \<open>rules for the printed lines\<close>

lemma saysD: "says P m \<Longrightarrow> m s = Some (r, s') \<Longrightarrow> \<exists>ls. out s' = out s @ ls \<and> list_all P ls"
  by (simp add: says_def)

lemma says_wp:
  "says P m \<Longrightarrow> wp m (\<lambda>_ t. \<exists>ls. out t = out s @ ls \<and> list_all P ls)
     (\<lambda>_ t. \<exists>ls. out t = out s @ ls \<and> list_all P ls) s"
  by (rule wp_I) (auto dest: saysD)

lemma says_keeps: "keeps out m \<Longrightarrow> says P m"
  by (auto simp: says_def dest: keepsD)

lemma says_local: "keeps local_part m \<Longrightarrow> says P m"
  by (rule says_keeps) (auto simp: keeps_def local_part_def)

lemma says_bind [says_intros]:
  assumes "says P m" "\<And>x. says P (f x)" shows "says P (bind_prog m f)"
proof -
  have "\<exists>ls. out s' = out s @ ls \<and> list_all P ls" if "bind_prog m f s = Some (r, s')" for s r s'
    using that assms [THEN saysD]
    by (fastforce simp: bind_prog_def split: option.splits prod.splits sum.splits)
  then show ?thesis by (auto simp: says_def)
qed

lemma says_try_except [says_intros]:
  assumes "says P m" "\<And>e. says P (f e)" shows "says P (try_except m cs f)"
proof -
  have "\<exists>ls. out s' = out s @ ls \<and> list_all P ls" if "try_except m cs f s = Some (r, s')" for s r s'
    using that assms [THEN saysD]
    by (fastforce simp: try_except_def split: option.splits prod.splits sum.splits if_splits)
  then show ?thesis by (auto simp: says_def)
qed

lemma says_try_finally [says_intros]:
  assumes "says P m" "says P c" shows "says P (try_finally m c)"
proof -
  have "\<exists>ls. out s' = out s @ ls \<and> list_all P ls" if "try_finally m c s = Some (r, s')" for s r s'
    using that assms [THEN saysD]
    by (fastforce simp: try_finally_def split: option.splits prod.splits sum.splits)
  then show ?thesis by (auto simp: says_def)
qed

lemma says_when [says_intros]: "(b \<Longrightarrow> says P m) \<Longrightarrow> says P (when_prog b m)"
  by (auto simp: when_prog_def says_def ret_def)

lemma says_if [says_intros]:
  "(b \<Longrightarrow> says P m) \<Longrightarrow> (\<not> b \<Longrightarrow> says P n) \<Longrightarrow> says P (if b then m else n)"
  by simp

lemma says_case_option [says_intros]:
  "(r = None \<Longrightarrow> says P m) \<Longrightarrow> (\<And>x. r = Some x \<Longrightarrow> says P (n x)) \<Longrightarrow>
     says P (case r of None \<Rightarrow> m | Some x \<Rightarrow> n x)"
  by (cases r) auto

lemma says_leaf [says_intros]:
  "says P (ret x)" "says P (raise c msg)" "says P (lift_res r)" "says P (get_st g)"
  "says P (call m)" "says P (call_total n)"
  by (rule says_keeps, auto simp: keeps_def ret_def raise_def lift_res_def get_st_def call_def
        call_total_def split: prod.splits)+

lemma says_modify [says_intros]: "(\<And>s. out (g s) = out s) \<Longrightarrow> says P (modify g)"
  by (intro says_keeps keeps_intros)

lemma says_print_line [says_intros]: "P l \<Longrightarrow> says P (print_line l)"
  by (auto simp: says_def print_line_def modify_def)

lemma says_print_lines [says_intros]: "list_all P ls \<Longrightarrow> says P (print_lines ls)"
  by (induction ls) (auto intro!: says_intros)

lemma says_py_sleep [says_intros]: "says P (py_sleep os x)"
  unfolding py_sleep_def by (cases x) (auto intro!: says_intros)

lemma says_serial_close [says_intros]: "says P (serial_close os)"
  unfolding serial_close_def by (intro says_intros) simp_all

lemma says_serial_open [says_intros]: "says P (serial_open os p)"
  unfolding serial_open_def by (intro says_intros) simp_all

lemma says_with_link [says_intros]: "says P m \<Longrightarrow> says P (with_link os p m)"
  unfolding with_link_def by (intro says_intros) simp_all

section \<open>What the link relies on\<close>

text \<open>
  \<open>rx w\<close> is what the program has read from the port up to now and \<open>tx w\<close> what it
  has written: a read delivers at most the bytes asked for, a write takes a prefix
  of its data, and no other call moves data. All three are documented behaviour of
  \<open>read(2)\<close>, \<open>write(2)\<close> and the rest.
\<close>

fun delivered :: "nat \<Rightarrow> bytes \<Rightarrow> bytes res \<Rightarrow> bool" where
  "delivered n all (Inr bs) \<longleftrightarrow> bs = all \<and> length bs = n"
| "delivered n all (Inl e) \<longleftrightarrow> length all < n"

locale tty =
  fixes os :: "'w os" and rx :: "'w \<Rightarrow> bytes" and tx :: "'w \<Rightarrow> bytes"
  assumes read_ok: "os_read os fd n w = (Inr bs, w') \<Longrightarrow>
        length bs \<le> n \<and> rx w' = rx w @ bs \<and> tx w' = tx w"
    and read_err: "os_read os fd n w = (Inl e, w') \<Longrightarrow> rx w' = rx w \<and> tx w' = tx w"
    and select_io: "os_select os fd t w = (rb, w') \<Longrightarrow> rx w' = rx w \<and> tx w' = tx w"
    and monotonic_io: "os_monotonic os w = (t, w') \<Longrightarrow> rx w' = rx w \<and> tx w' = tx w"
    and write_ok: "os_write os fd bs w = (Inr k, w') \<Longrightarrow>
        k \<le> length bs \<and> tx w' = tx w @ take k bs \<and> rx w' = rx w"
    and write_err: "os_write os fd bs w = (Inl e, w') \<Longrightarrow> rx w' = rx w \<and> tx w' = tx w"
    and drain_io: "os_tcdrain os fd w = (ru, w') \<Longrightarrow> rx w' = rx w \<and> tx w' = tx w"
    and sleep_io: "rx (os_sleep os d w) = rx w \<and> tx (os_sleep os d w) = tx w"
    and flush_io: "os_tcflush_in os fd w = (ru, w') \<Longrightarrow> rx w' = rx w \<and> tx w' = tx w"
begin

lemma read_loop_spec:
  assumes "read_loop os fd n dl acc w = Some (r, w')" "length acc \<le> n"
  shows "tx w' = tx w \<and> (\<exists>cs. rx w' = rx w @ cs \<and> delivered n (acc @ cs) r)"
proof -
  let ?P = "\<lambda>acc w x. length acc \<le> n \<longrightarrow> tx (snd x) = tx w \<and> (\<exists>cs. rx (snd x) = rx w @ cs \<and> delivered n (acc @ cs) (fst x))"
  have "?P acc w (r, w')"
  proof (rule read_loop.raw_induct
      [where P = "\<lambda>os' fd n' dl acc w x. os' = os \<longrightarrow> n' = n \<longrightarrow> ?P acc w x",
        OF _ assms(1), THEN mp, THEN mp])
    fix rec os' fd n' dl acc w x
    assume IH: "\<And>os' fd n' dl acc w x. rec os' fd n' dl acc w = Some x \<Longrightarrow>
        os' = os \<longrightarrow> n' = n \<longrightarrow> ?P acc w x"
      and eq: "(if length acc < n' then
        (case os_monotonic os' w of (now, w1) \<Rightarrow>
          if dl - now \<le> 0 then
            Some (Inl (Exc SerialTimeoutError (timeout_message n' acc)), w1)
          else
            (case os_select os' fd (dl - now) w1 of
               (Inl e, w2) \<Rightarrow> Some (Inl e, w2)
             | (Inr readable, w2) \<Rightarrow>
                 if \<not> readable then
                   Some (Inl (Exc SerialTimeoutError (timeout_message n' acc)), w2)
                 else
                   (case os_read os' fd (n' - length acc) w2 of
                      (Inl e, w3) \<Rightarrow>
                        if catches [BlockingIOError] e then rec os' fd n' dl acc w3
                        else Some (Inl e, w3)
                    | (Inr chunk, w3) \<Rightarrow> rec os' fd n' dl (acc @ chunk) w3)))
      else Some (Inr acc, w)) = Some x"
    show "os' = os \<longrightarrow> n' = n \<longrightarrow> ?P acc w x"
    proof (intro impI)
      assume o: "os' = os" "n' = n" and l: "length acc \<le> n"
      obtain now w1 where m: "os_monotonic os w = (now, w1)" by fastforce
      obtain sr w2 where s: "os_select os fd (dl - now) w1 = (sr, w2)" by fastforce
      obtain rr w3 where rd: "os_read os fd (n - length acc) w2 = (rr, w3)" by fastforce
      note io = monotonic_io [OF m] select_io [OF s]
      show "tx (snd x) = tx w \<and> (\<exists>cs. rx (snd x) = rx w @ cs \<and> delivered n (acc @ cs) (fst x))"
      proof (cases "length acc < n \<and> 0 < dl - now \<and> sr = Inr True")
        case False
        with eq o l m s io show ?thesis
          by (auto split: if_splits sum.splits intro: exI [of _ "[]"])
      next
        case more: True
        show ?thesis
        proof (cases rr)
          case (Inl e)
          with rd read_err have r: "rx w3 = rx w2" "tx w3 = tx w2" by auto
          show ?thesis
          proof (cases "catches [BlockingIOError] e")
            case True
            with eq o m s rd more Inl have "rec os fd n dl acc w3 = Some x" by simp
            from IH [OF this] l r io show ?thesis by simp
          next
            case False
            with eq o m s rd more Inl r io show ?thesis by (auto intro: exI [of _ "[]"])
          qed
        next
          case (Inr chunk)
          with rd read_ok have r: "length chunk \<le> n - length acc" "rx w3 = rx w2 @ chunk"
            "tx w3 = tx w2" by auto
          from eq o m s rd more Inr have "rec os fd n dl (acc @ chunk) w3 = Some x" by simp
          from IH [OF this] l r io obtain cs where
            "tx (snd x) = tx w" "rx (snd x) = rx w @ chunk @ cs"
            "delivered n (acc @ chunk @ cs) (fst x)"
            by auto
          then show ?thesis by (auto intro!: exI [of _ "chunk @ cs"])
        qed
      qed
    qed
  qed (use assms in simp_all)
  then show ?thesis using assms(2) by simp
qed

text \<open>
  \<open>read_exact\<close>: on success exactly \<open>n\<close> bytes, the next ones of the stream, none lost,
  duplicated or reordered; on an error fewer than \<open>n\<close> bytes have been consumed.
\<close>

lemma wp_read_exact:
  assumes "0 \<le> n"
    and "\<And>bs w'. length bs = nat n \<Longrightarrow> rx w' = rx (world h) @ bs \<Longrightarrow>
           tx w' = tx (world h) \<Longrightarrow> Q bs (h\<lparr>world := w'\<rparr>)"
    and "\<And>e cs w'. length cs < nat n \<or> cs = [] \<Longrightarrow> rx w' = rx (world h) @ cs \<Longrightarrow>
           tx w' = tx (world h) \<Longrightarrow> E e (h\<lparr>world := w'\<rparr>)"
  shows "wp (read_exact os n t) Q E h"
proof -
  have self: "E e h" for e using assms(3) [of "[]" "world h" e] by simp
  obtain t0 w1 where m: "os_monotonic os (world h) = (t0, w1)" by fastforce
  note io = monotonic_io [OF m]
  show ?thesis
  proof (cases "0 < n \<and> 0 \<le> t \<and> link_fd h \<noteq> None")
    case False
    then show ?thesis
      using assms(1) assms(2) [of "[]" "world h"] self
      by (auto simp: read_exact_def split: option.splits)
  next
    case True
    then obtain fd where fd: "link_fd h = Some fd" by auto
    have "case read_loop os fd (nat n) (t0 + t) [] w1 of
        None \<Rightarrow> True
      | Some (Inl e, w) \<Rightarrow> E e (h\<lparr>world := w\<rparr>)
      | Some (Inr x, w) \<Rightarrow> Q x (h\<lparr>world := w\<rparr>)"
    proof (cases "read_loop os fd (nat n) (t0 + t) [] w1")
      case (Some p)
      then obtain r w where p: "read_loop os fd (nat n) (t0 + t) [] w1 = Some (r, w)"
        by (cases p) auto
      from read_loop_spec [OF p] obtain cs where
        "tx w = tx w1" "rx w = rx w1 @ cs"
        "delivered (nat n) cs r"
        by auto
      with io p show ?thesis
        by (cases r) (use assms(2) [of _ w] assms(3) [of cs w] in auto)
    qed simp
    with True fd m show ?thesis
      by (simp add: read_exact_def wp_read_loop split: option.splits prod.splits sum.splits)
  qed
qed

text \<open>\<open>write\<close>: all bytes are sent in order, or an exception says that they were not.\<close>

lemma wp_serial_write:
  assumes "\<And>w'. rx w' = rx (world h) \<Longrightarrow> tx w' = tx (world h) @ data \<Longrightarrow> Q () (h\<lparr>world := w'\<rparr>)"
    and "\<And>e k w'. rx w' = rx (world h) \<Longrightarrow> tx w' = tx (world h) @ take k data \<Longrightarrow>
           E e (h\<lparr>world := w'\<rparr>)"
  shows "wp (serial_write os data) Q E h"
proof (cases "data = [] \<or> link_fd h = None")
  case True
  then show ?thesis
    using assms(1) [of "world h"] assms(2) [of "world h" 0] by (auto simp: serial_write_def)
next
  case False
  then obtain fd where fd: "link_fd h = Some fd" by auto
  obtain wr w1 where wr: "os_write os fd data (world h) = (wr, w1)" by fastforce
  obtain dr w2 where dr: "os_tcdrain os fd w1 = (dr, w2)" by fastforce
  show ?thesis
  proof (cases wr)
    case (Inl e)
    with wr write_err have "rx w1 = rx (world h)" "tx w1 = tx (world h)" by auto
    with False fd wr Inl assms(2) [of w1 0] show ?thesis by (simp add: serial_write_def)
  next
    case (Inr k)
    with wr write_ok have w: "k \<le> length data" "tx w1 = tx (world h) @ take k data"
      "rx w1 = rx (world h)" by auto
    have d: "rx w2 = rx w1" "tx w2 = tx w1" using drain_io [OF dr] by auto
    show ?thesis
      using False fd wr Inr dr w d assms(1) [of w2] assms(2) [of w1 k] assms(2) [of w2 k]
      by (auto simp: serial_write_def split: sum.splits)
  qed
qed

end

text \<open>
  A clock: \<open>time.monotonic\<close> reads it, no call sets it back, and \<open>select\<close> says "not
  readable" only after the whole interval. The exceptions of \<open>select\<close> and \<open>read\<close> are
  the system's, not \<open>SerialTimeoutError\<close>.
\<close>

locale tty_clock = tty +
  fixes clock :: "'w \<Rightarrow> rat"
  assumes monotonic_clock: "os_monotonic os w = (t, w') \<Longrightarrow> t = clock w' \<and> clock w \<le> clock w'"
    and select_clock: "os_select os fd t w = (rb, w') \<Longrightarrow> clock w \<le> clock w'"
    and select_waits: "os_select os fd t w = (Inr False, w') \<Longrightarrow> clock w + t \<le> clock w'"
    and read_clock: "os_read os fd n w = (rc, w') \<Longrightarrow> clock w \<le> clock w'"
    and select_exc: "os_select os fd t w = (Inl e, w') \<Longrightarrow> exc_class e \<noteq> SerialTimeoutError"
    and read_exc: "os_read os fd n w = (Inl e, w') \<Longrightarrow> exc_class e \<noteq> SerialTimeoutError"
begin

text \<open>A time-out is raised only when the deadline has passed.\<close>

lemma read_loop_timeout:
  assumes "read_loop os fd n dl acc w = Some (Inl e, w')" "exc_class e = SerialTimeoutError"
  shows "dl \<le> clock w'"
proof -
  let ?P = "\<lambda>x :: bytes res \<times> 'w. \<forall>e. fst x = Inl e \<longrightarrow> exc_class e = SerialTimeoutError \<longrightarrow> dl \<le> clock (snd x)"
  have "?P (Inl e, w')"
  proof (rule read_loop.raw_induct
      [where P = "\<lambda>os' fd n dl' acc w x. os' = os \<longrightarrow> dl' = dl \<longrightarrow> ?P x",
        OF _ assms(1), THEN mp, THEN mp])
    fix rec os' fd n dl' acc w x
    assume IH: "\<And>os' fd n dl' acc w x. rec os' fd n dl' acc w = Some x \<Longrightarrow>
        os' = os \<longrightarrow> dl' = dl \<longrightarrow> ?P x"
      and eq: "(if length acc < n then
        (case os_monotonic os' w of (now, w1) \<Rightarrow>
          if dl' - now \<le> 0 then
            Some (Inl (Exc SerialTimeoutError (timeout_message n acc)), w1)
          else
            (case os_select os' fd (dl' - now) w1 of
               (Inl e, w2) \<Rightarrow> Some (Inl e, w2)
             | (Inr readable, w2) \<Rightarrow>
                 if \<not> readable then
                   Some (Inl (Exc SerialTimeoutError (timeout_message n acc)), w2)
                 else
                   (case os_read os' fd (n - length acc) w2 of
                      (Inl e, w3) \<Rightarrow>
                        if catches [BlockingIOError] e then rec os' fd n dl' acc w3
                        else Some (Inl e, w3)
                    | (Inr chunk, w3) \<Rightarrow> rec os' fd n dl' (acc @ chunk) w3)))
      else Some (Inr acc, w)) = Some x"
    show "os' = os \<longrightarrow> dl' = dl \<longrightarrow> ?P x"
    proof (intro impI)
      assume o: "os' = os" "dl' = dl"
      obtain now w1 where m: "os_monotonic os w = (now, w1)" by fastforce
      obtain sr w2 where s: "os_select os fd (dl - now) w1 = (sr, w2)" by fastforce
      obtain rr w3 where rd: "os_read os fd (n - length acc) w2 = (rr, w3)" by fastforce
      have now: "now = clock w1" using monotonic_clock [OF m] by simp
      show "?P x"
      proof (cases "length acc < n \<and> 0 < dl - now \<and> sr = Inr True")
        case False
        with eq o m s now select_waits [of fd "dl - now" w1 w2] select_exc [of fd "dl - now" w1]
        show ?thesis by (auto split: if_splits sum.splits)
      next
        case True
        with eq o m s rd have "(\<exists>acc'. rec os fd n dl acc' w3 = Some x) \<or>
            (\<exists>e. rr = Inl e \<and> x = (Inl e, w3))"
          by (cases rr) (auto split: if_splits)
        then show ?thesis
        proof (elim disjE exE conjE)
          fix acc' assume "rec os fd n dl acc' w3 = Some x"
          from IH [OF this] show ?thesis by simp
        next
          fix e assume "rr = Inl e" "x = (Inl e, w3)"
          with read_exc [of fd "n - length acc" w2 e w3] rd show ?thesis by simp
        qed
      qed
    qed
  qed (use assms in simp_all)
  then show ?thesis using assms(2) by simp
qed

end

text \<open>
  A clock that advances by at least \<open>tick\<close> from one reading to the next.
\<close>

locale tty_progress = tty_clock +
  fixes tick :: rat
  assumes tick_pos: "0 < tick"
    and monotonic_ticks: "os_monotonic os w = (t, w') \<Longrightarrow> clock w + tick \<le> clock w'"
begin

lemma read_loop_returns:
  "dl - clock w \<le> of_nat k * tick \<Longrightarrow> read_loop os fd n dl acc w \<noteq> None"
proof (induction k arbitrary: acc w)
  case 0
  obtain now w1 where m: "os_monotonic os w = (now, w1)" by fastforce
  have "now = clock w1" "clock w + tick \<le> clock w1"
    using monotonic_clock [OF m] monotonic_ticks [OF m] by auto
  then have "dl - now \<le> 0" using 0 tick_pos by simp
  with m show ?case by (subst read_loop.simps) simp
next
  case (Suc k)
  obtain now w1 where m: "os_monotonic os w = (now, w1)" by fastforce
  obtain sr w2 where s: "os_select os fd (dl - now) w1 = (sr, w2)" by fastforce
  obtain rr w3 where rd: "os_read os fd (n - length acc) w2 = (rr, w3)" by fastforce
  have "clock w + tick \<le> clock w1" "clock w1 \<le> clock w2" "clock w2 \<le> clock w3"
    using monotonic_ticks [OF m] select_clock [OF s] read_clock [OF rd] by auto
  then have "dl - clock w3 \<le> of_nat k * tick"
    using Suc.prems by (simp add: algebra_simps)
  then have "read_loop os fd n dl acc' w3 \<noteq> None" for acc' by (rule Suc.IH)
  with m s rd show ?case
    by (subst read_loop.simps) (auto split: sum.splits)
qed

lemma ex_ticks: "\<exists>k. d \<le> of_nat k * tick"
  using tick_pos by (metis ex_less_of_nat_mult less_imp_le)

lemma returns_read_exact [returns_intros]: "returns (read_exact os n t) h"
proof -
  have "read_loop os fd m dl acc w \<noteq> None" for fd m dl acc w
    using ex_ticks [of "dl - clock w"] read_loop_returns by blast
  then have l: "returns (\<lambda>h. case read_loop os fd m dl [] (world h) of
      None \<Rightarrow> None | Some (r, w) \<Rightarrow> Some (r, h\<lparr>world := w\<rparr>)) h'" for fd m dl h'
    by (auto simp: returns_def split: option.splits)
  show ?thesis
    unfolding read_exact_def by (auto intro!: returns_bind l)
qed

end

section \<open>Descriptors\<close>

text \<open>
  \<open>open_fds w\<close> is the set of open descriptors. \<open>open\<close> returns a new one, \<open>close\<close>
  releases its argument, the terminal calls keep the set and raise only ordinary
  exceptions.
\<close>

locale fd_table =
  fixes os :: "'w os" and open_fds :: "'w \<Rightarrow> int set"
  assumes open_ok: "os_open os p w = (Inr fd, w') \<Longrightarrow>
        fd \<notin> open_fds w \<and> open_fds w' = insert fd (open_fds w)"
    and open_err: "os_open os p w = (Inl e, w') \<Longrightarrow> open_fds w' = open_fds w"
    and close_fds: "os_close os fd w = (ru, w') \<Longrightarrow> open_fds w' = open_fds w - {fd}"
    and getattr_fds: "os_tcgetattr os fd w = (ra, w') \<Longrightarrow> open_fds w' = open_fds w"
    and setattr_fds: "os_tcsetattr os fd a w = (ru, w') \<Longrightarrow> open_fds w' = open_fds w"
    and getattr_exc: "os_tcgetattr os fd w = (Inl e, w') \<Longrightarrow> catches [Exception] e"
    and setattr_exc: "os_tcsetattr os fd a w = (Inl e, w') \<Longrightarrow> catches [Exception] e"
begin

text \<open>A failed \<open>open\<close> leaves no descriptor behind; a successful one leaves exactly its own.\<close>

lemma wp_serial_open:
  assumes "link_fd h = None"
    and "\<And>fd w'. fd \<notin> open_fds (world h) \<Longrightarrow> open_fds w' = insert fd (open_fds (world h)) \<Longrightarrow>
           Q () (h\<lparr>world := w', link_fd := Some fd\<rparr>)"
    and "\<And>e w'. open_fds w' = open_fds (world h) \<Longrightarrow> E e (h\<lparr>world := w'\<rparr>)"
  shows "wp (serial_open os p) Q E h"
proof -
  obtain ro w1 where o: "os_open os p (world h) = (ro, w1)" by fastforce
  show ?thesis
  proof (cases ro)
    case (Inl e)
    with assms(1,3) o open_err show ?thesis by (simp add: serial_open_def)
  next
    case (Inr fd)
    with o open_ok have f: "fd \<notin> open_fds (world h)" "open_fds w1 = insert fd (open_fds (world h))"
      by auto
    obtain ra w2 where g: "os_tcgetattr os fd w1 = (ra, w2)" by fastforce
    have g': "open_fds w2 = open_fds w1" by (rule getattr_fds [OF g])
    have closed: "E e (h\<lparr>world := w4\<rparr>)" if "os_close os fd w3 = (rc, w4)" "open_fds w3 = open_fds w1"
      for e rc w3 w4 using assms(3) close_fds [OF that(1)] f that(2) by simp
    show ?thesis
    proof (cases ra)
      case (Inl e)
      with assms(1) o Inr g g' closed getattr_exc [of fd w1 e w2] show ?thesis
        by (simp add: serial_open_def split: prod.splits sum.splits)
    next
      case (Inr a)
      obtain rs w3 where s: "os_tcsetattr os fd (raw_9600 a) w2 = (rs, w3)" by fastforce
      have s': "open_fds w3 = open_fds w1" using setattr_fds [OF s] g' by simp
      show ?thesis
        using assms(1) assms(2) [of fd w3] o \<open>ro = Inr fd\<close> g Inr s s' f closed
          setattr_exc [of fd "raw_9600 a" w2 _ w3]
        by (cases rs) (simp_all add: serial_open_def split: prod.splits sum.splits)
    qed
  qed
qed

lemma wp_serial_close:
  assumes "\<And>w'. open_fds w' = open_fds (world h) - (case link_fd h of None \<Rightarrow> {} | Some fd \<Rightarrow> {fd}) \<Longrightarrow>
      Q () (h\<lparr>link_fd := None, world := w'\<rparr>) \<and> (\<forall>e. E e (h\<lparr>link_fd := None, world := w'\<rparr>))"
  shows "wp (serial_close os) Q E h"
proof (cases "link_fd h")
  case None
  then have "h\<lparr>link_fd := None\<rparr> = h" by (cases h) simp
  with None assms [of "world h"] show ?thesis by (simp add: serial_close_def)
next
  case (Some fd)
  obtain rc w where "os_close os fd (world h) = (rc, w)" by fastforce
  with Some assms [of w] close_fds show ?thesis
    by (simp add: serial_close_def split: sum.splits)
qed

text \<open>
  The \<open>with\<close> block closes what it opened on every exit, whatever its body does, as
  long as the body keeps the descriptors and the link.
\<close>

lemma wp_with_link_fds:
  assumes "\<And>g. link_fd g \<noteq> None \<Longrightarrow>
      wp body (\<lambda>_ g'. open_fds (world g') = open_fds (world g) \<and> link_fd g' = link_fd g)
        (\<lambda>_ g'. open_fds (world g') = open_fds (world g) \<and> link_fd g' = link_fd g) g"
  shows "wp (with_link os p body)
     (\<lambda>_ h'. open_fds (world h') = open_fds (world h) \<and> link_fd h' = None)
     (\<lambda>_ h'. open_fds (world h') = open_fds (world h) \<and> link_fd h' = None) h"
  unfolding with_link_def wp_bind wp_modify wp_try_finally
proof (rule wp_serial_open, goal_cases)
  case (2 fd w')
  let ?g = "h\<lparr>link_fd := None, world := w', link_fd := Some fd\<rparr>"
  have "wp body (\<lambda>_ g'. open_fds (world g') = open_fds w' \<and> link_fd g' = Some fd)
      (\<lambda>_ g'. open_fds (world g') = open_fds w' \<and> link_fd g' = Some fd) ?g"
    using assms [of ?g] by simp
  then show ?case
    by (rule wp_mono) (rule wp_serial_close; use 2 in auto)+
qed simp_all

end

text \<open>For any operating system and any body, no descriptor is left in the object.\<close>

lemma wp_serial_close_link:
  "wp (serial_close os) (\<lambda>_ h'. link_fd h' = None) (\<lambda>_ h'. link_fd h' = None) h"
  by (simp add: serial_close_def split: option.splits prod.splits sum.splits)

lemma wp_serial_open_failed:
  "link_fd h = None \<Longrightarrow> wp (serial_open os p) (\<lambda>_ _. True) (\<lambda>_ h'. link_fd h' = None) h"
  by (auto simp: serial_open_def split: prod.splits sum.splits)

lemma wp_with_link_closed:
  "wp (with_link os p body) (\<lambda>_ h'. link_fd h' = None) (\<lambda>_ h'. link_fd h' = None) h"
proof -
  have c: "wp (serial_close os) (\<lambda>_ h'. link_fd h' = None) (\<lambda>_ h'. link_fd h' = None) g" for g
    by (rule wp_serial_close_link)
  have b: "wp (try_finally body (serial_close os))
      (\<lambda>_ h'. link_fd h' = None) (\<lambda>_ h'. link_fd h' = None) g" for g
    unfolding wp_try_finally by (rule wp_mono [OF wp_True]) (simp_all add: c)
  show ?thesis
    unfolding with_link_def wp_bind wp_modify
    by (rule wp_mono [OF wp_serial_open_failed]) (rule b | simp)+
qed

text \<open>What every call of the loop does, the loop does.\<close>

lemma read_loop_rel:
  assumes ret: "read_loop os fd n dl acc w = Some (r, w')"
    and refl: "\<And>w. R w w" and trans: "\<And>w1 w2 w3. R w1 w2 \<Longrightarrow> R w2 w3 \<Longrightarrow> R w1 w3"
    and monotonic: "\<And>w x w'. os_monotonic os w = (x, w') \<Longrightarrow> R w w'"
    and select: "\<And>fd t w x w'. os_select os fd t w = (x, w') \<Longrightarrow> R w w'"
    and read: "\<And>fd n w x w'. os_read os fd n w = (x, w') \<Longrightarrow> R w w'"
  shows "R w w'"
proof -
  have "R w (snd (r, w'))"
  proof (rule read_loop.raw_induct
      [where P = "\<lambda>os' fd n dl acc w x. os' = os \<longrightarrow> R w (snd x)", OF _ ret, THEN mp])
    fix rec os' fd n dl acc w x
    assume IH: "\<And>os' fd n dl acc w x. rec os' fd n dl acc w = Some x \<Longrightarrow>
        os' = os \<longrightarrow> R w (snd x)"
      and eq: "(if length acc < n then
        (case os_monotonic os' w of (now, w1) \<Rightarrow>
          if dl - now \<le> 0 then
            Some (Inl (Exc SerialTimeoutError (timeout_message n acc)), w1)
          else
            (case os_select os' fd (dl - now) w1 of
               (Inl e, w2) \<Rightarrow> Some (Inl e, w2)
             | (Inr readable, w2) \<Rightarrow>
                 if \<not> readable then
                   Some (Inl (Exc SerialTimeoutError (timeout_message n acc)), w2)
                 else
                   (case os_read os' fd (n - length acc) w2 of
                      (Inl e, w3) \<Rightarrow>
                        if catches [BlockingIOError] e then rec os' fd n dl acc w3
                        else Some (Inl e, w3)
                    | (Inr chunk, w3) \<Rightarrow> rec os' fd n dl (acc @ chunk) w3)))
      else Some (Inr acc, w)) = Some x"
    show "os' = os \<longrightarrow> R w (snd x)"
    proof
      assume o: "os' = os"
      obtain now w1 where m: "os_monotonic os w = (now, w1)" by fastforce
      obtain sr w2 where s: "os_select os fd (dl - now) w1 = (sr, w2)" by fastforce
      obtain rr w3 where rd: "os_read os fd (n - length acc) w2 = (rr, w3)" by fastforce
      have vs: "R w w" "R w w1" "R w w2" "R w w3"
        using refl monotonic [OF m] trans [OF monotonic [OF m] select [OF s]]
          trans [OF trans [OF monotonic [OF m] select [OF s]] read [OF rd]] by simp_all
      show "R w (snd x)"
      proof (cases "length acc < n \<and> 0 < dl - now \<and> sr = Inr True")
        case False
        with eq o m s vs show ?thesis by (auto split: if_splits sum.splits)
      next
        case True
        with eq o m s rd have "(\<exists>acc'. rec os fd n dl acc' w3 = Some x) \<or>
            (\<exists>e. rr = Inl e \<and> x = (Inl e, w3))"
          by (cases rr) (auto split: if_splits)
        then show ?thesis
        proof (elim disjE exE conjE)
          fix acc' assume "rec os fd n dl acc' w3 = Some x"
          from IH [OF this] have "R w3 (snd x)" by simp
          with vs(4) show ?thesis by (rule trans)
        qed (use vs in simp)
      qed
    qed
  qed simp
  then show ?thesis by simp
qed

section \<open>What the serial and clock calls leave alone\<close>

text \<open>
  \<open>v w\<close> is a part of the world, such as the table of descriptors, that no call on an
  open port touches.
\<close>

locale port_frame =
  fixes os :: "'w os" and v :: "'w \<Rightarrow> 'f"
  assumes v_drain: "os_tcdrain os fd w = (r2, w') \<Longrightarrow> v w' = v w"
    and v_flush: "os_tcflush_in os fd w = (r2, w') \<Longrightarrow> v w' = v w"
    and v_write: "os_write os fd bs w = (r4, w') \<Longrightarrow> v w' = v w"
    and v_read: "os_read os fd n w = (r5, w') \<Longrightarrow> v w' = v w"
    and v_select: "os_select os fd t w = (r6, w') \<Longrightarrow> v w' = v w"
    and v_monotonic: "os_monotonic os w = (x, w') \<Longrightarrow> v w' = v w"
    and v_now: "os_now os w = (y, w') \<Longrightarrow> v w' = v w"
    and v_sleep: "v (os_sleep os d w) = v w"
begin

lemma v_read_loop: "read_loop os fd n dl acc w = Some (r, w') \<Longrightarrow> v w' = v w"
  by (erule read_loop_rel) (simp_all add: v_monotonic v_select v_read)

lemma v_calls [keeps_intros]:
  "keeps (\<lambda>h. v (world h)) (call (os_tcdrain os fd))"
  "keeps (\<lambda>h. v (world h)) (call (os_tcflush_in os fd))"
  "keeps (\<lambda>h. v (world h)) (call (os_write os fd bs))"
  "keeps (\<lambda>h. v (world h)) (call_total (os_monotonic os))"
  "keeps (\<lambda>h. v (world h)) (call_total (os_now os))"
  using v_drain v_flush v_write v_monotonic v_now
  by (auto intro!: keeps_call keeps_call_total)

lemma v_py_sleep [keeps_intros]: "keeps (\<lambda>h. v (world h)) (py_sleep os x)"
  unfolding py_sleep_def
  by (cases x) (auto intro!: keeps_intros simp: v_sleep)

lemma v_link_upd [keeps_intros]:
  "keeps (\<lambda>h. v (world h)) (modify (\<lambda>h. h\<lparr>link_fd := x\<rparr>))"
  by (intro keeps_intros) simp

lemma v_read_exact [keeps_intros]: "keeps (\<lambda>h. v (world h)) (read_exact os n t)"
proof -
  have "keeps (\<lambda>h. v (world h)) (\<lambda>h. case read_loop os fd k dl acc (world h) of
      None \<Rightarrow> None | Some (r, w) \<Rightarrow> Some (r, h\<lparr>world := w\<rparr>))" for fd k dl acc
    by (auto simp: keeps_def v_read_loop split: option.splits prod.splits)
  then show ?thesis unfolding read_exact_def by (intro keeps_intros)
qed

lemma v_serial_write [keeps_intros]: "keeps (\<lambda>h. v (world h)) (serial_write os bs)"
  unfolding serial_write_def by (intro keeps_intros)

lemma v_recover [keeps_intros]: "keeps (\<lambda>h. v (world h)) (recover_rx_after_timeout os)"
  unfolding recover_rx_after_timeout_def by (intro keeps_intros)

end

text \<open>A part, such as the file system, that opening and closing the port leave alone too.\<close>

locale io_frame = port_frame +
  assumes v_open: "os_open os p w = (r1, w') \<Longrightarrow> v w' = v w"
    and v_close: "os_close os fd w = (r2, w') \<Longrightarrow> v w' = v w"
    and v_getattr: "os_tcgetattr os fd w = (r3, w') \<Longrightarrow> v w' = v w"
    and v_setattr: "os_tcsetattr os fd a w = (r2, w') \<Longrightarrow> v w' = v w"
begin

lemma v_opens [keeps_intros]:
  "keeps (\<lambda>h. v (world h)) (call (os_open os p))"
  "keeps (\<lambda>h. v (world h)) (call (os_close os fd))"
  "keeps (\<lambda>h. v (world h)) (call (os_tcgetattr os fd))"
  "keeps (\<lambda>h. v (world h)) (call (os_tcsetattr os fd a))"
  using v_open v_close v_getattr v_setattr by (auto intro!: keeps_call)

lemma v_serial_open [keeps_intros]: "keeps (\<lambda>h. v (world h)) (serial_open os p)"
  unfolding serial_open_def by (intro keeps_intros)

lemma v_serial_close [keeps_intros]: "keeps (\<lambda>h. v (world h)) (serial_close os)"
  unfolding serial_close_def by (intro keeps_intros)

end

end
