(* ===== verification/Csv_Log.thy ===== *)
theory Csv_Log
  imports Serial_Link
begin

text \<open>
  The CSV side of \<open>supervisor/monitoring.py\<close> and \<open>supervisor/fault_injection.py\<close>:
  POSIX paths as \<open>pathlib\<close> normalises them, the text that \<open>csv.DictWriter\<close> makes of a
  row, and the logger objects, whose two classes differ in their columns and messages
  only. \<open>_file\<close> and \<open>_writer\<close> are set and cleared together: the field \<open>csv_file\<close>.
\<close>

section \<open>Paths\<close>

fun split_on :: "char \<Rightarrow> string \<Rightarrow> string list" where
  "split_on d [] = [[]]"
| "split_on d (c # cs) =
     (if c = d then [] # split_on d cs
      else case split_on d cs of [] \<Rightarrow> [[c]] | p # ps \<Rightarrow> (c # p) # ps)"

definition path_root :: "string \<Rightarrow> string" where
  "path_root p =
     (if take 2 p = ''//'' \<and> take 3 p \<noteq> ''///'' then ''//''
      else if take 1 p = ''/'' then ''/'' else '''')"

definition path_parts :: "string \<Rightarrow> string list" where
  "path_parts p = filter (\<lambda>s. s \<noteq> [] \<and> s \<noteq> ''.'') (split_on CHR ''/'' p)"

fun join_path :: "string list \<Rightarrow> string" where
  "join_path [] = []"
| "join_path [p] = p"
| "join_path (p # ps) = p @ ''/'' @ join_path ps"

definition path_text :: "string \<Rightarrow> string list \<Rightarrow> string" where
  "path_text r ps = (if r = [] \<and> ps = [] then ''.'' else r @ join_path ps)"

text \<open>\<open>str(Path(p))\<close> and \<open>str(Path(p).parent)\<close>.\<close>

definition path_str :: "string \<Rightarrow> string" where
  "path_str p = path_text (path_root p) (path_parts p)"

definition path_parent :: "string \<Rightarrow> string" where
  "path_parent p = path_text (path_root p) (butlast (path_parts p))"

section \<open>Rows\<close>

definition csv_needs_quotes :: "string \<Rightarrow> bool" where
  "csv_needs_quotes f \<longleftrightarrow>
     (\<exists>c \<in> set f. c = CHR '','' \<or> c = CHR 0x22 \<or> c = CHR 0x0A \<or> c = CHR 0x0D)"

definition csv_escape :: "string \<Rightarrow> string" where
  "csv_escape f = concat (map (\<lambda>c. if c = CHR 0x22 then [CHR 0x22, CHR 0x22] else [c]) f)"

definition csv_field :: "string \<Rightarrow> string" where
  "csv_field f =
     (if csv_needs_quotes f then [CHR 0x22] @ csv_escape f @ [CHR 0x22] else f)"

fun csv_join :: "string list \<Rightarrow> string" where
  "csv_join [] = []"
| "csv_join [f] = csv_field f"
| "csv_join (f # fs) = csv_field f @ '','' @ csv_join fs"

text \<open>
  \<open>writer.writerow\<close> of the \<open>excel\<close> dialect with \<open>\\n\<close> as the line terminator; a
  single empty field is quoted.
\<close>

definition csv_row :: "string list \<Rightarrow> string" where
  "csv_row fs = (if fs = [[]] then [CHR 0x22, CHR 0x22] else csv_join fs) @ nl"

text \<open>A reader of such files, in the usual four states.\<close>

datatype csv_state = FieldStart | InPlain | InQuotes | QuoteInQuotes

type_synonym csv_reader = "csv_state \<times> string \<times> string list \<times> string list list"

fun csv_step :: "csv_reader \<Rightarrow> char \<Rightarrow> csv_reader" where
  "csv_step (st, f, r, rs) c =
     (if st = InQuotes then
        if c = CHR 0x22 then (QuoteInQuotes, f, r, rs) else (InQuotes, f @ [c], r, rs)
      else if c = CHR 0x22 \<and> st = FieldStart then (InQuotes, f, r, rs)
      else if c = CHR 0x22 \<and> st = QuoteInQuotes then (InQuotes, f @ [c], r, rs)
      else if c = CHR '','' then (FieldStart, [], r @ [f], rs)
      else if c = CHR 0x0A then (FieldStart, [], [], rs @ [r @ [f]])
      else (InPlain, f @ [c], r, rs))"

definition csv_read :: "string \<Rightarrow> string list list" where
  "csv_read t = (case foldl csv_step (FieldStart, [], [], []) t of (_, _, _, rs) \<Rightarrow> rs)"

lemma csv_read_escape:
  "foldl csv_step (InQuotes, g, r, rs) (csv_escape f) = (InQuotes, g @ f, r, rs)"
  by (induction f arbitrary: g) (simp_all add: csv_escape_def)

lemma csv_read_plain:
  "\<not> csv_needs_quotes f \<Longrightarrow> st \<in> {FieldStart, InPlain} \<Longrightarrow>
     foldl csv_step (st, g, r, rs) f = (if f = [] then st else InPlain, g @ f, r, rs)"
  by (induction f arbitrary: st g) (auto simp: csv_needs_quotes_def)

lemma csv_read_field:
  "\<exists>st. st \<noteq> InQuotes \<and> foldl csv_step (FieldStart, [], r, rs) (csv_field f) = (st, f, r, rs)"
  by (cases "csv_needs_quotes f")
    (auto simp: csv_field_def csv_read_escape csv_read_plain)

lemma csv_read_join:
  "fs \<noteq> [] \<Longrightarrow>
     foldl csv_step (FieldStart, [], r, rs) (csv_join fs @ nl) = (FieldStart, [], [], rs @ [r @ fs])"
proof (induction fs arbitrary: r rule: csv_join.induct)
  case (2 f)
  obtain st where "st \<noteq> InQuotes" "foldl csv_step (FieldStart, [], r, rs) (csv_field f) = (st, f, r, rs)"
    using csv_read_field by blast
  then show ?case by (simp add: nl_def)
next
  case (3 f f' fs)
  obtain st where "st \<noteq> InQuotes" "foldl csv_step (FieldStart, [], r, rs) (csv_field f) = (st, f, r, rs)"
    using csv_read_field by blast
  with 3 show ?case by simp
qed simp

lemma csv_read_row:
  "fs \<noteq> [] \<Longrightarrow>
     foldl csv_step (FieldStart, [], [], rs) (csv_row fs) = (FieldStart, [], [], rs @ [fs])"
  using csv_read_join [of fs "[]" rs] by (auto simp: csv_row_def nl_def csv_field_def csv_needs_quotes_def)

text \<open>What the writer wrote is read back, whatever the fields contain.\<close>

lemma csv_read_rows:
  "[] \<notin> set rows \<Longrightarrow> csv_read (concat (map csv_row rows)) = rows"
proof -
  have "[] \<notin> set rows \<Longrightarrow> foldl csv_step (FieldStart, [], [], rs) (concat (map csv_row rows)) =
      (FieldStart, [], [], rs @ rows)" for rs
  proof (induction rows arbitrary: rs)
    case (Cons r rows)
    then have "r \<noteq> []" by auto
    with Cons show ?case by (simp add: csv_read_row)
  qed simp
  then show "[] \<notin> set rows \<Longrightarrow> ?thesis" by (simp add: csv_read_def)
qed

section \<open>The loggers\<close>

definition csv_logger_close :: "'w os \<Rightarrow> (('w, 'z) host_scheme, unit) prog" where
  "csv_logger_close os =
     bind_prog (get_st csv_file) (\<lambda>cur.
     case cur of
       None \<Rightarrow> ret ()
     | Some k \<Rightarrow>
         bind_prog (modify (\<lambda>h. h\<lparr>csv_file := None\<rparr>)) (\<lambda>_.
         call (os_fclose os k)))"

definition csv_write_row :: "'w os \<Rightarrow> int \<Rightarrow> string list \<Rightarrow> (('w, 'z) host_scheme, unit) prog" where
  "csv_write_row os k fs =
     bind_prog (call (os_fwrite os k (csv_row fs))) (\<lambda>_. call (os_fflush os k))"

text \<open>\<open>name\<close> is what the messages call the logger, \<open>columns\<close> its \<open>CSV_COLUMNS\<close>.\<close>

definition csv_logger_open ::
  "'w os \<Rightarrow> string \<Rightarrow> string list \<Rightarrow> string \<Rightarrow> (('w, 'z) host_scheme, unit) prog" where
  "csv_logger_open os name columns path =
     bind_prog (get_st csv_file) (\<lambda>cur.
     if cur \<noteq> None then raise RuntimeError (name @ '' logger is already open'')
     else
       bind_prog (call (os_makedirs os (path_parent path))) (\<lambda>_.
       try_except
         (bind_prog (call (os_fopen os (path_str path) ModeW)) (\<lambda>k.
          bind_prog (modify (\<lambda>h. h\<lparr>csv_file := Some k\<rparr>)) (\<lambda>_.
          csv_write_row os k columns)))
         [Exception]
         (\<lambda>e. bind_prog (csv_logger_close os) (\<lambda>_. lift_res (Inl e)))))"

definition csv_logger_write ::
  "'w os \<Rightarrow> string \<Rightarrow> string list \<Rightarrow> (('w, 'z) host_scheme, unit) prog" where
  "csv_logger_write os name fs =
     bind_prog (get_st csv_file) (\<lambda>cur.
     case cur of
       None \<Rightarrow> raise RuntimeError (name @ '' logger is not open'')
     | Some k \<Rightarrow> csv_write_row os k fs)"

text \<open>\<open>with Logger(path) as csv_logger: body\<close>, on a new object.\<close>

definition with_csv_logger ::
  "'w os \<Rightarrow> string \<Rightarrow> string list \<Rightarrow> string \<Rightarrow> (('w, 'z) host_scheme, 'a) prog \<Rightarrow>
     (('w, 'z) host_scheme, 'a) prog" where
  "with_csv_logger os name columns path body =
     bind_prog (modify (\<lambda>h. h\<lparr>csv_file := None\<rparr>)) (\<lambda>_.
     bind_prog (csv_logger_open os name columns path) (\<lambda>_.
     try_finally body (csv_logger_close os)))"

section \<open>What the loggers rely on\<close>

text \<open>
  \<open>ftext w p\<close> is the text of the file \<open>p\<close> and \<open>fpath w k\<close> the file that the handle
  \<open>k\<close> writes to. Mode \<open>w\<close> truncates, mode \<open>x\<close> creates a file that does not exist, a
  write appends at the handle, and a failed write leaves a prefix of its text.
\<close>

locale text_files =
  fixes os :: "'w os" and ftext :: "'w \<Rightarrow> string \<Rightarrow> string option"
    and fpath :: "'w \<Rightarrow> int \<Rightarrow> string option"
  assumes fopen_ok: "os_fopen os p m w = (Inr k, w') \<Longrightarrow>
        ftext w' = (ftext w)(p \<mapsto> []) \<and> fpath w' k = Some p"
    and fopen_x: "os_fopen os p ModeX w = (Inr k, w') \<Longrightarrow> ftext w p = None"
    and fopen_err: "os_fopen os p m w = (Inl e, w') \<Longrightarrow> ftext w' = ftext w"
    and fwrite_ok: "os_fwrite os k t w = (Inr u, w') \<Longrightarrow> fpath w k = Some p \<Longrightarrow>
        ftext w p = Some c \<Longrightarrow> ftext w' = (ftext w)(p \<mapsto> c @ t)"
    and fwrite_err: "os_fwrite os k t w = (Inl e, w') \<Longrightarrow> fpath w k = Some p \<Longrightarrow>
        ftext w p = Some c \<Longrightarrow> \<exists>n. ftext w' = (ftext w)(p \<mapsto> c @ take n t)"
    and fwrite_handle: "os_fwrite os k t w = (ru, w') \<Longrightarrow> fpath w' = fpath w"
    and fflush_files: "os_fflush os k w = (ru, w') \<Longrightarrow> ftext w' = ftext w \<and> fpath w' = fpath w"
    and fclose_files: "os_fclose os k w = (ru, w') \<Longrightarrow> ftext w' = ftext w"
    and makedirs_files: "os_makedirs os p w = (ru, w') \<Longrightarrow> ftext w' = ftext w \<and> fpath w' = fpath w"
begin

lemma wp_csv_write_row:
  assumes "fpath (world h) k = Some p" "ftext (world h) p = Some c"
    and "\<And>w'. ftext w' = (ftext (world h))(p \<mapsto> c @ csv_row fs) \<Longrightarrow> fpath w' = fpath (world h) \<Longrightarrow>
           Q () (h\<lparr>world := w'\<rparr>)"
    and "\<And>e n w'. ftext w' = (ftext (world h))(p \<mapsto> c @ take n (csv_row fs)) \<Longrightarrow>
           fpath w' = fpath (world h) \<Longrightarrow> E e (h\<lparr>world := w'\<rparr>)"
  shows "wp (csv_write_row os k fs) Q E h"
proof -
  obtain r w1 where w: "os_fwrite os k (csv_row fs) (world h) = (r, w1)" by fastforce
  obtain r2 w2 where f: "os_fflush os k w1 = (r2, w2)" by fastforce
  note hw = fwrite_handle [OF w]
  show ?thesis
  proof (cases r)
    case (Inl e)
    with w fwrite_err assms(1,2) obtain n where
      "ftext w1 = (ftext (world h))(p \<mapsto> c @ take n (csv_row fs))" by blast
    with w Inl hw assms(4) show ?thesis by (simp add: csv_write_row_def)
  next
    case (Inr u)
    with w fwrite_ok assms(1,2) have "ftext w1 = (ftext (world h))(p \<mapsto> c @ csv_row fs)" by blast
    with w Inr hw f fflush_files [OF f] assms(3) [of w2] assms(4) [of w2 "length (csv_row fs)"]
    show ?thesis by (cases r2) (simp_all add: csv_write_row_def)
  qed
qed

lemma wp_csv_logger_write:
  assumes "csv_file h = Some k" "fpath (world h) k = Some p" "ftext (world h) p = Some c"
    and "\<And>w'. ftext w' = (ftext (world h))(p \<mapsto> c @ csv_row fs) \<Longrightarrow> fpath w' = fpath (world h) \<Longrightarrow>
           Q () (h\<lparr>world := w'\<rparr>)"
    and "\<And>e n w'. ftext w' = (ftext (world h))(p \<mapsto> c @ take n (csv_row fs)) \<Longrightarrow>
           fpath w' = fpath (world h) \<Longrightarrow> E e (h\<lparr>world := w'\<rparr>)"
  shows "wp (csv_logger_write os name fs) Q E h"
  using assms(1) by (simp add: csv_logger_write_def) (rule wp_csv_write_row; use assms in blast)

lemma wp_csv_logger_close:
  assumes "\<And>w'. ftext w' = ftext (world h) \<Longrightarrow> Q () (h\<lparr>csv_file := None, world := w'\<rparr>)"
    and "\<And>e w'. ftext w' = ftext (world h) \<Longrightarrow> E e (h\<lparr>csv_file := None, world := w'\<rparr>)"
  shows "wp (csv_logger_close os) Q E h"
proof (cases "csv_file h")
  case None
  then have "h\<lparr>csv_file := None, world := world h\<rparr> = h" by (cases h) simp
  with None assms(1) [of "world h"] show ?thesis by (simp add: csv_logger_close_def)
next
  case (Some k)
  obtain r w where c: "os_fclose os k (world h) = (r, w)" by fastforce
  with Some assms(1) [of w] assms(2) [of w] fclose_files [OF c] show ?thesis
    by (cases r) (simp_all add: csv_logger_close_def)
qed

text \<open>
  An opened logger has a file that holds the header row and nothing else; a failed
  open leaves the file as it was or with a part of the header, and no other changed.
\<close>

lemma wp_csv_logger_open:
  assumes "csv_file h = None"
    and "\<And>k w'. ftext w' = (ftext (world h))(path_str p \<mapsto> csv_row cols) \<Longrightarrow>
           fpath w' k = Some (path_str p) \<Longrightarrow> Q () (h\<lparr>csv_file := Some k, world := w'\<rparr>)"
    and "\<And>e k w'. ftext w' = ftext (world h) \<or>
             (\<exists>n. ftext w' = (ftext (world h))(path_str p \<mapsto> take n (csv_row cols))) \<Longrightarrow>
           E e (h\<lparr>csv_file := k, world := w'\<rparr>)"
  shows "wp (csv_logger_open os name cols p) Q E h"
proof -
  have h0: "h\<lparr>csv_file := None, world := w\<rparr> = h\<lparr>world := w\<rparr>" for w
    using assms(1) by (cases h) simp
  obtain r w1 where m: "os_makedirs os (path_parent p) (world h) = (r, w1)" by fastforce
  obtain rk w2 where o: "os_fopen os (path_str p) ModeW w1 = (rk, w2)" by fastforce
  note mk = makedirs_files [OF m]
  show ?thesis
  proof (cases r)
    case (Inl e)
    with m mk assms(1) assms(3) [of w1 e None] h0 [of w1] show ?thesis by (simp add: csv_logger_open_def)
  next
    case mk_ok: (Inr u)
    show ?thesis
    proof (cases rk)
      case (Inl e)
      with o have "ftext w2 = ftext w1" using fopen_err by auto
      with m mk mk_ok o Inl assms(1) assms(3) [of w2 e None] h0 [of w2] show ?thesis
        by (simp add: csv_logger_open_def csv_logger_close_def)
    next
      case (Inr k)
      with o fopen_ok have f: "ftext w2 = (ftext w1)(path_str p \<mapsto> [])" "fpath w2 k = Some (path_str p)"
        by auto
      have E: "E e (h\<lparr>csv_file := j, world := w'\<rparr>)" 
        if "ftext w' = (ftext (world h))(path_str p \<mapsto> take n (csv_row cols))"
        for e n j w' using that assms(3) by blast
      let ?g = "h\<lparr>world := w2, csv_file := Some k\<rparr>"
      have "wp (csv_write_row os k cols) Q
          (\<lambda>e t. if catches [Exception] e then wp (csv_logger_close os) (\<lambda>_. E e) E t else E e t) ?g"
      proof (rule wp_csv_write_row [of _ _ "path_str p" "[]"], goal_cases)
        case (3 w')
        then show ?case using f mk assms(2) [of w' k] by simp
      next
        case (4 e n w')
        show ?case
        proof (cases "catches [Exception] e")
          case True
          have "wp (csv_logger_close os) (\<lambda>_. E e) E (?g\<lparr>world := w'\<rparr>)"
            by (rule wp_csv_logger_close) (use 4 f mk E [of _ _ _ None] in simp_all)
          with True show ?thesis by simp
        next
          case False
          then show ?thesis using 4 f mk E [of w' _ e "Some k"] by simp
        qed
      qed (use f in simp_all)
      with m mk_ok o Inr assms(1) show ?thesis
        by (simp add: csv_logger_open_def if_bool_eq_conj)
    qed
  qed
qed

end

section \<open>What the file calls leave alone\<close>

text \<open>\<open>u w\<close> is a part of the world, such as the serial line, that the file calls keep.\<close>

locale file_frame =
  fixes os :: "'w os" and u :: "'w \<Rightarrow> 'f"
  assumes u_fopen: "os_fopen os p m w = (r1, w') \<Longrightarrow> u w' = u w"
    and u_fwrite: "os_fwrite os k t w = (r2, w') \<Longrightarrow> u w' = u w"
    and u_fflush: "os_fflush os k w = (r2, w') \<Longrightarrow> u w' = u w"
    and u_fclose: "os_fclose os k w = (r2, w') \<Longrightarrow> u w' = u w"
    and u_makedirs: "os_makedirs os p w = (r2, w') \<Longrightarrow> u w' = u w"
    and u_now: "os_now os w = (y, w') \<Longrightarrow> u w' = u w"
begin

lemma u_calls [keeps_intros]:
  "keeps (\<lambda>h. u (world h)) (call (os_fopen os p m))"
  "keeps (\<lambda>h. u (world h)) (call (os_fwrite os k t))"
  "keeps (\<lambda>h. u (world h)) (call (os_fflush os k))"
  "keeps (\<lambda>h. u (world h)) (call (os_fclose os k))"
  "keeps (\<lambda>h. u (world h)) (call (os_makedirs os p))"
  "keeps (\<lambda>h. u (world h)) (call_total (os_now os))"
  using u_fopen u_fwrite u_fflush u_fclose u_makedirs u_now
  by (auto intro!: keeps_call keeps_call_total)

lemma u_csv_upd [keeps_intros]:
  "keeps (\<lambda>h. u (world h)) (modify (\<lambda>h. h\<lparr>csv_file := x\<rparr>))"
  by (intro keeps_intros) simp

lemma u_csv_close [keeps_intros]: "keeps (\<lambda>h. u (world h)) (csv_logger_close os)"
  unfolding csv_logger_close_def by (intro keeps_intros)

lemma u_csv_row [keeps_intros]: "keeps (\<lambda>h. u (world h)) (csv_write_row os k fs)"
  unfolding csv_write_row_def by (intro keeps_intros)

lemma u_csv_open [keeps_intros]: "keeps (\<lambda>h. u (world h)) (csv_logger_open os name cols p)"
  unfolding csv_logger_open_def by (intro keeps_intros)

lemma u_csv_write [keeps_intros]: "keeps (\<lambda>h. u (world h)) (csv_logger_write os name fs)"
  unfolding csv_logger_write_def by (intro keeps_intros)

end

text \<open>No file call touches the printed lines or the link.\<close>

definition link_out ::
  "('w, 'z) host_scheme \<Rightarrow> int option \<times> string list \<times> string list \<times> 'z" where
  "link_out h = (link_fd h, out h, err h, host.more h)"

lemma link_out_upd [simp]:
  "link_out (h\<lparr>world := w\<rparr>) = link_out h" "link_out (h\<lparr>csv_file := k\<rparr>) = link_out h"
  by (simp_all add: link_out_def)

lemma keeps_link_out_call [keeps_intros]:
  "keeps link_out (call m)" "keeps link_out (modify (\<lambda>h. h\<lparr>csv_file := x\<rparr>))"
  by (auto simp: keeps_def call_def modify_def split: prod.splits)

lemma keeps_link_out_csv [keeps_intros]:
  "keeps link_out (csv_write_row os k fs)" "keeps link_out (csv_logger_close os)"
  "keeps link_out (csv_logger_write os name fs)"
  unfolding csv_write_row_def csv_logger_close_def csv_logger_write_def
  by (intro keeps_intros)+

lemma says_csv [says_intros]:
  "says P (csv_write_row os k fs)" "says P (csv_logger_close os)"
  "says P (csv_logger_write os name fs)" "says P (csv_logger_open os name cols p)"
  unfolding csv_logger_open_def csv_write_row_def csv_logger_close_def csv_logger_write_def
  by (intro says_intros; simp)+

lemma says_with_csv [says_intros]:
  "says P m \<Longrightarrow> says P (with_csv_logger os name cols p m)"
  unfolding with_csv_logger_def by (intro says_intros; simp)

lemma returns_csv [returns_intros]:
  "returns (csv_write_row os k fs) h" "returns (csv_logger_close os) h"
  "returns (csv_logger_write os name fs) h" "returns (csv_logger_open os name cols p) h"
  unfolding csv_logger_open_def csv_write_row_def csv_logger_close_def csv_logger_write_def
  by (intro returns_intros)+

lemma returns_with_csv [returns_intros]:
  "(\<And>h. returns m h) \<Longrightarrow> returns (with_csv_logger os name cols p m) h"
  unfolding with_csv_logger_def by (intro returns_intros)

end
