(* ===== verification/Line_World.thy ===== *)
theory Line_World
  imports Csv_Log "HOL-Library.AList"
begin

text \<open>
  The library calls of \<open>os\<close> on a concrete world: a serial line to a device, a clock,
  a table of descriptors and a file system, with the commands it can run. The device is a parameter, a function
  from its state, the time and the bytes written to the bytes it answers, each with
  the time of its arrival, and its new state. The locales of \<open>Serial_Link\<close> hold for
  every device.
\<close>

record 'd line_world =
  clk :: rat
  arrivals :: "(rat \<times> byte) list"
  dev :: 'd
  rx_seen :: bytes
  tx_sent :: bytes
  ports :: "string list"
  ttys :: "string list"
  fd_paths :: "(int \<times> string) list"
  next_fd :: int
  files :: "(string \<times> string) list"
  handles :: "(int \<times> string) list"
  readers :: "(int \<times> string) list"
  next_handle :: int
  dirs :: "string list"
  tools :: "string list \<Rightarrow> completed_process res"
  hash_fun :: "string \<Rightarrow> string"
  stop_time :: "rat option"
  listening :: "int list"

type_synonym 'd device = "'d \<Rightarrow> rat \<Rightarrow> bytes \<Rightarrow> (rat \<times> byte) list \<times> 'd"

text \<open>The cost of a clock reading.\<close>

definition clock_tick :: rat where
  "clock_tick = 1 / 1000000"

definition lw_monotonic :: "'d line_world \<Rightarrow> rat \<times> 'd line_world" where
  "lw_monotonic w = (clk w + clock_tick, w\<lparr>clk := clk w + clock_tick\<rparr>)"

definition lw_select :: "int \<Rightarrow> rat \<Rightarrow> 'd line_world \<Rightarrow> bool res \<times> 'd line_world" where
  "lw_select fd t w =
     (let late = clk w + max 0 t in
      case arrivals w of
        [] \<Rightarrow> (Inr False, w\<lparr>clk := late\<rparr>)
      | (a, b) # as \<Rightarrow>
          if a \<le> clk w then (Inr True, w)
          else if a \<le> late then (Inr True, w\<lparr>clk := a\<rparr>)
          else (Inr False, w\<lparr>clk := late\<rparr>))"

definition arrived :: "'d line_world \<Rightarrow> bytes" where
  "arrived w = map snd (takeWhile (\<lambda>(a, b). a \<le> clk w) (arrivals w))"

definition lw_read :: "int \<Rightarrow> nat \<Rightarrow> 'd line_world \<Rightarrow> bytes res \<times> 'd line_world" where
  "lw_read fd n w =
     (let got = take n (arrived w) in
      if arrived w = [] then
        (Inl (Exc BlockingIOError ''[Errno 11] Resource temporarily unavailable''), w)
      else
        (Inr got, w\<lparr>arrivals := drop (length got) (arrivals w), rx_seen := rx_seen w @ got\<rparr>))"

definition lw_write :: "'d device \<Rightarrow> int \<Rightarrow> bytes \<Rightarrow> 'd line_world \<Rightarrow> nat res \<times> 'd line_world" where
  "lw_write d fd bs w =
     (case d (dev w) (clk w) bs of (as, s) \<Rightarrow>
        (Inr (length bs),
         w\<lparr>arrivals := arrivals w @ as, dev := s, tx_sent := tx_sent w @ bs\<rparr>))"

definition lw_tcflush :: "int \<Rightarrow> 'd line_world \<Rightarrow> unit res \<times> 'd line_world" where
  "lw_tcflush fd w =
     (Inr (), w\<lparr>arrivals := dropWhile (\<lambda>(a, b). a \<le> clk w) (arrivals w)\<rparr>)"

definition lw_sleep :: "rat \<Rightarrow> 'd line_world \<Rightarrow> 'd line_world" where
  "lw_sleep d w = w\<lparr>clk := clk w + max 0 d\<rparr>"

definition lw_open :: "string \<Rightarrow> 'd line_world \<Rightarrow> int res \<times> 'd line_world" where
  "lw_open p w =
     (if p \<in> set (ports w) \<and> next_fd w \<notin> fst ` set (fd_paths w) then
        (Inr (next_fd w),
         w\<lparr>fd_paths := (next_fd w, p) # fd_paths w, next_fd := next_fd w + 1\<rparr>)
      else (Inl (Exc OSError (''[Errno 2] No such file or directory: '' @ p)), w))"

definition lw_close :: "int \<Rightarrow> 'd line_world \<Rightarrow> unit res \<times> 'd line_world" where
  "lw_close fd w =
     (if fd \<in> fst ` set (fd_paths w) then
        (Inr (), w\<lparr>fd_paths := filter (\<lambda>p. fst p \<noteq> fd) (fd_paths w)\<rparr>)
      else (Inl (Exc OSError ''[Errno 9] Bad file descriptor''), w))"

definition is_tty :: "int \<Rightarrow> 'd line_world \<Rightarrow> bool" where
  "is_tty fd w =
     (case map_of (fd_paths w) fd of None \<Rightarrow> False | Some p \<Rightarrow> p \<in> set (ttys w))"

definition not_a_tty :: exc where
  "not_a_tty = Exc TermiosError ''(25, 'Inappropriate ioctl for device')''"

definition lw_tcgetattr :: "int \<Rightarrow> 'd line_world \<Rightarrow> tty_attrs res \<times> 'd line_world" where
  "lw_tcgetattr fd w =
     (if is_tty fd w then
        (Inr \<lparr>iflag = {}, oflag = {}, cflag = {CS8}, lflag = {}, ispeed = OtherBaud 0,
              ospeed = OtherBaud 0, vmin = 1, vtime = 0\<rparr>, w)
      else (Inl not_a_tty, w))"

definition lw_tcsetattr :: "int \<Rightarrow> tty_attrs \<Rightarrow> 'd line_world \<Rightarrow> unit res \<times> 'd line_world" where
  "lw_tcsetattr fd a w = (if is_tty fd w then Inr () else Inl not_a_tty, w)"

definition lw_tcdrain :: "int \<Rightarrow> 'd line_world \<Rightarrow> unit res \<times> 'd line_world" where
  "lw_tcdrain fd w = (Inr (), w)"

definition lw_now :: "'d line_world \<Rightarrow> datetime \<times> 'd line_world" where
  "lw_now w = (\<lparr>dt_iso = ''t='' @ fmt_g (clk w), dt_stamp = fmt_g (clk w)\<rparr>, w)"

definition lw_fopen :: "string \<Rightarrow> file_mode \<Rightarrow> 'd line_world \<Rightarrow> int res \<times> 'd line_world" where
  "lw_fopen p m w =
     (if m = ModeX \<and> map_of (files w) p \<noteq> None then
        (Inl (Exc FileExistsError (''[Errno 17] File exists: '' @ p)), w)
      else
        (Inr (next_handle w),
         w\<lparr>files := AList.update p [] (files w),
           handles := AList.update (next_handle w) p (handles w),
           next_handle := next_handle w + 1\<rparr>))"

definition lw_fwrite :: "int \<Rightarrow> string \<Rightarrow> 'd line_world \<Rightarrow> unit res \<times> 'd line_world" where
  "lw_fwrite k t w =
     (case map_of (handles w) k of
        None \<Rightarrow> (Inl (Exc ValueError ''I/O operation on closed file.''), w)
      | Some p \<Rightarrow>
          (Inr (), w\<lparr>files := AList.update p
             ((case map_of (files w) p of None \<Rightarrow> [] | Some c \<Rightarrow> c) @ t) (files w)\<rparr>))"

definition lw_fclose :: "int \<Rightarrow> 'd line_world \<Rightarrow> unit res \<times> 'd line_world" where
  "lw_fclose k w = (Inr (), w\<lparr>handles := AList.delete k (handles w)\<rparr>)"

text \<open>
  A file open for reading is its handle with what has not been read. What a command prints
  and the hash function are parameters of the world.
\<close>

definition lw_bopen :: "string \<Rightarrow> 'd line_world \<Rightarrow> int res \<times> 'd line_world" where
  "lw_bopen p w =
     (case map_of (files w) p of
        None \<Rightarrow> (Inl (Exc OSError (''[Errno 2] No such file or directory: '' @ p)), w)
      | Some c \<Rightarrow>
          (Inr (next_handle w),
           w\<lparr>readers := AList.update (next_handle w) c (readers w), next_handle := next_handle w + 1\<rparr>))"

definition lw_bread :: "int \<Rightarrow> nat \<Rightarrow> 'd line_world \<Rightarrow> string res \<times> 'd line_world" where
  "lw_bread k n w =
     (case map_of (readers w) k of
        None \<Rightarrow> (Inl (Exc ValueError ''I/O operation on closed file.''), w)
      | Some r \<Rightarrow> (Inr (take n r), w\<lparr>readers := AList.update k (drop n r) (readers w)\<rparr>))"

definition lw_bclose :: "int \<Rightarrow> 'd line_world \<Rightarrow> unit res \<times> 'd line_world" where
  "lw_bclose k w = (Inr (), w\<lparr>readers := AList.delete k (readers w)\<rparr>)"

definition lw_read_bytes :: "string \<Rightarrow> 'd line_world \<Rightarrow> string res \<times> 'd line_world" where
  "lw_read_bytes p w =
     (case map_of (files w) p of
        None \<Rightarrow> (Inl (Exc OSError (''[Errno 2] No such file or directory: '' @ p)), w)
      | Some c \<Rightarrow> (Inr c, w))"

definition line_os :: "'d device \<Rightarrow> 'd line_world os" where
  "line_os d =
     \<lparr>os_open = lw_open, os_close = lw_close, os_tcgetattr = lw_tcgetattr,
      os_tcsetattr = lw_tcsetattr, os_tcdrain = lw_tcdrain, os_tcflush_in = lw_tcflush,
      os_write = lw_write d, os_read = lw_read, os_select = lw_select,
      os_monotonic = lw_monotonic, os_time = lw_monotonic, os_now = lw_now,
      os_sleep = lw_sleep,
      os_makedirs = (\<lambda>p w. (Inr (), w\<lparr>dirs := List.insert p (dirs w)\<rparr>)),
      os_fopen = lw_fopen, os_fwrite = lw_fwrite, os_fflush = (\<lambda>k w. (Inr (), w)),
      os_fclose = lw_fclose,
      os_exists = (\<lambda>p w. (Inr (map_of (files w) p \<noteq> None), w)),
      os_is_file = (\<lambda>p w. (Inr (map_of (files w) p \<noteq> None), w)),
      os_is_dir = (\<lambda>p w. (Inr (p \<in> set (dirs w)), w)),
      os_bopen = lw_bopen, os_bread = lw_bread, os_bclose = lw_bclose,
      os_sha256 = (\<lambda>s w. (hash_fun w s, w)), os_run = (\<lambda>c w. (tools w c, w)),
      os_read_bytes = lw_read_bytes\<rparr>"

lemmas line_os_defs = line_os_def lw_monotonic_def lw_select_def lw_read_def lw_write_def
  lw_tcflush_def lw_sleep_def lw_open_def lw_close_def lw_tcgetattr_def lw_tcsetattr_def
  lw_tcdrain_def lw_now_def lw_fopen_def lw_fwrite_def lw_fclose_def
  lw_bopen_def lw_bread_def lw_bclose_def lw_read_bytes_def

definition line_fds :: "'d line_world \<Rightarrow> int set" where
  "line_fds w = fst ` set (fd_paths w)"

interpretation line: tty_progress "line_os d" rx_seen tx_sent clk clock_tick for d
  by unfold_locales
    (auto simp: line_os_def lw_monotonic_def lw_read_def lw_write_def lw_tcflush_def
      lw_sleep_def lw_tcdrain_def lw_select_def Let_def clock_tick_def
      split: list.splits if_splits prod.splits)

interpretation line_fd: fd_table "line_os d" line_fds for d
  by unfold_locales
    (auto simp: line_os_def lw_open_def lw_close_def lw_tcgetattr_def lw_tcsetattr_def
      line_fds_def not_a_tty_def split: if_splits)

interpretation line_port: port_frame "line_os d" line_fds for d
  by unfold_locales
    (auto simp: line_os_defs line_fds_def Let_def split: list.splits if_splits prod.splits)

interpretation line_listen: io_frame "line_os d" listening for d
  by unfold_locales
    (auto simp: line_os_defs Let_def split: list.splits if_splits prod.splits)

text \<open>The file system is untouched by the serial, clock and descriptor calls.\<close>

definition file_system :: "'d line_world \<Rightarrow> (string \<times> string) list \<times> (int \<times> string) list" where
  "file_system w = (files w, handles w)"

interpretation line_files: io_frame "line_os d" file_system for d
  by unfold_locales
    (auto simp: line_os_defs file_system_def Let_def split: list.splits if_splits prod.splits)

definition lw_text :: "'d line_world \<Rightarrow> string \<Rightarrow> string option" where
  "lw_text w p = map_of (files w) p"

definition lw_path :: "'d line_world \<Rightarrow> int \<Rightarrow> string option" where
  "lw_path w k = map_of (handles w) k"

interpretation line_text: text_files "line_os d" lw_text lw_path for d
  by unfold_locales
    (auto simp: line_os_defs lw_text_def lw_path_def Let_def fun_eq_iff update_conv
      split: if_splits option.splits)

interpretation line_keep: file_frame "line_os d" "\<lambda>w. (rx_seen w, tx_sent w)" for d
  by unfold_locales
    (auto simp: line_os_defs Let_def split: if_splits option.splits)

end
