(* ===== verification/Transactions.thy ===== *)
theory Transactions
  imports Line_World
begin

text \<open>
  The request and response transactions of \<open>supervisor/main.py\<close>, on which all its
  modes are built: reading one frame, checking a response, requesting a status,
  the recovery ping and the silence check of the fault campaign.
\<close>

section \<open>Definitions\<close>

definition validate_observe_seconds :: "pyfloat \<Rightarrow> unit res" where
  "validate_observe_seconds observe_seconds =
     (if \<not> fl_less (Fin 0) observe_seconds then
        Inl (Exc ValueError ''observe-seconds must be greater than zero'')
      else Inr ())"

definition read_protocol_frame :: "'w os \<Rightarrow> rat \<Rightarrow> (('w, 'z) host_scheme, frame) prog" where
  "read_protocol_frame os timeout_s =
     bind_prog (read_exact os 5 timeout_s) (\<lambda>header.
     let payload_length = uint (header ! 4) in
     if payload_length > int MAX_PAYLOAD then
       raise ProtocolError
         (''response LENGTH '' @ dec payload_length @ '' exceeds '' @ dec (int MAX_PAYLOAD)
            @ '' bytes'')
     else
       bind_prog (read_exact os (payload_length + 1) timeout_s) (\<lambda>payload_and_crc.
       lift_res (decode_frame (header @ payload_and_crc))))"

definition require_response :: "frame \<Rightarrow> int \<Rightarrow> int \<Rightarrow> bytes \<Rightarrow> unit res" where
  "require_response response expected_type expected_sequence expected_payload =
     (if frame_type response \<noteq> expected_type then
        Inl (Exc SupervisorError
          (''unexpected response type 0x'' @ hex02 (frame_type response) @ ''; expected 0x''
             @ hex02 expected_type))
      else if sequence response \<noteq> expected_sequence then
        Inl (Exc SupervisorError
          (''unexpected response sequence 0x'' @ hex02 (sequence response) @ ''; expected 0x''
             @ hex02 expected_sequence))
      else if payload response \<noteq> expected_payload then
        Inl (Exc SupervisorError
          (''unexpected response payload '' @ hex_spaced (payload response)))
      else Inr ())"

text \<open>\<open>link.write(encode_frame(f))\<close>, and the same followed by \<open>read_protocol_frame(link)\<close>.\<close>

definition send_frame :: "'w os \<Rightarrow> frame \<Rightarrow> (('w, 'z) host_scheme, unit) prog" where
  "send_frame os f = bind_prog (lift_res (encode_frame f)) (serial_write os)"

definition transact :: "'w os \<Rightarrow> frame \<Rightarrow> (('w, 'z) host_scheme, frame) prog" where
  "transact os f = bind_prog (send_frame os f) (\<lambda>_. read_protocol_frame os 1)"

text \<open>
  \<open>_request_validation_status\<close>; the same steps stand inline, with their own names, in
  the other modes.
\<close>

definition request_status ::
  "'w os \<Rightarrow> int \<Rightarrow> int \<Rightarrow> string \<Rightarrow> (frame \<Rightarrow> 'a res) \<Rightarrow> (('w, 'z) host_scheme, 'a) prog" where
  "request_status os request_type seq status_name decoder =
     bind_prog (transact os (mk_frame request_type seq [])) (\<lambda>response.
     if sequence response \<noteq> seq then
       raise SupervisorError
         (''unexpected '' @ status_name @ '' sequence 0x'' @ hex02 (sequence response)
            @ ''; expected 0x'' @ hex02 seq)
     else lift_res (decoder response))"

definition request_comm_status :: "'w os \<Rightarrow> int \<Rightarrow> (('w, 'z) host_scheme, comm_status) prog" where
  "request_comm_status os seq =
     request_status os TYPE_GET_COMM_STATUS seq ''COMM_STATUS'' decode_comm_status"

definition request_reset_cause ::
  "'w os \<Rightarrow> int \<Rightarrow> (('w, 'z) host_scheme, reset_cause_status) prog" where
  "request_reset_cause os seq =
     request_status os TYPE_GET_RESET_CAUSE seq ''RESET_CAUSE'' decode_reset_cause"

definition request_watchdog_status ::
  "'w os \<Rightarrow> int \<Rightarrow> (('w, 'z) host_scheme, watchdog_status) prog" where
  "request_watchdog_status os seq =
     request_status os TYPE_GET_WATCHDOG_STATUS seq ''WATCHDOG_STATUS'' decode_watchdog_status"

definition verify_recovery_ping :: "'w os \<Rightarrow> int \<Rightarrow> (('w, 'z) host_scheme, bool) prog" where
  "verify_recovery_ping os seq =
     try_except
       (bind_prog (transact os (mk_frame TYPE_PING seq [])) (\<lambda>response.
        bind_prog (lift_res (require_response response TYPE_PONG seq [])) (\<lambda>_.
        ret True)))
       [OSError, ProtocolError, SerialLinkError, SupervisorError]
       (\<lambda>_. ret False)"

definition require_no_bad_crc_response :: "'w os \<Rightarrow> (('w, 'z) host_scheme, unit) prog" where
  "require_no_bad_crc_response os =
     bind_prog
       (try_except
         (bind_prog (read_exact os 1 (15 / 100)) (\<lambda>b. ret (Some b)))
         [SerialTimeoutError]
         (\<lambda>_. ret None))
       (\<lambda>unexpected.
          case unexpected of
            None \<Rightarrow> ret ()
          | Some b \<Rightarrow>
              raise SupervisorError
                (''corrupted-CRC frame produced an unexpected response byte 0x''
                   @ hex02 (uint (b ! 0))))"

section \<open>The protocol's answers\<close>

text \<open>
  What the documented protocol promises of a response: the request's own sequence
  number, the response type that belongs to the request type, and the payload.
\<close>

definition response_type :: "int \<Rightarrow> int" where
  "response_type ty = (if ty = TYPE_ECHO then TYPE_ACK else ty + 0x80)"

definition response_size :: "int \<Rightarrow> nat" where
  "response_size ty =
     (if ty = TYPE_PING then 0
      else if ty = TYPE_GET_COMM_STATUS then 3
      else if ty = TYPE_GET_RUNTIME_MEMORY_STATUS then 6
      else if ty = TYPE_GET_RESET_CAUSE \<or> ty = TYPE_GET_WATCHDOG_STATUS then 1
      else 8)"

definition answers :: "frame \<Rightarrow> frame \<Rightarrow> bool" where
  "answers q f \<longleftrightarrow>
     valid_frame f \<and> sequence f = sequence q \<and> frame_type f = response_type (frame_type q) \<and>
     (if frame_type q = TYPE_ECHO then payload f = payload q
      else length (payload f) = response_size (frame_type q))"

lemmas answers_defs = answers_def response_type_def response_size_def

section \<open>Lemmas\<close>

lemma require_response_iff:
  "require_response f t s p = Inr () \<longleftrightarrow> f = mk_frame t s p"
  by (cases f) (auto simp: require_response_def mk_frame_def)

lemma require_response_Inl:
  "require_response f t s p = Inl e \<Longrightarrow> exc_class e = SupervisorError"
  by (auto simp: require_response_def split: if_splits)

lemma mk_frame_sel [simp]:
  "frame_type (mk_frame t s p) = t" "sequence (mk_frame t s p) = s" "payload (mk_frame t s p) = p"
  by (simp_all add: mk_frame_def)

lemma mk_frame_eq [simp]: "mk_frame (frame_type f) (sequence f) (payload f) = f"
  by (simp add: mk_frame_def)

lemma read_exact_0 [simp]: "read_exact os 0 t = (if t < 0 then raise ValueError ''timeout_s must be non-negative'' else ret [])"
  by (simp add: read_exact_def)

text \<open>
  What one frame read leaves behind: on success exactly the bytes of the returned
  frame have been consumed; on an error at most a maximal frame's fourteen.
\<close>

context tty
begin

lemma wp_read_protocol_frame:
  assumes "\<And>f w'. valid_frame f \<Longrightarrow> rx w' = rx (world h) @ wire f \<Longrightarrow> tx w' = tx (world h) \<Longrightarrow>
        Q f (h\<lparr>world := w'\<rparr>)"
    and "\<And>e cs w'. length cs \<le> 14 \<Longrightarrow> rx w' = rx (world h) @ cs \<Longrightarrow> tx w' = tx (world h) \<Longrightarrow>
        E e (h\<lparr>world := w'\<rparr>)"
  shows "wp (read_protocol_frame os t) Q E h"
  unfolding read_protocol_frame_def wp_bind
proof (rule wp_read_exact, goal_cases)
  case (2 hd w1)
  note hd = 2
  show ?case
  proof (cases "uint (hd ! 4) > int MAX_PAYLOAD")
    case True
    with hd assms(2) [of hd w1] show ?thesis by simp
  next
    case False
    have l: "uint (hd ! 4) \<le> 8" "0 \<le> uint (hd ! 4)"
      using False by (simp_all add: MAX_PAYLOAD_def)
    have "wp (read_exact os (uint (hd ! 4) + 1) t)
        (\<lambda>pc. wp (lift_res (decode_frame (hd @ pc))) Q E) E (h\<lparr>world := w1\<rparr>)"
    proof (rule wp_read_exact, goal_cases)
      case (2 pc w2)
      have rx: "rx w2 = rx (world h) @ (hd @ pc)" "tx w2 = tx (world h)"
        using 2 hd by simp_all
      show ?case
      proof (cases "decode_frame (hd @ pc)")
        case (Inl e)
        moreover have "length (hd @ pc) \<le> 14" using 2 hd l by simp
        ultimately show ?thesis using assms(2) [OF _ rx] by simp
      next
        case (Inr f)
        then have "valid_frame f" "hd @ pc = wire f" using decode_frame_canonical by blast+
        with Inr assms(1) [of f w2] rx show ?thesis by simp
      qed
    next
      case (3 e cs w2)
      then have "length (hd @ cs) \<le> 14" using hd l by auto
      with 3 hd assms(2) [of "hd @ cs" w2 e] show ?case by simp
    qed (use l in simp)
    with False show ?thesis by (simp add: Let_def del: wp_lift_res)
  qed
next
  case (3 e cs w')
  with assms(2) [of cs w' e] show ?case by auto
qed simp

lemma wp_send_frame:
  assumes "valid_frame r"
    and "\<And>w'. rx w' = rx (world h) \<Longrightarrow> tx w' = tx (world h) @ wire r \<Longrightarrow> Q () (h\<lparr>world := w'\<rparr>)"
    and "\<And>e k w'. rx w' = rx (world h) \<Longrightarrow> tx w' = tx (world h) @ take k (wire r) \<Longrightarrow>
        E e (h\<lparr>world := w'\<rparr>)"
  shows "wp (send_frame os r) Q E h"
proof -
  have "wp (serial_write os (wire r)) Q E h"
    by (rule wp_serial_write) (use assms(2,3) in auto)
  with assms(1) show ?thesis by (simp add: send_frame_def encode_frame_wire)
qed

text \<open>
  One transaction: the request goes out whole before anything is read, and a
  returned frame is the next one on the line.
\<close>

lemma wp_transact:
  assumes "valid_frame r"
    and "\<And>f w'. valid_frame f \<Longrightarrow> rx w' = rx (world h) @ wire f \<Longrightarrow>
        tx w' = tx (world h) @ wire r \<Longrightarrow> Q f (h\<lparr>world := w'\<rparr>)"
    and "\<And>e cs k w'. length cs \<le> 14 \<Longrightarrow> rx w' = rx (world h) @ cs \<Longrightarrow>
        tx w' = tx (world h) @ take k (wire r) \<Longrightarrow> E e (h\<lparr>world := w'\<rparr>)"
  shows "wp (transact os r) Q E h"
  unfolding transact_def wp_bind
proof (rule wp_send_frame [OF assms(1)], goal_cases)
  case (1 w1)
  show ?case
  proof (rule wp_read_protocol_frame, goal_cases)
    case (1 f w2)
    with \<open>rx w1 = _\<close> \<open>tx w1 = _\<close> assms(2) [of f w2] show ?case by simp
  next
    case (2 e cs w2)
    with \<open>rx w1 = _\<close> \<open>tx w1 = _\<close> assms(3) [of cs w2 "length (wire r)" e] show ?case by simp
  qed
next
  case (2 e k w')
  with assms(3) [of "[]" w' k e] show ?case by simp
qed

text \<open>
  A status request that returns has read one valid frame with the request's own
  sequence number that its decoder accepts.
\<close>

lemma wp_request_status:
  assumes "valid_frame (mk_frame ty s [])"
    and "\<And>f x w'. valid_frame f \<Longrightarrow> sequence f = s \<Longrightarrow> dcd f = Inr x \<Longrightarrow>
        rx w' = rx (world h) @ wire f \<Longrightarrow> tx w' = tx (world h) @ wire (mk_frame ty s []) \<Longrightarrow>
        Q x (h\<lparr>world := w'\<rparr>)"
    and "\<And>e cs k w'. length cs \<le> 14 \<Longrightarrow> rx w' = rx (world h) @ cs \<Longrightarrow>
        tx w' = tx (world h) @ take k (wire (mk_frame ty s [])) \<Longrightarrow> E e (h\<lparr>world := w'\<rparr>)"
  shows "wp (request_status os ty s name dcd) Q E h"
  unfolding request_status_def wp_bind
proof (rule wp_transact [OF assms(1)], goal_cases)
  case (1 f w')
  have "length (wire f) \<le> 14"
    using 1(1) by (simp add: length_wire valid_frame_def MAX_PAYLOAD_def)
  with 1 assms(2) [of f _ w'] assms(3) [of "wire f" w' "length (wire (mk_frame ty s []))"]
  show ?case by (cases "dcd f") auto
next
  case (2 e cs k w')
  then show ?case by (rule assms(3))
qed

end

lemma keeps_local_transactions [keeps_intros]:
  "keeps local_part (read_protocol_frame os t)" "keeps local_part (send_frame os f)"
  "keeps local_part (transact os f)" "keeps local_part (request_status os ty s nm dcd)"
  unfolding request_status_def transact_def send_frame_def read_protocol_frame_def Let_def
  by (intro keeps_intros)+

lemma keeps_local_ping [keeps_intros]: "keeps local_part (verify_recovery_ping os s)"
  unfolding verify_recovery_ping_def by (intro keeps_intros)

lemma keeps_local_silence [keeps_intros]: "keeps local_part (require_no_bad_crc_response os)"
  unfolding require_no_bad_crc_response_def by (intro keeps_intros)

lemma says_transactions [says_intros]:
  "says P (read_protocol_frame os t)" "says P (send_frame os f)" "says P (transact os f)"
  "says P (request_status os ty s nm dcd)" "says P (verify_recovery_ping os s)"
  "says P (require_no_bad_crc_response os)" "says P (serial_write os bs)"
  by (intro says_local keeps_intros)+

context port_frame
begin

lemma v_transactions [keeps_intros]:
  "keeps (\<lambda>h. v (world h)) (read_protocol_frame os t)"
  "keeps (\<lambda>h. v (world h)) (send_frame os f)"
  "keeps (\<lambda>h. v (world h)) (transact os f)"
  "keeps (\<lambda>h. v (world h)) (request_status os ty s nm dcd)"
  "keeps (\<lambda>h. v (world h)) (verify_recovery_ping os s)"
  "keeps (\<lambda>h. v (world h)) (require_no_bad_crc_response os)"
  unfolding verify_recovery_ping_def require_no_bad_crc_response_def request_status_def
    transact_def send_frame_def read_protocol_frame_def Let_def
  by (intro keeps_intros)+

end

text \<open>Under a progressing clock every transaction returns.\<close>

context tty_progress
begin

lemma returns_transactions [returns_intros]:
  "returns (read_protocol_frame os t) h" "returns (send_frame os r) h"
  "returns (transact os r) h" "returns (request_status os ty s name dcd) h"
  "returns (verify_recovery_ping os s) h" "returns (require_no_bad_crc_response os) h"
  unfolding verify_recovery_ping_def require_no_bad_crc_response_def request_status_def
    transact_def send_frame_def read_protocol_frame_def Let_def
  by (intro returns_intros)+

end

end
