(* ===== verification/Codec_Laws.thy ===== *)
theory Codec_Laws
  imports Transactions
begin

text \<open>
  The properties of the codec: what is encoded is decoded and nothing else is accepted,
  what the type checks refuse, which corruptions are detected, and what the status
  decoders make of the payloads that the firmware builds.
\<close>

section \<open>Frames\<close>

text \<open>
  C1: the codec is a bijection between the frames that it encodes and the byte strings
  that it decodes: a byte string decodes to a frame exactly if the frame encodes to it.
\<close>

theorem codec_bijection: "decode_frame bs = Inr f \<longleftrightarrow> encode_frame f = Inr bs"
  by (auto simp: decode_frame_iff encode_frame_iff)

text \<open>
  C11: \<open>encode_frame\<close> accepts exactly octet integers (booleans are refused) with a byte
  string of at most eight bytes, and every refusal is a \<open>ProtocolError\<close>.
\<close>

theorem encode_frame_checks:
  "(case encode_frame_obj ft sq pl of
      Inr bs \<Rightarrow> \<exists>t s p. ft = PyInt t \<and> sq = PyInt s \<and> pl = PyBytes p \<and>
        0 \<le> t \<and> t \<le> 255 \<and> 0 \<le> s \<and> s \<le> 255 \<and> length p \<le> 8 \<and> bs = wire (mk_frame t s p)
    | Inl e \<Rightarrow> exc_class e = ProtocolError \<and>
        \<not> (\<exists>t s p. ft = PyInt t \<and> sq = PyInt s \<and> pl = PyBytes p \<and>
        0 \<le> t \<and> t \<le> 255 \<and> 0 \<le> s \<and> s \<le> 255 \<and> length p \<le> 8))"
proof (cases "\<exists>t s p. ft = PyInt t \<and> sq = PyInt s \<and> pl = PyBytes p")
  case True
  then obtain t s p where v: "ft = PyInt t" "sq = PyInt s" "pl = PyBytes p" by auto
  have e: "encode_frame_obj ft sq pl = encode_frame (mk_frame t s p)"
    by (simp add: v encode_frame_def mk_frame_def)
  show ?thesis
  proof (cases "valid_frame (mk_frame t s p)")
    case True
    then show ?thesis
      unfolding e encode_frame_wire [OF True] by (simp add: v valid_frame_def MAX_PAYLOAD_def)
  next
    case False
    then obtain m where m: "encode_frame (mk_frame t s p) = Inl (Exc ProtocolError m)"
      using encode_frame_invalid by blast
    show ?thesis
      unfolding e m using False by (auto simp: v valid_frame_def MAX_PAYLOAD_def)
  qed
next
  case False
  then show ?thesis
    by (cases ft; cases sq; cases pl)
      (auto simp: encode_frame_obj_def validate_octet_def split: sum.split if_splits)
qed

lemma decode_crc_only:
  assumes "decode_frame bs = Inl e" "exc_class e = CRCError"
  obtains c where "c \<noteq> last bs" "is_ok (decode_frame (butlast bs @ [c]))"
proof -
  have ok: "\<not> length bs < 6" "uint (bs ! 0) = SOF" "uint (bs ! 1) = VERSION"
    "\<not> unat (bs ! 4) > MAX_PAYLOAD" "length bs = 6 + unat (bs ! 4)"
    "uint (last bs) \<noteq> crc8_atm (slice 1 (length bs - 1) bs)"
    using assms by (auto simp: decode_frame_def Let_def split: if_splits)
  define c :: byte where "c = word_of_int (crc8_atm (slice 1 (length bs - 1) bs))"
  have c: "uint c = crc8_atm (slice 1 (length bs - 1) bs)"
    using crc8_atm_range by (simp add: c_def uint_octet)
  let ?cs = "butlast bs @ [c]"
  have l: "length ?cs = length bs" using ok(1) by simp
  have nth: "?cs ! i = bs ! i" if "i < 5" for i
  proof -
    have "i < length (butlast bs)" using that ok(1) by simp
    then show ?thesis by (simp only: nth_append nth_butlast if_True)
  qed
  have sl: "slice 1 (length bs - 1) ?cs = slice 1 (length bs - 1) bs"
    using ok(1) by (simp add: slice_def butlast_conv_take take_drop)
  have "is_ok (decode_frame ?cs)"
    unfolding decode_frame_def l sl Let_def
    using ok(1-5) c nth [of 0] nth [of 1] nth [of 4] by simp
  moreover have "c \<noteq> last bs" using ok(6) c by auto
  ultimately show ?thesis using that by blast
qed

text \<open>
  C10: \<open>decode_frame\<close> is total on Python objects: it returns a frame that encodes back,
  or raises \<open>ProtocolError\<close> or its subclass \<open>CRCError\<close>, and \<open>CRCError\<close> means that the
  CRC byte is the only thing wrong: with the right one the frame would be accepted.
\<close>

theorem decode_frame_outcomes:
  "(case decode_frame_obj v of
      Inr f \<Rightarrow> \<exists>bs. v = PyBytes bs \<and> encode_frame f = Inr bs
    | Inl e \<Rightarrow> exc_class e = ProtocolError \<or>
        (exc_class e = CRCError \<and> (\<exists>bs c. v = PyBytes bs \<and> c \<noteq> last bs \<and>
           is_ok (decode_frame (butlast bs @ [c])))))"
proof (cases v)
  case (PyBytes bs)
  show ?thesis
  proof (cases "decode_frame bs")
    case (Inl e)
    then have "exc_class e = ProtocolError \<or> exc_class e = CRCError"
      using decode_frame_error_class by auto
    with Inl PyBytes show ?thesis
      by (auto simp: decode_frame_obj_def elim: decode_crc_only)
  next
    case (Inr f)
    then have "encode_frame f = Inr bs" by (simp add: decode_frame_iff encode_frame_iff)
    with Inr PyBytes show ?thesis by (simp add: decode_frame_obj_def)
  qed
qed (simp_all add: decode_frame_obj_def)

section \<open>Corrupted frames\<close>

text \<open>
  C5: a valid frame with one, two or three wrong bits, wherever they are, the length
  byte included, is never accepted.
\<close>

theorem few_wrong_bits_detected:
  assumes "valid_frame f" "length es = length (wire f)"
    and "0 < wrong_bits es" "wrong_bits es \<le> 3"
  shows "\<not> is_ok (decode_frame (xor_bytes (wire f) es))"
  using assms by (rule decode_few_wrong_bits)

theorem few_wrong_bits_detected_witness:
  "\<not> is_ok (decode_frame (xor_bytes (wire (mk_frame 1 16 [])) [0, 0, 0, 0, 1, 3]))"
proof -
  have "wrong_bits [0, 0, 0, 0, 1, 3] = 3" by code_simp
  then show ?thesis
    by (intro few_wrong_bits_detected)
      (simp_all add: valid_frame_def mk_frame_def MAX_PAYLOAD_def length_wire)
qed

text \<open>
  C6: a frame with a burst of errors that spans at most eight bits is never accepted.
\<close>

theorem burst_detected:
  assumes "length es = length (wire f)"
    and "bits_of es = replicate i False @ b @ replicate k False"
    and "True \<in> set b" "length b \<le> 8"
  shows "\<not> is_ok (decode_frame (xor_bytes (wire f) es))"
  using assms by (rule decode_burst)

theorem burst_detected_witness:
  "\<not> is_ok (decode_frame (xor_bytes (wire (mk_frame 1 16 [])) [0, 0, 0, 0, 3, 0x80]))"
proof -
  have "bits_of [0, 0, 0, 0, 3, 0x80] = replicate 38 False @ [True, True, True] @ replicate 7 False"
    by code_simp
  then show ?thesis
    by (rule burst_detected [rotated]) (simp_all add: mk_frame_def length_wire)
qed


section \<open>Status payloads\<close>

text \<open>
  The payloads that the documented protocol defines: octets, and unsigned integers of
  two and four bytes with the low byte first.
\<close>

definition words_le :: "nat \<Rightarrow> int list \<Rightarrow> bytes" where
  "words_le n ws = concat (map (to_bytes_le n) ws)"

definition fits :: "nat \<Rightarrow> int list \<Rightarrow> bool" where
  "fits n ws \<longleftrightarrow> (\<forall>w \<in> set ws. 0 \<le> w \<and> w < 256 ^ n)"

lemma length_to_bytes_le [simp]: "length (to_bytes_le n i) = n"
  by (induction n arbitrary: i) simp_all

lemma slice_append:
  "slice 0 n (xs @ ys) = xs" if "length xs = n"
  using that by (simp add: slice_def)

lemma slice_shift: "length xs = n \<Longrightarrow> slice (n + i) (n + j) (xs @ ys) = slice i j ys"
  by (simp add: slice_def)

lemma slices_4:
  assumes "p = a @ b @ c @ d" "length a = 2" "length b = 2" "length c = 2" "length d = 2"
  shows "slice 0 2 p = a" "slice 2 4 p = b" "slice 4 6 p = c" "slice 6 8 p = d"
  using assms by (auto simp: slice_def)

text \<open>
  C35: the three statuses of four 16-bit counters decode every payload that the
  protocol defines to exactly its four values.
\<close>

theorem word_status_round_trip:
  assumes "fits 2 [a, b, c, d]"
  shows "decode_timing_status (mk_frame TYPE_TIMING_STATUS s (words_le 2 [a, b, c, d])) =
      Inr \<lparr>actuator_ticks = a, control_ticks = b, sensor_safety_ticks = c,
        communication_ticks = d\<rparr> \<and>
    decode_jitter_status (mk_frame TYPE_JITTER_STATUS s (words_le 2 [a, b, c, d])) =
      Inr \<lparr>actuator_ms = a, control_ms = b, sensor_safety_ms = c, communication_ms = d\<rparr> \<and>
    decode_overrun_status (mk_frame TYPE_OVERRUN_STATUS s (words_le 2 [a, b, c, d])) =
      Inr \<lparr>actuator = a, control = b, sensor_safety = c, communication = d\<rparr>"
proof -
  have w: "words_le 2 [a, b, c, d] = to_bytes_le 2 a @ to_bytes_le 2 b @ to_bytes_le 2 c @ to_bytes_le 2 d"
    by (simp add: words_le_def)
  note sl = slices_4 [OF w]
  have v: "from_bytes_le (to_bytes_le 2 a) = a" "from_bytes_le (to_bytes_le 2 b) = b"
    "from_bytes_le (to_bytes_le 2 c) = c" "from_bytes_le (to_bytes_le 2 d) = d"
    using assms by (simp_all add: fits_def from_to_bytes_le)
  have l: "length (words_le 2 [a, b, c, d]) = 8" by (simp add: w)
  show ?thesis
    by (simp add: decoder_defs expect_status_def mk_frame_def l sl v)
qed

theorem word_status_round_trip_witness:
  "decode_overrun_status (mk_frame TYPE_OVERRUN_STATUS 7 [1, 0, 0, 1, 0xFF, 0xFF, 0, 0]) =
     Inr \<lparr>actuator = 1, control = 256, sensor_safety = 65535, communication = 0\<rparr>"
proof -
  have "fits 2 [1, 256, 65535, 0]" by (simp add: fits_def)
  moreover have "words_le 2 [1, 256, 65535, 0] = [1, 0, 0, 1, 0xFF, 0xFF, 0, 0]" by code_simp
  ultimately show ?thesis using word_status_round_trip [where a = 1 and b = 256 and c = 65535 and d = 0 and s = 7] by simp
qed

text \<open>
  C36: the CPU load and the runtime memory payloads decode to exactly their values.
\<close>

theorem load_and_memory_round_trip:
  assumes "fits 4 [u, e]" "fits 2 [m, p, q]"
  shows "decode_cpu_load_status (mk_frame TYPE_CPU_LOAD_STATUS s (words_le 4 [u, e])) =
      Inr \<lparr>busy_ticks = u, elapsed_ms = e\<rparr> \<and>
    decode_runtime_memory_status
        (mk_frame TYPE_RUNTIME_MEMORY_STATUS s (words_le 2 [m, p, q])) =
      Inr \<lparr>min_free_bytes = m, painted_bytes = p, used_painted_bytes = q\<rparr>"
proof -
  have "from_bytes_le (to_bytes_le 4 u) = u" "from_bytes_le (to_bytes_le 4 e) = e"
    "from_bytes_le (to_bytes_le 2 m) = m" "from_bytes_le (to_bytes_le 2 p) = p"
    "from_bytes_le (to_bytes_le 2 q) = q"
    using assms by (simp_all add: fits_def from_to_bytes_le)
  then show ?thesis
    by (simp add: decoder_defs expect_status_def mk_frame_def words_le_def slice_def)
qed

theorem load_and_memory_round_trip_witness:
  "decode_cpu_load_status (mk_frame TYPE_CPU_LOAD_STATUS 0x70 [0x40, 0x42, 0x0F, 0, 0xE8, 3, 0, 0]) =
     Inr \<lparr>busy_ticks = 1000000, elapsed_ms = 1000\<rparr>"
proof -
  have "fits 4 [1000000, 1000]" "fits 2 [0, 0, 0]" by (simp_all add: fits_def)
  moreover have "words_le 4 [1000000, 1000] = [0x40, 0x42, 0x0F, 0, 0xE8, 3, 0, 0]" by code_simp
  ultimately show ?thesis
    using load_and_memory_round_trip [where u = 1000000 and e = 1000 and m = 0 and p = 0 and q = 0 and s = 112] by simp
qed

text \<open>
  \<open>accepts dcd ok\<close>: the decoder returns a value exactly on the frames that satisfy \<open>ok\<close>
  and raises \<open>ProtocolError\<close> on all others.
\<close>

definition accepts :: "(frame \<Rightarrow> 'a res) \<Rightarrow> (frame \<Rightarrow> bool) \<Rightarrow> bool" where
  "accepts dcd ok \<longleftrightarrow>
     (\<forall>f. case dcd f of Inr _ \<Rightarrow> ok f | Inl e \<Rightarrow> exc_class e = ProtocolError \<and> \<not> ok f)"

text \<open>
  C37: each decoder accepts exactly the frames of its type and payload length (the
  watchdog decoder moreover only the markers 0 and 1) and raises \<open>ProtocolError\<close> on
  every other frame.
\<close>

theorem decoders_accept:
  "accepts decode_comm_status (\<lambda>f. frame_type f = 0x83 \<and> length (payload f) = 3) \<and>
   accepts decode_timing_status (\<lambda>f. frame_type f = 0x84 \<and> length (payload f) = 8) \<and>
   accepts decode_jitter_status (\<lambda>f. frame_type f = 0x85 \<and> length (payload f) = 8) \<and>
   accepts decode_runtime_memory_status (\<lambda>f. frame_type f = 0x86 \<and> length (payload f) = 6) \<and>
   accepts decode_cpu_load_status (\<lambda>f. frame_type f = 0x87 \<and> length (payload f) = 8) \<and>
   accepts decode_overrun_status (\<lambda>f. frame_type f = 0x88 \<and> length (payload f) = 8) \<and>
   accepts decode_reset_cause (\<lambda>f. frame_type f = 0x89 \<and> length (payload f) = 1) \<and>
   accepts decode_watchdog_status (\<lambda>f. frame_type f = 0x8B \<and> payload f \<in> {[0], [1]})"
proof -
  have marker: "payload f \<in> {[0], [1]} \<longleftrightarrow> length (payload f) = 1 \<and> uint (payload f ! 0) \<in> {0, 1}"
    for f :: frame
    by (cases "payload f") (auto simp: word_uint_eq_iff)
  show ?thesis
    unfolding marker
    by (intro conjI)
      (auto simp: accepts_def decoder_defs decode_watchdog_status_def expect_status_def type_defs
        split: sum.split if_splits)
qed



text \<open>
  The WDRF test reads exactly bit 3 of the reset cause.
\<close>

theorem reset_cause_bit: "reset_cause_has_wdrf c \<longleftrightarrow> bit c 3"
proof -
  have "c AND push_bit 3 1 = (if bit c 3 then push_bit 3 1 else 0)"
    by (rule bit_eqI) (auto simp only: bit_and_iff bit_push_bit_iff bit_1_iff bit_0_eq split: if_splits; simp)
  then show ?thesis by (simp add: reset_cause_has_wdrf_def MCUSR_WDRF_MASK_def)
qed

end
