(* ===== verification/Host_Env.thy ===== *)
theory Host_Env
  imports Transactions
begin

text \<open>
  The whole environment of a mode of \<open>supervisor/main.py\<close>: the serial line, its clock
  and the files of one operating system, with the contracts of a transaction, a sleep
  and a session, and the proof that the concrete world satisfies them.
\<close>

section \<open>The environment\<close>

text \<open>The link moves data but touches no file; the file calls move no data.\<close>

locale host_env =
  tty_progress os rx tx clock tick + text_files os ftext fpath +
  ser: io_frame os "\<lambda>w. (ftext w, fpath w)" +
  fil: file_frame os "\<lambda>w. (rx w, tx w)"
  for os :: "'w os" and rx tx :: "'w \<Rightarrow> bytes" and clock :: "'w \<Rightarrow> rat" and tick
    and ftext :: "'w \<Rightarrow> string \<Rightarrow> string option" and fpath :: "'w \<Rightarrow> int \<Rightarrow> string option" +
  assumes open_io: "os_open os p w = (ri, w') \<Longrightarrow> rx w' = rx w \<and> tx w' = tx w"
    and close_io: "os_close os fd w = (ru, w') \<Longrightarrow> rx w' = rx w \<and> tx w' = tx w"
    and getattr_io: "os_tcgetattr os fd w = (ra, w') \<Longrightarrow> rx w' = rx w \<and> tx w' = tx w"
    and setattr_io: "os_tcsetattr os fd a w = (ru, w') \<Longrightarrow> rx w' = rx w \<and> tx w' = tx w"
begin

lemma wp_files_frame:
  assumes "wp m (\<lambda>x t. \<exists>w'. t = h\<lparr>world := w'\<rparr> \<and> P x w') (\<lambda>e t. \<exists>w'. t = h\<lparr>world := w'\<rparr> \<and> R e w') h"
    and "keeps (\<lambda>h. (ftext (world h), fpath (world h))) m"
    and "\<And>x w'. P x w' \<Longrightarrow> ftext w' = ftext (world h) \<Longrightarrow> fpath w' = fpath (world h) \<Longrightarrow>
           Q x (h\<lparr>world := w'\<rparr>)"
    and "\<And>e w'. R e w' \<Longrightarrow> ftext w' = ftext (world h) \<Longrightarrow> fpath w' = fpath (world h) \<Longrightarrow>
           E e (h\<lparr>world := w'\<rparr>)"
  shows "wp m Q E h"
  using wp_conj [OF assms(1) keeps_wp [OF assms(2)]]
  by (rule wp_mono) (use assms(3,4) in auto)

lemma wp_transact_env:
  assumes "valid_frame r"
    and "\<And>f w'. valid_frame f \<Longrightarrow> rx w' = rx (world h) @ wire f \<Longrightarrow>
        tx w' = tx (world h) @ wire r \<Longrightarrow> ftext w' = ftext (world h) \<Longrightarrow>
        fpath w' = fpath (world h) \<Longrightarrow> Q f (h\<lparr>world := w'\<rparr>)"
    and "\<And>e w'. ftext w' = ftext (world h) \<Longrightarrow> fpath w' = fpath (world h) \<Longrightarrow> E e (h\<lparr>world := w'\<rparr>)"
  shows "wp (transact os r) Q E h"
  by (rule wp_files_frame [where R = "\<lambda>_ _. True" and
        P = "\<lambda>f w'. valid_frame f \<and> rx w' = rx (world h) @ wire f \<and> tx w' = tx (world h) @ wire r"])
    (auto intro!: wp_transact [OF assms(1)] ser.v_transactions assms(2,3))

lemma wp_request_status_env:
  assumes "valid_frame (mk_frame ty s [])"
    and "\<And>f x w'. valid_frame f \<Longrightarrow> sequence f = s \<Longrightarrow> dcd f = Inr x \<Longrightarrow>
        rx w' = rx (world h) @ wire f \<Longrightarrow> tx w' = tx (world h) @ wire (mk_frame ty s []) \<Longrightarrow>
        ftext w' = ftext (world h) \<Longrightarrow> fpath w' = fpath (world h) \<Longrightarrow> Q x (h\<lparr>world := w'\<rparr>)"
    and "\<And>e w'. ftext w' = ftext (world h) \<Longrightarrow> fpath w' = fpath (world h) \<Longrightarrow> E e (h\<lparr>world := w'\<rparr>)"
  shows "wp (request_status os ty s name dcd) Q E h"
  by (rule wp_files_frame [where R = "\<lambda>_ _. True" and
        P = "\<lambda>x w'. \<exists>f. valid_frame f \<and> sequence f = s \<and> dcd f = Inr x \<and>
          rx w' = rx (world h) @ wire f \<and> tx w' = tx (world h) @ wire (mk_frame ty s [])"])
    (auto intro!: wp_request_status [OF assms(1)] ser.v_transactions assms(2,3))

text \<open>A sleep moves no data; one that is refused changes nothing at all.\<close>

lemma wp_py_sleep_env:
  assumes "\<And>w'. rx w' = rx (world h) \<Longrightarrow> tx w' = tx (world h) \<Longrightarrow> ftext w' = ftext (world h) \<Longrightarrow>
        fpath w' = fpath (world h) \<Longrightarrow> Q () (h\<lparr>world := w'\<rparr>)"
    and "\<And>e. E e h"
  shows "wp (py_sleep os x) Q E h"
proof (cases x)
  case (Fin r)
  have "ftext (os_sleep os r (world h)) = ftext (world h)"
    "fpath (os_sleep os r (world h)) = fpath (world h)"
    using ser.v_sleep [of r "world h"] by auto
  with Fin sleep_io [of r "world h"] assms show ?thesis
    by (auto simp: py_sleep_def)
qed (use assms(2) in \<open>simp_all add: py_sleep_def\<close>)

text \<open>A logged row moves no data; a failed write leaves a prefix of the row.\<close>

lemma wp_csv_write_env:
  assumes "csv_file h = Some k" "fpath (world h) k = Some p" "ftext (world h) p = Some c"
    and "\<And>w'. ftext w' = (ftext (world h))(p \<mapsto> c @ csv_row fs) \<Longrightarrow> fpath w' = fpath (world h) \<Longrightarrow>
        rx w' = rx (world h) \<Longrightarrow> tx w' = tx (world h) \<Longrightarrow> Q () (h\<lparr>world := w'\<rparr>)"
    and "\<And>e n w'. ftext w' = (ftext (world h))(p \<mapsto> c @ take n (csv_row fs)) \<Longrightarrow>
        fpath w' = fpath (world h) \<Longrightarrow> E e (h\<lparr>world := w'\<rparr>)"
  shows "wp (csv_logger_write os name fs) Q E h"
proof -
  have "wp (csv_logger_write os name fs)
      (\<lambda>_ t. \<exists>w'. t = h\<lparr>world := w'\<rparr> \<and> ftext w' = (ftext (world h))(p \<mapsto> c @ csv_row fs) \<and>
         fpath w' = fpath (world h))
      (\<lambda>e t. \<exists>w' n. t = h\<lparr>world := w'\<rparr> \<and> ftext w' = (ftext (world h))(p \<mapsto> c @ take n (csv_row fs)) \<and>
         fpath w' = fpath (world h)) h"
    by (rule wp_csv_logger_write [OF assms(1-3)]) auto
  from wp_conj [OF this keeps_wp [OF fil.u_csv_write]]
  show ?thesis by (rule wp_mono) (use assms(4,5) in auto)
qed

lemma wp_with_csv_env:
  assumes "\<And>k w'. ftext w' = (ftext (world h))(path_str p \<mapsto> csv_row cols) \<Longrightarrow>
        fpath w' k = Some (path_str p) \<Longrightarrow> rx w' = rx (world h) \<Longrightarrow> tx w' = tx (world h) \<Longrightarrow>
        wp body
          (\<lambda>x t. \<forall>w. rx w = rx (world t) \<longrightarrow> tx w = tx (world t) \<longrightarrow> ftext w = ftext (world t) \<longrightarrow>
             Q x (t\<lparr>csv_file := None, world := w\<rparr>) \<and> (\<forall>e. E e (t\<lparr>csv_file := None, world := w\<rparr>)))
          (\<lambda>_ t. \<forall>e w. ftext w = ftext (world t) \<longrightarrow> E e (t\<lparr>csv_file := None, world := w\<rparr>))
          (h\<lparr>csv_file := Some k, world := w'\<rparr>)"
    and "\<And>e k w'. ftext w' = ftext (world h) \<or>
          (\<exists>n. ftext w' = (ftext (world h))(path_str p \<mapsto> take n (csv_row cols))) \<Longrightarrow>
        E e (h\<lparr>csv_file := k, world := w'\<rparr>)"
  shows "wp (with_csv_logger os name cols p body) Q E h"
proof -
  let ?g = "h\<lparr>csv_file := None\<rparr>"
  have opn: "wp (csv_logger_open os name cols p)
      (\<lambda>_ t. \<exists>k w'. t = h\<lparr>csv_file := Some k, world := w'\<rparr> \<and> fpath w' k = Some (path_str p) \<and>
         ftext w' = (ftext (world h))(path_str p \<mapsto> csv_row cols))
      (\<lambda>e t. \<exists>k w'. t = h\<lparr>csv_file := k, world := w'\<rparr> \<and>
         (ftext w' = ftext (world h) \<or>
            (\<exists>n. ftext w' = (ftext (world h))(path_str p \<mapsto> take n (csv_row cols))))) ?g"
    by (rule wp_csv_logger_open) auto
  have cls: "wp (csv_logger_close os) Q' E t"
    if "\<And>w. rx w = rx (world t) \<Longrightarrow> tx w = tx (world t) \<Longrightarrow> ftext w = ftext (world t) \<Longrightarrow>
          Q' () (t\<lparr>csv_file := None, world := w\<rparr>) \<and> (\<forall>e. E e (t\<lparr>csv_file := None, world := w\<rparr>))"
    for Q' t
  proof -
    have "wp (csv_logger_close os)
        (\<lambda>_ u. \<exists>w. u = t\<lparr>csv_file := None, world := w\<rparr> \<and> ftext w = ftext (world t))
        (\<lambda>_ u. \<exists>w. u = t\<lparr>csv_file := None, world := w\<rparr> \<and> ftext w = ftext (world t)) t"
      by (rule wp_csv_logger_close) auto
    from wp_conj [OF this keeps_wp [OF fil.u_csv_close]]
    show ?thesis by (rule wp_mono) (use that in auto)
  qed
  show ?thesis
    unfolding with_csv_logger_def wp_bind wp_modify wp_try_finally
  proof (rule wp_mono [OF wp_conj [OF opn keeps_wp [OF fil.u_csv_open]]], goal_cases)
    case (1 u t)
    then obtain k w' where t: "t = h\<lparr>csv_file := Some k, world := w'\<rparr>"
      "fpath w' k = Some (path_str p)" "ftext w' = (ftext (world h))(path_str p \<mapsto> csv_row cols)"
      "rx w' = rx (world h)" "tx w' = tx (world h)" by auto
    show ?case
      unfolding t(1) by (rule wp_mono [OF assms(1) [OF t(3,2,4,5)]]; rule cls) blast+
  next
    case (2 e t)
    with assms(2) show ?case by auto
  qed
qed

text \<open>
  A session opens the link, moves no data in doing so, and closes it on every exit of
  its body.
\<close>

lemma wp_serial_open_env:
  assumes "link_fd h = None"
    and "\<And>fd w'. rx w' = rx (world h) \<Longrightarrow> tx w' = tx (world h) \<Longrightarrow> ftext w' = ftext (world h) \<Longrightarrow>
        fpath w' = fpath (world h) \<Longrightarrow> Q () (h\<lparr>link_fd := Some fd, world := w'\<rparr>)"
    and "\<And>e w'. ftext w' = ftext (world h) \<Longrightarrow> fpath w' = fpath (world h) \<Longrightarrow>
        E e (h\<lparr>link_fd := None, world := w'\<rparr>)"
  shows "wp (serial_open os p) Q E h"
proof -
  have h0: "h\<lparr>link_fd := None, world := w\<rparr> = h\<lparr>world := w\<rparr>" for w
    using assms(1) by (cases h) simp
  obtain ro w1 where o: "os_open os p (world h) = (ro, w1)" by fastforce
  note io1 = open_io [OF o] ser.v_open [OF o]
  show ?thesis
  proof (cases ro)
    case (Inl e)
    with o io1 assms(1) assms(3) [of w1 e] h0 [of w1] show ?thesis by (simp add: serial_open_def)
  next
    case (Inr fd)
    obtain ra w2 where g: "os_tcgetattr os fd w1 = (ra, w2)" by fastforce
    note io2 = getattr_io [OF g] ser.v_getattr [OF g]
    have abort: "wp (bind_prog (call (os_close os fd)) (\<lambda>_. lift_res (Inl e))) Q E (h\<lparr>world := w\<rparr>)"
      if "ftext w = ftext (world h)" "fpath w = fpath (world h)" for e w
    proof -
      obtain rc w' where c: "os_close os fd w = (rc, w')" by fastforce
      with that ser.v_close [OF c] assms(3) [of w'] h0 [of w'] show ?thesis
        by (cases rc) simp_all
    qed
    have fail: "E e (h\<lparr>world := w\<rparr>)" if "ftext w = ftext (world h)" "fpath w = fpath (world h)" for e w
      using that assms(3) [of w e] h0 [of w] by simp
    show ?thesis
    proof (cases ra)
      case (Inl e)
      with o \<open>ro = Inr fd\<close> g io1 io2 assms(1) abort [of w2 e] fail [of w2 e] show ?thesis
        by (simp add: serial_open_def)
    next
      case (Inr a)
      obtain rs w3 where s: "os_tcsetattr os fd (raw_9600 a) w2 = (rs, w3)" by fastforce
      note io3 = setattr_io [OF s] ser.v_setattr [OF s]
      have upd: "h\<lparr>world := w3, link_fd := Some fd\<rparr> = h\<lparr>link_fd := Some fd, world := w3\<rparr>" by simp
      have "Q () (h\<lparr>world := w3, link_fd := Some fd\<rparr>)"
        unfolding upd by (rule assms(2)) (use io1 io2 io3 in simp_all)
      then show ?thesis
        using o \<open>ro = Inr fd\<close> g Inr s io1 io2 io3 assms(1) abort [of w3] fail [of w3]
        by (cases rs) (simp_all add: serial_open_def)
    qed
  qed
qed

lemma wp_with_link_env:
  assumes "\<And>fd w'. rx w' = rx (world h) \<Longrightarrow> tx w' = tx (world h) \<Longrightarrow> ftext w' = ftext (world h) \<Longrightarrow>
        fpath w' = fpath (world h) \<Longrightarrow>
        wp body
          (\<lambda>x t. \<forall>w. rx w = rx (world t) \<longrightarrow> tx w = tx (world t) \<longrightarrow> ftext w = ftext (world t) \<longrightarrow>
             fpath w = fpath (world t) \<longrightarrow> Q x (t\<lparr>link_fd := None, world := w\<rparr>) \<and>
             (\<forall>e. E e (t\<lparr>link_fd := None, world := w\<rparr>)))
          (\<lambda>_ t. \<forall>e w. ftext w = ftext (world t) \<longrightarrow> fpath w = fpath (world t) \<longrightarrow>
             E e (t\<lparr>link_fd := None, world := w\<rparr>))
          (h\<lparr>link_fd := Some fd, world := w'\<rparr>)"
    and "\<And>e w'. ftext w' = ftext (world h) \<Longrightarrow> fpath w' = fpath (world h) \<Longrightarrow>
        E e (h\<lparr>link_fd := None, world := w'\<rparr>)"
  shows "wp (with_link os p body) Q E h"
  unfolding with_link_def wp_bind wp_modify wp_try_finally
proof (rule wp_serial_open_env, goal_cases)
  case (2 fd w')
  have close: "wp (serial_close os) Q' E t"
    if "\<And>w. rx w = rx (world t) \<Longrightarrow> tx w = tx (world t) \<Longrightarrow> ftext w = ftext (world t) \<Longrightarrow>
          fpath w = fpath (world t) \<Longrightarrow> Q' () (t\<lparr>link_fd := None, world := w\<rparr>) \<and>
          (\<forall>e. E e (t\<lparr>link_fd := None, world := w\<rparr>))" for Q' t
  proof (cases "link_fd t")
    case None
    then have "t\<lparr>link_fd := None, world := world t\<rparr> = t" by (cases t) simp
    with None that [of "world t"] show ?thesis by (simp add: serial_close_def)
  next
    case (Some fd)
    obtain rc w where c: "os_close os fd (world t) = (rc, w)" by fastforce
    with Some that [of w] close_io [OF c] ser.v_close [OF c] show ?thesis
      by (cases rc) (simp_all add: serial_close_def)
  qed
  have "h\<lparr>link_fd := None, link_fd := Some fd, world := w'\<rparr> = h\<lparr>link_fd := Some fd, world := w'\<rparr>"
    by simp
  with 2 show ?case
    by (simp only:) (rule wp_mono [OF assms(1)]; (rule close)?; simp)
next
  case (3 e w')
  with assms(2) [of w' e] show ?case by simp
qed simp

end

section \<open>Conversations\<close>

text \<open>
  \<open>talks rx tx m qs R\<close>: whenever \<open>m\<close> returns a value, it has sent exactly the requests
  \<open>qs\<close> and consumed exactly one answer to each, in order; \<open>R\<close> relates the answers to
  the printed lines and the value.
\<close>

definition talks ::
  "('w \<Rightarrow> bytes) \<Rightarrow> ('w \<Rightarrow> bytes) \<Rightarrow> (('w, 'z) host_scheme, 'a) prog \<Rightarrow> frame list \<Rightarrow>
     (frame list \<Rightarrow> string list \<Rightarrow> 'a \<Rightarrow> bool) \<Rightarrow> bool" where
  "talks rx tx m qs R \<longleftrightarrow>
     (\<forall>h x h'. m h = Some (Inr x, h') \<longrightarrow>
        (\<exists>fs ls. tx (world h') = tx (world h) @ concat (map wire qs) \<and>
           rx (world h') = rx (world h) @ concat (map wire fs) \<and> out h' = out h @ ls \<and>
           list_all2 answers qs fs \<and> R fs ls x))"

named_theorems talks_intros \<open>rules for conversations\<close>

lemma talksI:
  assumes "\<And>h. wp m (\<lambda>x h'. \<exists>fs ls. tx (world h') = tx (world h) @ concat (map wire qs) \<and>
      rx (world h') = rx (world h) @ concat (map wire fs) \<and> out h' = out h @ ls \<and>
      list_all2 answers qs fs \<and> R fs ls x) (\<lambda>_ _. True) h"
  shows "talks rx tx m qs R"
  unfolding talks_def using wp_resultD(1) [OF assms] by blast

lemma talks_wp:
  "talks rx tx m qs R \<Longrightarrow>
     wp m (\<lambda>x h'. \<exists>fs ls. tx (world h') = tx (world h) @ concat (map wire qs) \<and>
        rx (world h') = rx (world h) @ concat (map wire fs) \<and> out h' = out h @ ls \<and>
        list_all2 answers qs fs \<and> R fs ls x) (\<lambda>_ _. True) h"
  by (rule wp_I) (auto simp: talks_def)

text \<open>Two programs in sequence: their conversations are concatenated.\<close>

lemma talks_seq [talks_intros]:
  assumes "talks rx tx m qs R" "\<And>x. talks rx tx (k x) qs' (R' x)" "rs = qs @ qs'"
    and S: "\<And>gs gs' ls' ls'' x y. list_all2 answers qs gs \<Longrightarrow> R gs ls' x \<Longrightarrow> R' x gs' ls'' y \<Longrightarrow>
      S (gs @ gs') (ls' @ ls'') y"
  shows "talks rx tx (bind_prog m k) rs S"
  unfolding talks_def
proof (intro allI impI)
  fix h y h'
  assume "bind_prog m k h = Some (Inr y, h')"
  then obtain x h1 where 1: "m h = Some (Inr x, h1)" and 2: "k x h1 = Some (Inr y, h')"
    by (auto simp: bind_prog_def split: option.splits prod.splits sum.splits)
  from assms(1) 1 obtain fs ls where a:
    "tx (world h1) = tx (world h) @ concat (map wire qs)"
    "rx (world h1) = rx (world h) @ concat (map wire fs)"
    "out h1 = out h @ ls" "list_all2 answers qs fs" "R fs ls x"
    unfolding talks_def by blast
  from assms(2) [of x] 2 obtain fs' ls' where b:
    "tx (world h') = tx (world h1) @ concat (map wire qs')"
    "rx (world h') = rx (world h1) @ concat (map wire fs')"
    "out h' = out h1 @ ls'" "list_all2 answers qs' fs'" "R' x fs' ls' y"
    unfolding talks_def by blast
  show "\<exists>fs ls. tx (world h') = tx (world h) @ concat (map wire rs) \<and>
      rx (world h') = rx (world h) @ concat (map wire fs) \<and> out h' = out h @ ls \<and>
      list_all2 answers rs fs \<and> S fs ls y"
    by (rule exI [of _ "fs @ fs'"], rule exI [of _ "ls @ ls'"])
      (use a b assms(3) S [OF a(4,5) b(5)] in \<open>auto intro: list_all2_appendI\<close>)
qed

lemma talks_bind:
  assumes "talks rx tx m qs R" "\<And>x. talks rx tx (k x) qs' (R' x)"
  shows "talks rx tx (bind_prog m k) (qs @ qs')
    (\<lambda>fs ls y. \<exists>gs gs' ls' ls'' x. fs = gs @ gs' \<and> ls = ls' @ ls'' \<and> R gs ls' x \<and> R' x gs' ls'' y)"
  by (rule talks_seq [OF assms refl]) blast

lemma talks_mono:
  assumes "talks rx tx m qs R" "qs = qs'"
    and "\<And>fs ls x. list_all2 answers qs fs \<Longrightarrow> R fs ls x \<Longrightarrow> S fs ls x"
  shows "talks rx tx m qs' S"
  using assms unfolding talks_def by blast

lemma talks_print [talks_intros]:
  "talks rx tx (print_line l) [] (\<lambda>fs ls _. fs = [] \<and> ls = [l])"
  "talks rx tx (print_lines ms) [] (\<lambda>fs ls _. fs = [] \<and> ls = ms)"
  by (rule talksI; simp)+

lemma talks_ret [talks_intros]: "talks rx tx (ret v) [] (\<lambda>fs ls x. fs = [] \<and> ls = [] \<and> x = v)"
  by (rule talksI) simp

lemma talks_lift_res [talks_intros]:
  "talks rx tx (lift_res r) [] (\<lambda>fs ls x. fs = [] \<and> ls = [] \<and> r = Inr x)"
  by (rule talksI) (simp split: sum.split)

lemma talks_when:
  assumes "talks rx tx m qs R"
  shows "talks rx tx (when_prog b m) (if b then qs else [])
    (\<lambda>fs ls x. if b then R fs ls x else fs = [] \<and> ls = [])"
  using assms talks_ret [of rx tx "()"] by (auto simp: when_prog_def talks_def)

context host_env
begin

lemma talks_sleep [talks_intros]: "talks rx tx (py_sleep os x) [] (\<lambda>fs ls _. fs = [] \<and> ls = [])"
  by (rule talksI, rule wp_py_sleep_env) auto

text \<open>A request whose check accepts only answers to it.\<close>

lemma talks_transact:
  assumes "valid_frame q" "\<And>f. valid_frame f \<Longrightarrow> chk f = Inr () \<Longrightarrow> answers q f"
  shows "talks rx tx (bind_prog (transact os q) (\<lambda>f. lift_res (chk f))) [q]
    (\<lambda>fs ls _. \<exists>f. fs = [f] \<and> chk f = Inr () \<and> ls = [])"
proof (rule talksI, unfold wp_bind, rule wp_transact_env [OF assms(1)], goal_cases)
  case (1 h f w')
  then show ?case
    using assms(2) [of f] by (auto split: sum.split intro!: exI [of _ "[f]"])
qed simp

lemma talks_check:
  assumes "valid_frame q" "\<And>f. valid_frame f \<Longrightarrow> chk f = Inr () \<Longrightarrow> answers q f"
    and "talks rx tx k qs R"
    and "\<And>f fs ls x. chk f = Inr () \<Longrightarrow> R fs ls x \<Longrightarrow> S (f # fs) ls x"
  shows "talks rx tx (bind_prog (transact os q) (\<lambda>f. bind_prog (lift_res (chk f)) (\<lambda>_. k))) (q # qs) S"
  unfolding bind_assoc_prog [symmetric]
  by (rule talks_seq [OF talks_transact [OF assms(1,2)] assms(3)]) (auto intro: assms(4))

lemma talks_request_status:
  assumes "valid_frame (mk_frame ty s [])"
    and "\<And>f x. valid_frame f \<Longrightarrow> sequence f = s \<Longrightarrow> dcd f = Inr x \<Longrightarrow> answers (mk_frame ty s []) f"
  shows "talks rx tx (request_status os ty s name dcd) [mk_frame ty s []]
    (\<lambda>fs ls x. \<exists>f. fs = [f] \<and> dcd f = Inr x \<and> ls = [])"
proof (rule talksI, rule wp_request_status_env [OF assms(1)], goal_cases)
  case (1 h f x w')
  then show ?case
    using assms(2) [of f x] by (auto intro!: exI [of _ "[f]"])
qed simp

text \<open>The session around a conversation sends and consumes nothing of its own.\<close>

lemma talks_with_link [talks_intros]:
  assumes "talks rx tx m qs R"
  shows "talks rx tx (with_link os p m) qs R"
proof (rule talksI, rule wp_with_link_env, goal_cases)
  case (1 h fd w')
  show ?case
    by (rule wp_I) (use assms 1 in \<open>fastforce simp: talks_def\<close>, simp)
qed simp

end

section \<open>The concrete world\<close>

interpretation line_env: host_env "line_os d" rx_seen tx_sent clk clock_tick lw_text lw_path for d
  by unfold_locales
    (auto simp: line_os_defs lw_text_def lw_path_def Let_def
      split: list.splits if_splits prod.splits option.splits)

end
