(* ===== verification/Link_Laws.thy ===== *)
theory Link_Laws
  imports Host_Env
begin

text \<open>
  The properties of the serial link and of one transaction on a serial line to an
  arbitrary device.
\<close>

section \<open>Reading\<close>

text \<open>
  C7: \<open>read_exact\<close> always returns. On success it has delivered exactly \<open>n\<close> bytes, the
  next ones of the stream, none lost, repeated or reordered; on an error it has
  consumed fewer than \<open>n\<close> (none when its arguments are refused), and it has sent
  nothing either way.
\<close>

theorem read_exact_stream:
  "returns (read_exact (line_os d) n t) h \<and>
   wp (read_exact (line_os d) n t)
     (\<lambda>bs h'. int (length bs) = n \<and> rx_seen (world h') = rx_seen (world h) @ bs \<and>
        tx_sent (world h') = tx_sent (world h))
     (\<lambda>e h'. tx_sent (world h') = tx_sent (world h) \<and>
        (\<exists>cs. rx_seen (world h') = rx_seen (world h) @ cs \<and> (int (length cs) < n \<or> cs = []) \<and>
           (if n < 0 \<or> t < 0 then exc_class e = ValueError \<and> h' = h else True))) h"
proof (rule conjI [OF line.returns_read_exact])
  show "wp (read_exact (line_os d) n t)
     (\<lambda>bs h'. int (length bs) = n \<and> rx_seen (world h') = rx_seen (world h) @ bs \<and>
        tx_sent (world h') = tx_sent (world h))
     (\<lambda>e h'. tx_sent (world h') = tx_sent (world h) \<and>
        (\<exists>cs. rx_seen (world h') = rx_seen (world h) @ cs \<and> (int (length cs) < n \<or> cs = []) \<and>
           (if n < 0 \<or> t < 0 then exc_class e = ValueError \<and> h' = h else True))) h"
  proof (cases "n < 0 \<or> t < 0")
    case True
    then show ?thesis by (auto simp: read_exact_def)
  next
    case False
    show ?thesis by (rule line.wp_read_exact) (use False in auto)
  qed
qed

text \<open>
  C28: a read never gives up early: when it raises \<open>SerialTimeoutError\<close>, its whole
  interval has passed on the clock.
\<close>

theorem read_exact_waits:
  "wp (read_exact (line_os d) n t) (\<lambda>_ _. True)
     (\<lambda>e h'. if exc_class e = SerialTimeoutError then clk (world h) + t \<le> clk (world h') else True) h"
proof -
  obtain t0 w1 where m: "lw_monotonic (world h) = (t0, w1)" by fastforce
  have m': "os_monotonic (line_os d) (world h) = (t0, w1)" using m by (simp add: line_os_def)
  have t0: "t0 = clk w1" "clk (world h) \<le> clk w1" using line.monotonic_clock [OF m'] by auto
  have loop: "case read_loop (line_os d) fd (nat n) (t0 + t) [] w1 of
        None \<Rightarrow> True
      | Some (Inl e, w) \<Rightarrow> exc_class e = SerialTimeoutError \<longrightarrow> clk (world h) + t \<le> clk w
      | Some (Inr x, w) \<Rightarrow> True" for fd
    using line.read_loop_timeout [of d fd "nat n" "t0 + t" "[]" w1] t0
    by (fastforce split: option.split sum.split prod.split)
  show ?thesis
  proof (cases "link_fd h")
    case (Some fd)
    with m' loop [of fd] show ?thesis
      by (auto simp: read_exact_def wp_read_loop split: option.splits prod.splits sum.splits)
  qed (simp add: read_exact_def)
qed

section \<open>Writing\<close>


section \<open>Descriptors\<close>

text \<open>
  C30: opening the port leaks no descriptor: on success exactly one is new and it is the
  object's, and on every failure, the terminal calls included, none is left open.
\<close>

theorem open_leaks_nothing:
  "wp (serial_open (line_os d) p)
     (\<lambda>_ h'. \<exists>fd. link_fd h = None \<and> link_fd h' = Some fd \<and> fd \<notin> line_fds (world h) \<and>
        line_fds (world h') = insert fd (line_fds (world h)))
     (\<lambda>_ h'. link_fd h' = link_fd h \<and> line_fds (world h') = line_fds (world h)) h"
proof (cases "link_fd h")
  case None
  then show ?thesis by (intro line_fd.wp_serial_open) auto
next
  case (Some fd)
  then show ?thesis by (simp add: serial_open_def)
qed

section \<open>Transactions\<close>

text \<open>
  C8: reading one frame always returns; on success exactly the bytes of the returned
  frame have been consumed, so the next read starts at the next frame; on an error at
  most a maximal frame's 14 bytes are gone.
\<close>

theorem read_frame_exactly:
  "returns (read_protocol_frame (line_os d) t) h \<and>
   wp (read_protocol_frame (line_os d) t)
     (\<lambda>f h'. encode_frame f = Inr (drop (length (rx_seen (world h))) (rx_seen (world h'))) \<and>
        rx_seen (world h') = rx_seen (world h) @ wire f \<and> tx_sent (world h') = tx_sent (world h))
     (\<lambda>e h'. tx_sent (world h') = tx_sent (world h) \<and>
        (\<exists>cs. length cs \<le> 14 \<and> rx_seen (world h') = rx_seen (world h) @ cs)) h"
  by (rule conjI [OF line.returns_transactions(1) line.wp_read_protocol_frame])
    (auto simp: encode_frame_wire)

text \<open>
  C31: a status request always returns, and a value comes only from a valid frame with
  the request's own sequence number that answers exactly this request.
\<close>

theorem status_request:
  assumes "0 \<le> s" "s \<le> 255"
  shows "returns (request_comm_status (line_os d) s) h \<and>
   wp (request_comm_status (line_os d) s)
     (\<lambda>x h'. \<exists>f. valid_frame f \<and> sequence f = s \<and> decode_comm_status f = Inr x \<and>
        rx_seen (world h') = rx_seen (world h) @ wire f \<and>
        tx_sent (world h') = tx_sent (world h) @ wire (mk_frame TYPE_GET_COMM_STATUS s []))
     (\<lambda>e h'. \<exists>cs k. length cs \<le> 14 \<and> rx_seen (world h') = rx_seen (world h) @ cs \<and>
        tx_sent (world h') =
          tx_sent (world h) @ take k (wire (mk_frame TYPE_GET_COMM_STATUS s []))) h"
  unfolding request_comm_status_def
  by (rule conjI [OF line.returns_transactions(4) line.wp_request_status])
    (use assms in \<open>auto simp: valid_frame_def TYPE_GET_COMM_STATUS_def\<close>)

theorem status_request_witness:
  "\<forall>d (h :: 'd line_world host). returns (request_comm_status (line_os d) 0x50) h \<and>
     wp (request_comm_status (line_os d) 0x50)
       (\<lambda>x h'. \<exists>f. valid_frame f \<and> sequence f = 0x50 \<and> decode_comm_status f = Inr x) (\<lambda>_ _. True) h"
proof (intro allI conjI)
  fix d and h :: "'d line_world host"
  have b: "(0 :: int) \<le> 0x50" "(0x50 :: int) \<le> 255" by simp_all
  show "returns (request_comm_status (line_os d) 0x50) h"
    using status_request [OF b] by (rule conjunct1)
  show "wp (request_comm_status (line_os d) 0x50)
       (\<lambda>x h'. \<exists>f. valid_frame f \<and> sequence f = 0x50 \<and> decode_comm_status f = Inr x) (\<lambda>_ _. True) h"
    by (rule wp_mono [OF conjunct2 [OF status_request [OF b]]]) blast+
qed

text \<open>
  \<open>require_response\<close> accepts exactly the frame that was expected.
\<close>

theorem response_check:
  "(case require_response f ty s p of
      Inr _ \<Rightarrow> f = mk_frame ty s p
    | Inl e \<Rightarrow> f \<noteq> mk_frame ty s p \<and> exc_class e = SupervisorError)"
  by (cases f) (auto simp: require_response_def mk_frame_def)

text \<open>
  C32: after the recovery from a time-out, no byte that had arrived by then is left in
  the input queue, and only what had arrived is gone.
\<close>

theorem rx_recovery_flushes:
  "wp (recover_rx_after_timeout (line_os d))
     (\<lambda>_ h'. (\<exists>late. arrivals (world h) = late @ arrivals (world h') \<and>
           list_all (\<lambda>(a, b). a \<le> clk (world h')) late) \<and>
        clk (world h') = clk (world h) + RX_TIMEOUT_RECOVERY_SETTLE_SECONDS \<and>
        (case arrivals (world h') of [] \<Rightarrow> True | (a, b) # _ \<Rightarrow> clk (world h') < a))
     (\<lambda>_ h'. h' = h \<and> link_fd h = None) h"
proof -
  have split: "\<exists>late. as = late @ dropWhile (\<lambda>(a, b). a \<le> c) as \<and> list_all (\<lambda>(a, b). a \<le> c) late"
    for as :: "(rat \<times> byte) list" and c
    by (rule exI [of _ "takeWhile (\<lambda>(a, b). a \<le> c) as"]) (auto simp: list_all_iff dest: set_takeWhileD)
  have next_late: "c < a" if "dropWhile (\<lambda>(a, b). a \<le> c) as = (a, b) # bs"
    for as bs :: "(rat \<times> byte) list" and a b c
    using that by (simp add: dropWhile_eq_Cons_conv)
  have r: "0 \<le> RX_TIMEOUT_RECOVERY_SETTLE_SECONDS"
    "RX_TIMEOUT_RECOVERY_SETTLE_SECONDS * 1000000000 < 2 ^ 63"
    by (simp_all add: RX_TIMEOUT_RECOVERY_SETTLE_SECONDS_def)
  show ?thesis
    unfolding recover_rx_after_timeout_def wp_bind wp_require_fd wp_py_sleep_Fin [OF r]
    using r(1) split next_late
    by (auto simp: line_os_def lw_sleep_def lw_tcflush_def max_def split: option.split list.split)
qed

end
