(* ===== verification/Utc_Time.thy ===== *)
theory Utc_Time
  imports Py_Format
begin

text \<open>
  \<open>_utc_timestamp\<close> of \<open>supervisor/dashboard.py\<close>: the UTC time of a number of seconds
  since 1970, as ISO 8601 text with milliseconds, in the Gregorian calendar of
  \<open>datetime\<close>.
\<close>

section \<open>The calendar\<close>

definition is_leap :: "int \<Rightarrow> bool" where
  "is_leap y \<longleftrightarrow> y mod 4 = 0 \<and> (y mod 100 \<noteq> 0 \<or> y mod 400 = 0)"

definition year_days :: "int \<Rightarrow> nat" where
  "year_days y = (if is_leap y then 366 else 365)"

definition month_days :: "int \<Rightarrow> nat list" where
  "month_days y = [31, if is_leap y then 29 else 28, 31, 30, 31, 30, 31, 31, 30, 31, 30, 31]"

text \<open>The year and the day in it, \<open>n\<close> days after the first day of year \<open>y\<close>.\<close>

function split_year :: "int \<Rightarrow> nat \<Rightarrow> int \<times> nat" where
  "split_year y n = (if n < year_days y then (y, n) else split_year (y + 1) (n - year_days y))"
  by auto
termination
  by (relation "measure snd") (auto simp: year_days_def split: if_splits)

declare split_year.simps [simp del]

fun split_month :: "nat \<Rightarrow> nat list \<Rightarrow> nat \<Rightarrow> nat \<times> nat" where
  "split_month m [] n = (m, n)"
| "split_month m (l # ls) n = (if n < l then (m, n) else split_month (Suc m) ls (n - l))"

text \<open>The date of a day, counted from the first of January of year 1.\<close>

definition civil :: "int \<Rightarrow> int \<times> nat \<times> nat" where
  "civil days =
     (let (y, r) = split_year (400 * (days div 146097) + 1) (nat (days mod 146097));
          (m, d) = split_month 1 (month_days y) r
      in (y, m, Suc d))"

section \<open>The text\<close>

definition pad :: "nat \<Rightarrow> nat \<Rightarrow> string" where
  "pad k n = (let s = dec_nat n in replicate (k - length s) CHR ''0'' @ s)"

definition EPOCH_DAYS :: int where
  "EPOCH_DAYS = 719162"

text \<open>\<open>datetime.fromtimestamp\<close> rounds to the nearest microsecond.\<close>

definition epoch_micros :: "rat \<Rightarrow> int" where
  "epoch_micros x = round_half_even (x * 1000000)"

definition utc_timestamp :: "rat \<Rightarrow> string res" where
  "utc_timestamp epoch_seconds =
     (let us = epoch_micros epoch_seconds;
          secs = us div 1000000;
          ms = nat (us mod 1000000 div 1000);
          day = nat (secs mod 86400);
          (y, m, d) = civil (secs div 86400 + EPOCH_DAYS)
      in if secs < - (2 ^ 63) \<or> 2 ^ 63 \<le> secs then
           Inl (Exc OverflowError ''timestamp out of range for platform time_t'')
         else if y - 1900 < - (2 ^ 31) \<or> 2 ^ 31 \<le> y - 1900 then
           Inl (Exc OSError ''[Errno 75] Value too large for defined data type'')
         else if y < 1 \<or> 9999 < y then
           Inl (Exc ValueError (''year '' @ dec y @ '' is out of range''))
         else
           Inr (pad 4 (nat y) @ ''-'' @ pad 2 m @ ''-'' @ pad 2 d @ ''T''
             @ pad 2 (day div 3600) @ '':'' @ pad 2 (day div 60 mod 60) @ '':''
             @ pad 2 (day mod 60) @ ''.'' @ pad 3 ms @ ''Z''))"

section \<open>The calendar is right\<close>

text \<open>The number of the first day of a year, and of a date.\<close>

definition year_start :: "int \<Rightarrow> int" where
  "year_start y = 365 * (y - 1) + (y - 1) div 4 - (y - 1) div 100 + (y - 1) div 400"

definition day_number :: "int \<Rightarrow> nat \<Rightarrow> nat \<Rightarrow> int" where
  "day_number y m d =
     year_start y + int (sum_list (take (m - 1) (month_days y))) + int d - 1"

lemma div_pred: "0 < k \<Longrightarrow> y div k = (y - 1) div k + (if y mod k = 0 then 1 else 0)" for y k :: int
proof -
  assume k: "0 < k"
  have y: "y = k * (y div k) + y mod k" by simp
  have m: "0 \<le> y mod k" "y mod k < k" using k by simp_all
  show ?thesis
  proof (cases "y mod k = 0")
    case True
    have "(y - 1) div k = y div k - 1"
      by (rule int_div_pos_eq [of _ _ _ "k - 1"]) (use True k y in \<open>auto simp: algebra_simps\<close>)
    with True show ?thesis by simp
  next
    case False
    have "(y - 1) div k = y div k"
      by (rule int_div_pos_eq [of _ _ _ "y mod k - 1"]) (use False k m y in \<open>auto simp: algebra_simps\<close>)
    with False show ?thesis by simp
  qed
qed

lemma int_year_days:
  "int (year_days y) = 365 + (if y mod 4 = 0 then 1 else 0) - (if y mod 100 = 0 then 1 else 0)
     + (if y mod 400 = 0 then 1 else 0)"
proof -
  have "y mod 400 = 0 \<longrightarrow> y mod 100 = 0" "y mod 100 = 0 \<longrightarrow> y mod 4 = 0"
    using mod_mod_cancel [of 100 400 y] mod_mod_cancel [of 4 100 y] by auto
  then show ?thesis
    by (cases "y mod 400 = 0"; cases "y mod 100 = 0"; cases "y mod 4 = 0")
      (simp_all only: year_days_def is_leap_def simp_thms if_True if_False of_nat_numeral)
qed

lemma year_start_Suc: "year_start (y + 1) = year_start y + int (year_days y)"
proof -
  have "year_start (y + 1) = 365 * y + y div 4 - y div 100 + y div 400"
    by (simp add: year_start_def)
  moreover have "365 * y = 365 * (y - 1) + 365" by simp
  ultimately show ?thesis
    unfolding int_year_days year_start_def
    by (simp only: div_pred [of 4 y] div_pred [of 100 y] div_pred [of 400 y] zero_less_numeral)
qed

lemma year_start_mono: "y \<le> y' \<Longrightarrow> year_start y \<le> year_start y'"
  by (induction rule: int_ge_induct) (simp_all add: year_start_Suc)

lemma split_year_correct:
  "split_year y n = (y', r) \<Longrightarrow>
     year_start y + int n = year_start y' + int r \<and> r < year_days y'"
proof (induction y n rule: split_year.induct)
  case (1 y n)
  show ?case
  proof (cases "n < year_days y")
    case True
    with 1(2) show ?thesis by (simp add: split_year.simps [of y n])
  next
    case False
    then have "split_year (y + 1) (n - year_days y) = (y', r)"
      using 1(2) by (simp add: split_year.simps [of y n])
    with 1(1) False year_start_Suc [of y] show ?thesis by auto
  qed
qed

lemma split_month_correct:
  "split_month m ls n = (m', d) \<Longrightarrow> n < sum_list ls \<Longrightarrow>
     m \<le> m' \<and> m' < m + length ls \<and> n = sum_list (take (m' - m) ls) + d \<and> d < ls ! (m' - m)"
proof (induction m ls n rule: split_month.induct)
  case (2 m l ls n)
  show ?case
  proof (cases "n < l")
    case True
    with 2 show ?thesis by simp
  next
    case False
    with 2 have "Suc m \<le> m' \<and> m' < Suc m + length ls \<and>
        n - l = sum_list (take (m' - Suc m) ls) + d \<and> d < ls ! (m' - Suc m)" by auto
    moreover from this have "m' - m = Suc (m' - Suc m)" by linarith
    ultimately show ?thesis using False by auto
  qed
qed simp

lemma sum_month_days: "sum_list (month_days y) = year_days y"
  by (simp add: month_days_def year_days_def)

lemma civil_correct:
  assumes "civil days = (y, m, d)"
  shows "day_number y m d = days" "1 \<le> m" "m \<le> 12" "1 \<le> d" "d \<le> 31"
    and "year_start y \<le> days" "days < year_start (y + 1)"
proof -
  let ?e = "days div 146097" and ?o = "nat (days mod 146097)"
  obtain y' r where y: "split_year (400 * ?e + 1) ?o = (y', r)" by fastforce
  obtain m' d' where m: "split_month 1 (month_days y') r = (m', d')" by fastforce
  have eq: "y = y'" "m = m'" "d = Suc d'" using assms y m by (simp_all add: civil_def)
  have start: "year_start (400 * ?e + 1) = 146097 * ?e" by (simp add: year_start_def)
  note yc = split_year_correct [OF y]
  note mc = split_month_correct [OF m, unfolded sum_month_days, OF yc [THEN conjunct2]]
  have days: "days = year_start y' + int r" using yc start by simp
  with yc eq show "year_start y \<le> days" "days < year_start (y + 1)" by (simp_all add: year_start_Suc)
  from mc eq days show "day_number y m d = days" by (simp add: day_number_def)
  have "length (month_days y') = 12" by (simp add: month_days_def)
  with mc eq show "1 \<le> m" "m \<le> 12" "1 \<le> d" by simp_all
  have "\<forall>l \<in> set (month_days y'). l \<le> 31" by (simp add: month_days_def)
  with mc eq show "d \<le> 31" using nth_mem [of "m' - 1" "month_days y'"] by fastforce
qed

section \<open>The text reads back\<close>

text \<open>The instant in milliseconds that a timestamp denotes, read from its columns.\<close>

definition column :: "nat \<Rightarrow> nat \<Rightarrow> string \<Rightarrow> nat" where
  "column i k s = val_in_base 10 (take k (drop i s))"

definition read_timestamp :: "string \<Rightarrow> int" where
  "read_timestamp s =
     (((day_number (int (column 0 4 s)) (column 5 2 s) (column 8 2 s) - EPOCH_DAYS) * 86400
        + int (column 11 2 s * 3600 + column 14 2 s * 60 + column 17 2 s)) * 1000)
       + int (column 20 3 s)"

lemma length_dec_nat: "n < 10 ^ k \<Longrightarrow> 0 < k \<Longrightarrow> length (dec_nat n) \<le> k"
proof (induction k arbitrary: n)
  case (Suc k)
  show ?case
  proof (cases "n < 10")
    case True
    then show ?thesis by (simp add: dec_nat_def nat_in_base.simps [of 10 n])
  next
    case False
    then have "n div 10 < 10 ^ k" "0 < k" using Suc.prems by (auto intro: gr0I)
    with Suc.IH have "length (dec_nat (n div 10)) \<le> k" by blast
    with False show ?thesis by (simp add: dec_nat_def nat_in_base.simps [of 10 n])
  qed
qed simp

lemma length_pad: "n < 10 ^ k \<Longrightarrow> 0 < k \<Longrightarrow> length (pad k n) = k"
  using length_dec_nat [of n k] by (simp add: pad_def Let_def)

lemma val_zeros: "val_in_base 10 (replicate j CHR ''0'' @ s) = val_in_base 10 s"
proof -
  have "foldl (\<lambda>a c. a * 10 + digit_val c) 0 (replicate j CHR ''0'') = 0"
    by (induction j) (simp_all add: digit_val_def)
  then show ?thesis by (simp add: val_in_base_def)
qed

lemma val_pad: "val_in_base 10 (pad k n) = n"
  by (simp add: pad_def Let_def val_zeros dec_nat_def val_nat_in_base)

lemma div_less: "0 < k \<Longrightarrow> a div k < b \<longleftrightarrow> a < b * k" for a b k :: int
proof
  assume "0 < k" "a div k < b"
  then have "a div k * k \<le> (b - 1) * k" by (simp add: mult_right_mono)
  with \<open>0 < k\<close> show "a < b * k"
    using div_mult_mod_eq [of a k] pos_mod_bound [OF \<open>0 < k\<close>, of a]
    by (simp only: left_diff_distrib mult_1)
next
  assume "0 < k" "a < b * k"
  show "a div k < b"
  proof (rule ccontr)
    assume "\<not> a div k < b"
    then have "b * k \<le> a div k * k" using \<open>0 < k\<close> by (simp add: mult_right_mono)
    with \<open>a < b * k\<close> show False
      using div_mult_mod_eq [of a k] pos_mod_sign [OF \<open>0 < k\<close>, of a] by linarith
  qed
qed

lemma cut_millis: "a div 1000 = a div 1000000 * 1000 + a mod 1000000 div 1000" for a :: int
proof -
  have "a div 1000 = (a div 1000000 * 1000 * 1000 + a mod 1000000) div 1000" by simp
  also have "\<dots> = a div 1000000 * 1000 + a mod 1000000 div 1000" by (rule div_mult_self3) simp
  finally show ?thesis .
qed

lemma timestamp_columns:
  assumes "y < 10000" "m < 100" "d < 100" "hh < 100" "mi < 100" "se < 100" "ms < 1000"
  shows "read_timestamp (pad 4 y @ ''-'' @ pad 2 m @ ''-'' @ pad 2 d @ ''T''
             @ pad 2 hh @ '':'' @ pad 2 mi @ '':'' @ pad 2 se @ ''.'' @ pad 3 ms @ ''Z'') =
    ((day_number (int y) m d - EPOCH_DAYS) * 86400 + int (hh * 3600 + mi * 60 + se)) * 1000
      + int ms"
  using assms by (simp add: read_timestamp_def column_def length_pad val_pad)

lemma utc_timestamp_spec:
  "case utc_timestamp x of
     Inr t \<Rightarrow> read_timestamp t = epoch_micros x div 1000 \<and> length t = 24 \<and>
       - 62135596800000000 \<le> epoch_micros x \<and> epoch_micros x < 253402300800000000
   | Inl e \<Rightarrow> epoch_micros x < - 62135596800000000 \<or> 253402300800000000 \<le> epoch_micros x"
proof -
  let ?us = "epoch_micros x"
  define secs where "secs = ?us div 1000000"
  define day where "day = nat (secs mod 86400)"
  define ms where "ms = nat (?us mod 1000000 div 1000)"
  obtain y m d where c: "civil (secs div 86400 + EPOCH_DAYS) = (y, m, d)" by (cases "civil (secs div 86400 + EPOCH_DAYS)") auto
  note cc = civil_correct [OF c]
  have eqn: "utc_timestamp x = (if secs < - (2 ^ 63) \<or> 2 ^ 63 \<le> secs then
           Inl (Exc OverflowError ''timestamp out of range for platform time_t'')
         else if y - 1900 < - (2 ^ 31) \<or> 2 ^ 31 \<le> y - 1900 then
           Inl (Exc OSError ''[Errno 75] Value too large for defined data type'')
         else if y < 1 \<or> 9999 < y then
           Inl (Exc ValueError (''year '' @ dec y @ '' is out of range''))
         else
           Inr (pad 4 (nat y) @ ''-'' @ pad 2 m @ ''-'' @ pad 2 d @ ''T''
             @ pad 2 (day div 3600) @ '':'' @ pad 2 (day div 60 mod 60) @ '':''
             @ pad 2 (day mod 60) @ ''.'' @ pad 3 ms @ ''Z''))"
    unfolding utc_timestamp_def Let_def c [unfolded secs_def] prod.case secs_def day_def ms_def ..
  have day: "day < 86400" "int day = secs mod 86400" by (simp_all add: day_def nat_less_iff)
  have hms: "day div 3600 * 3600 + day div 60 mod 60 * 60 + day mod 60 = day"
    using div_mult_mod_eq [of day "60 * 60"] mod_mult2_eq [of day 60 60]
    by (simp only: mult_numeral_1 numeral_times_numeral semiring_norm)
  have "0 \<le> ?us mod 1000000" "?us mod 1000000 < 1000000" by simp_all
  then have ms: "ms < 1000" "int ms = ?us mod 1000000 div 1000"
    unfolding ms_def by (simp_all add: nat_less_iff div_less)
  have year: "1 \<le> y \<and> y \<le> 9999 \<longleftrightarrow> - 62135596800 \<le> secs \<and> secs < 253402300800"
  proof -
    let ?n = "secs div 86400 + EPOCH_DAYS"
    have "1 \<le> y \<longleftrightarrow> 0 \<le> ?n"
      using cc(6,7) year_start_mono [of 1 y] year_start_mono [of "y + 1" 1]
      by (cases "1 \<le> y") (simp_all add: year_start_def [of 1])
    moreover have "y \<le> 9999 \<longleftrightarrow> ?n < 3652059"
      using cc(6,7) year_start_mono [of 10000 y] year_start_mono [of "y + 1" 10000]
      by (cases "y \<le> 9999") (simp_all add: year_start_def [of 10000])
    moreover have "0 \<le> ?n \<longleftrightarrow> - 62135596800 \<le> secs" "?n < 3652059 \<longleftrightarrow> secs < 253402300800"
      using div_less [of secs 86400 "- 719162"] div_less [of secs 86400 2932897]
      unfolding EPOCH_DAYS_def by linarith+
    ultimately show ?thesis by blast
  qed
  have range: "- 62135596800 \<le> secs \<and> secs < 253402300800 \<longleftrightarrow>
      - 62135596800000000 \<le> ?us \<and> ?us < 253402300800000000"
    using div_less [of ?us 1000000 "- 62135596800"] div_less [of ?us 1000000 253402300800]
    unfolding secs_def by linarith
  show ?thesis
  proof (cases "1 \<le> y \<and> y \<le> 9999")
    case False
    with year range have "?us < - 62135596800000000 \<or> 253402300800000000 \<le> ?us" by linarith
    with False show ?thesis by (auto simp: eqn)
  next
    case True
    with year have s: "- 62135596800 \<le> secs" "secs < 253402300800" by simp_all
    let ?t = "pad 4 (nat y) @ ''-'' @ pad 2 m @ ''-'' @ pad 2 d @ ''T''
             @ pad 2 (day div 3600) @ '':'' @ pad 2 (day div 60 mod 60) @ '':''
             @ pad 2 (day mod 60) @ ''.'' @ pad 3 ms @ ''Z''"
    have t: "utc_timestamp x = Inr ?t" using True s by (simp add: eqn)
    have b: "nat y < 10000" "m < 100" "d < 100" "day div 3600 < 100" "day div 60 mod 60 < 100"
      "day mod 60 < 100" "ms < 1000"
      using True cc day ms by (simp_all add: div_less_iff_less_mult) linarith+
    have cut: "?us div 1000 = secs * 1000 + ?us mod 1000000 div 1000"
      unfolding secs_def using cut_millis [of ?us] .
    have sec: "secs div 86400 * 86400 + int day = secs" by (simp add: day(2))
    have "int (nat y) = y" using True by simp
    then have "read_timestamp ?t = ?us div 1000"
      by (simp only: timestamp_columns [OF b] cc(1) hms add_diff_cancel_right' sec cut ms(2))
    moreover have "length ?t = 24" using b by (simp add: length_pad)
    ultimately show ?thesis using t s range by simp
  qed
qed

lemma utc_timestamp_ok:
  "is_ok (utc_timestamp x) \<longleftrightarrow>
     - 62135596800000000 \<le> epoch_micros x \<and> epoch_micros x < 253402300800000000"
  using utc_timestamp_spec [of x] by (cases "utc_timestamp x") auto

lemma utc_timestamp_0: "is_ok (utc_timestamp 0)"
  by (simp add: utc_timestamp_ok epoch_micros_def round_half_even_def)

lemma length_utc_timestamp: "utc_timestamp x = Inr t \<Longrightarrow> length t = 24"
  using utc_timestamp_spec [of x] by simp

text \<open>
  C23: the text of a time denotes that time: read as a date of the Gregorian calendar and
  a time of day, it is the microsecond that the number is rounded to, cut to
  milliseconds. Every time from year 1 to year 9999 has such a text, and no other.
\<close>

theorem utc_timestamp_denotes:
  "case utc_timestamp x of
     Inr t \<Rightarrow> read_timestamp t = epoch_micros x div 1000 \<and> length t = 24 \<and>
       - 62135596800000000 \<le> epoch_micros x \<and> epoch_micros x < 253402300800000000
   | Inl e \<Rightarrow> epoch_micros x < - 62135596800000000 \<or> 253402300800000000 \<le> epoch_micros x"
  by (rule utc_timestamp_spec)

end
