(* ===== verification/Json.thy ===== *)
theory Json
  imports Py_Format
begin

text \<open>
  The values that the dashboard sends and the text that \<open>json.dumps\<close> makes of them with
  the options of \<open>supervisor/dashboard.py\<close>: compact separators, no escapes for
  characters outside ASCII. All floats of the program's payloads are finite, so the
  refusal of NaN and infinity cannot arise.
\<close>

section \<open>Values and their text\<close>

datatype json =
    JNull
  | JBool bool
  | JInt int
  | JFloat rat
  | JStr string
  | JList "json list"
  | JObj "(string \<times> json) list"

definition hex_digit :: "nat \<Rightarrow> char" where
  "hex_digit n = char_of (if n < 10 then 48 + n else 87 + n)"

definition json_escape :: "char \<Rightarrow> string" where
  "json_escape c =
     (let k = of_char c :: nat in
      if c = CHR 0x22 then [CHR 0x5C, CHR 0x22]
      else if c = CHR 0x5C then [CHR 0x5C, CHR 0x5C]
      else if k = 10 then CHR 0x5C # ''n''
      else if k = 13 then CHR 0x5C # ''r''
      else if k = 9 then CHR 0x5C # ''t''
      else if k = 8 then CHR 0x5C # ''b''
      else if k = 12 then CHR 0x5C # ''f''
      else if k < 32 then CHR 0x5C # ''u00'' @ [hex_digit (k div 16), hex_digit (k mod 16)]
      else [c])"

definition json_quote :: "string \<Rightarrow> string" where
  "json_quote s = CHR 0x22 # concat (map json_escape s) @ [CHR 0x22]"

fun json_text :: "json \<Rightarrow> string" and json_elems :: "json list \<Rightarrow> string"
  and json_members :: "(string \<times> json) list \<Rightarrow> string" where
  "json_text JNull = ''null''"
| "json_text (JBool b) = (if b then ''true'' else ''false'')"
| "json_text (JInt i) = dec i"
| "json_text (JFloat x) = fmt_repr (Fin x)"
| "json_text (JStr s) = json_quote s"
| "json_text (JList xs) = ''['' @ json_elems xs @ '']''"
| "json_text (JObj ms) = ''{'' @ json_members ms @ ''}''"
| "json_elems [] = []"
| "json_elems [x] = json_text x"
| "json_elems (x # y # xs) = json_text x @ '','' @ json_elems (y # xs)"
| "json_members [] = []"
| "json_members [(k, x)] = json_quote k @ '':'' @ json_text x"
| "json_members ((k, x) # m # ms) = json_quote k @ '':'' @ json_text x @ '','' @ json_members (m # ms)"

text \<open>\<open>p[k]\<close> and the keys of a dictionary.\<close>

definition json_get :: "string \<Rightarrow> json \<Rightarrow> json" where
  "json_get k j =
     (case j of JObj ms \<Rightarrow> (case map_of ms k of None \<Rightarrow> JNull | Some x \<Rightarrow> x) | _ \<Rightarrow> JNull)"

definition json_opt :: "('a \<Rightarrow> json) \<Rightarrow> 'a option \<Rightarrow> json" where
  "json_opt f x = (case x of None \<Rightarrow> JNull | Some v \<Rightarrow> f v)"

lemma json_get_Obj [simp]:
  "json_get k (JObj ((k', x) # ms)) = (if k' = k then x else json_get k (JObj ms))"
  by (simp add: json_get_def)

lemma json_opt_simps [simp]: "json_opt f None = JNull" "json_opt f (Some v) = f v"
  by (simp_all add: json_opt_def)

end
