(* ===== verification/Dashboard_Store.thy ===== *)
theory Dashboard_Store
  imports Protocol Utc_Time Json
begin

text \<open>
  The snapshot and the store of \<open>supervisor/dashboard.py\<close>: what the poller records and
  what the HTTP handlers read. Every operation of the store runs under its lock, so the
  operations are atomic and a run of the dashboard is a sequence of them, whatever the
  threads do. Each operation comes with the time it is given; the reading of the clock
  when it is given none stands in \<open>Dashboard_Poller\<close>.
\<close>

section \<open>The snapshot\<close>

datatype connection = CONNECTED | DEGRADED | DISCONNECTED

fun connection_text :: "connection \<Rightarrow> string" where
  "connection_text CONNECTED = ''CONNECTED''"
| "connection_text DEGRADED = ''DEGRADED''"
| "connection_text DISCONNECTED = ''DISCONNECTED''"

lemma connection_text_CONNECTED [simp]: "connection_text c = ''CONNECTED'' \<longleftrightarrow> c = CONNECTED"
  by (cases c) simp_all

definition DEFAULT_STALE_AFTER_SECONDS :: pyfloat where
  "DEFAULT_STALE_AFTER_SECONDS = Fin 3"

definition DASHBOARD_HISTORY_LIMIT :: int where "DASHBOARD_HISTORY_LIMIT = 120"
definition DASHBOARD_EVENT_LIMIT :: int where "DASHBOARD_EVENT_LIMIT = 50"

record dashboard_snapshot =
  connection :: connection
  updated_at_epoch :: "rat option"
  last_error :: "string option"
  snap_comm :: "comm_status option"
  snap_timing :: "timing_status option"
  snap_jitter :: "jitter_status option"
  snap_memory :: "runtime_memory_status option"
  snap_cpu :: "cpu_load_status option"
  snap_overruns :: "overrun_status option"
  snap_watchdog :: "watchdog_status option"

definition empty_snapshot :: dashboard_snapshot where
  "empty_snapshot =
     \<lparr>connection = DISCONNECTED, updated_at_epoch = None, last_error = None, snap_comm = None,
      snap_timing = None, snap_jitter = None, snap_memory = None, snap_cpu = None,
      snap_overruns = None, snap_watchdog = None\<rparr>"

text \<open>\<open>json_fields names values\<close>: a dictionary whose values are all \<open>None\<close> or all given.\<close>

definition json_fields :: "string list \<Rightarrow> 'a option \<Rightarrow> ('a \<Rightarrow> json list) \<Rightarrow> json" where
  "json_fields names x values =
     JObj (zip names (case x of None \<Rightarrow> map (\<lambda>_. JNull) names | Some v \<Rightarrow> values v))"

definition comm_json :: "comm_status option \<Rightarrow> json" where
  "comm_json x = json_fields [''rx_overflow'', ''parser_timeout'', ''crc_errors''] x
     (\<lambda>c. [JInt (uart_rx_overflow c), JInt (parser_timeouts c), JInt (crc_errors c)])"

definition timing_json :: "timing_status option \<Rightarrow> json" where
  "timing_json x = json_fields [''actuator_us'', ''control_us'', ''sensor_safety_us'', ''communication_us''] x
     (\<lambda>t. [JFloat (ticks_to_microseconds (actuator_ticks t)),
           JFloat (ticks_to_microseconds (control_ticks t)),
           JFloat (ticks_to_microseconds (sensor_safety_ticks t)),
           JFloat (ticks_to_microseconds (communication_ticks t))])"

definition jitter_json :: "jitter_status option \<Rightarrow> json" where
  "jitter_json x = json_fields [''actuator_ms'', ''control_ms'', ''sensor_safety_ms'', ''communication_ms''] x
     (\<lambda>j. [JInt (actuator_ms j), JInt (control_ms j), JInt (sensor_safety_ms j),
           JInt (communication_ms j)])"

definition memory_json :: "runtime_memory_status option \<Rightarrow> json" where
  "memory_json x = json_fields
     [''painted_region_bytes'', ''used_painted_bytes'', ''minimum_free_observed_bytes''] x
     (\<lambda>m. [JInt (painted_bytes m), JInt (used_painted_bytes m), JInt (min_free_bytes m)])"

definition cpu_json :: "cpu_load_status option \<Rightarrow> json" where
  "cpu_json x = json_fields
     [''busy_ticks'', ''elapsed_ms'', ''scheduled_task_utilization_percent''] x
     (\<lambda>c. [JInt (busy_ticks c), JInt (elapsed_ms c),
           JFloat (to_double (calculate_scheduled_task_utilization (busy_ticks c) (elapsed_ms c)))])"

definition overruns_json :: "overrun_status option \<Rightarrow> json" where
  "overruns_json x = json_fields [''actuator'', ''control'', ''sensor_safety'', ''communication''] x
     (\<lambda>v. [JInt (actuator v), JInt (control v), JInt (sensor_safety v), JInt (communication v)])"

definition watchdog_json :: "watchdog_status option \<Rightarrow> json" where
  "watchdog_json x = JObj [(''previous_timeout_detected'',
     json_opt (\<lambda>w. JBool (timeout_marker w = 1)) x)]"

definition age_of :: "dashboard_snapshot \<Rightarrow> rat \<Rightarrow> rat option" where
  "age_of s now = map_option (\<lambda>t. max 0 (now - t)) (updated_at_epoch s)"

definition is_stale :: "dashboard_snapshot \<Rightarrow> rat \<Rightarrow> pyfloat \<Rightarrow> bool" where
  "is_stale s now stale_after \<longleftrightarrow>
     connection s \<noteq> CONNECTED \<or>
     (case age_of s now of None \<Rightarrow> True | Some age \<Rightarrow> fl_less stale_after (Fin age))"

definition to_dict :: "dashboard_snapshot \<Rightarrow> rat \<Rightarrow> pyfloat \<Rightarrow> json res" where
  "to_dict s now stale_after =
     bind_res
       (case updated_at_epoch s of
          None \<Rightarrow> Inr None
        | Some t \<Rightarrow> bind_res (utc_timestamp t) (\<lambda>x. Inr (Some x))) (\<lambda>last_update.
     Inr (JObj
       [(''connection'', JStr (connection_text (connection s))),
        (''last_update'', json_opt JStr last_update),
        (''age_seconds'', json_opt (\<lambda>a. JFloat (to_double (round2 a))) (age_of s now)),
        (''stale'', JBool (is_stale s now stale_after)),
        (''last_error'', json_opt JStr (last_error s)),
        (''comm'', comm_json (snap_comm s)),
        (''timing'', timing_json (snap_timing s)),
        (''jitter'', jitter_json (snap_jitter s)),
        (''runtime_memory'', memory_json (snap_memory s)),
        (''cpu'', cpu_json (snap_cpu s)),
        (''overruns'', overruns_json (snap_overruns s)),
        (''watchdog'', watchdog_json (snap_watchdog s))]))"

section \<open>The store\<close>

record dashboard_event =
  event_timestamp :: string
  event_level :: string
  event_message :: string

record dashboard_store =
  current :: dashboard_snapshot
  samples :: "json list"
  events :: "dashboard_event list"
  history_limit :: nat
  event_limit :: nat
  stale_after :: pyfloat

definition new_store :: "int \<Rightarrow> int \<Rightarrow> pyfloat \<Rightarrow> dashboard_store res" where
  "new_store history_lim event_lim stale =
     (if history_lim \<le> 0 then Inl (Exc ValueError ''history_limit must be greater than zero'')
      else if event_lim \<le> 0 then Inl (Exc ValueError ''event_limit must be greater than zero'')
      else if fl_le stale (Fin 0) then
        Inl (Exc ValueError ''stale_after_seconds must be greater than zero'')
      else
        Inr \<lparr>current = empty_snapshot, samples = [], events = [],
             history_limit = nat history_lim, event_limit = nat event_lim, stale_after = stale\<rparr>)"

text \<open>\<open>deque(maxlen=n).append(x)\<close>.\<close>

definition bounded_append :: "nat \<Rightarrow> 'a list \<Rightarrow> 'a \<Rightarrow> 'a list" where
  "bounded_append n xs x = (let ys = xs @ [x] in drop (length ys - n) ys)"

definition append_event :: "rat \<Rightarrow> string \<Rightarrow> string \<Rightarrow> (dashboard_store, unit) prog" where
  "append_event timestamp level message =
     bind_prog (lift_res (utc_timestamp timestamp)) (\<lambda>t.
     modify (\<lambda>s. s\<lparr>events := bounded_append (event_limit s) (events s)
       \<lparr>event_timestamp = t, event_level = level, event_message = utf8_take 256 message\<rparr>\<rparr>))"

text \<open>One event for each counter, given as its label with its values, that has changed.\<close>

fun counter_events :: "rat \<Rightarrow> string \<Rightarrow> (string \<times> int \<times> int) list \<Rightarrow> (dashboard_store, unit) prog" where
  "counter_events timestamp what [] = ret ()"
| "counter_events timestamp what ((label, before, after) # rest) =
     bind_prog
       (when_prog (before \<noteq> after)
         (append_event timestamp ''warning''
           (label @ what @ '' counter changed: '' @ dec before @ '' '' @ arrow @ '' '' @ dec after)))
       (\<lambda>_. counter_events timestamp what rest)"

definition comm_fields :: "comm_status \<Rightarrow> comm_status \<Rightarrow> (string \<times> int \<times> int) list" where
  "comm_fields p c =
     [(''RX overflow'', uart_rx_overflow p, uart_rx_overflow c),
      (''Parser timeout'', parser_timeouts p, parser_timeouts c),
      (''CRC error'', crc_errors p, crc_errors c)]"

definition overrun_fields :: "overrun_status \<Rightarrow> overrun_status \<Rightarrow> (string \<times> int \<times> int) list" where
  "overrun_fields p c =
     [(''Actuator'', actuator p, actuator c), (''Control'', control p, control c),
      (''Sensor/Safety'', sensor_safety p, sensor_safety c),
      (''Communication'', communication p, communication c)]"

definition record_value_change_events ::
  "dashboard_snapshot \<Rightarrow> dashboard_snapshot \<Rightarrow> rat \<Rightarrow> (dashboard_store, unit) prog" where
  "record_value_change_events previous latest timestamp =
     bind_prog
       (case (snap_comm previous, snap_comm latest) of
          (Some p, Some c) \<Rightarrow> counter_events timestamp [] (comm_fields p c) | _ \<Rightarrow> ret ()) (\<lambda>_.
     bind_prog
       (when_prog
         (map_option timeout_marker (snap_watchdog latest) = Some 1 \<and>
          map_option timeout_marker (snap_watchdog previous) \<noteq> Some 1)
         (append_event timestamp ''warning'' ''Previous watchdog timeout marker detected'')) (\<lambda>_.
       (case (snap_overruns previous, snap_overruns latest) of
          (Some p, Some c) \<Rightarrow> counter_events timestamp '' overrun'' (overrun_fields p c)
        | _ \<Rightarrow> ret ())))"

type_synonym statuses =
  "comm_status \<times> timing_status \<times> jitter_status \<times> runtime_memory_status \<times> cpu_load_status \<times>
     overrun_status \<times> watchdog_status"

definition success_snapshot :: "statuses \<Rightarrow> rat \<Rightarrow> dashboard_snapshot" where
  "success_snapshot st timestamp =
     (case st of (comm, timing, jitter, mem, cpu, ov, wd) \<Rightarrow>
       \<lparr>connection = CONNECTED, updated_at_epoch = Some timestamp, last_error = None,
        snap_comm = Some comm, snap_timing = Some timing, snap_jitter = Some jitter,
        snap_memory = Some mem, snap_cpu = Some cpu, snap_overruns = Some ov,
        snap_watchdog = Some wd\<rparr>)"

text \<open>The sample of the history, taken from the payload.\<close>

definition history_sample :: "json \<Rightarrow> json" where
  "history_sample p =
     JObj
       [(''timestamp'', json_get ''last_update'' p),
        (''cpu_utilization_percent'', json_get ''scheduled_task_utilization_percent'' (json_get ''cpu'' p)),
        (''minimum_free_observed_bytes'',
          json_get ''minimum_free_observed_bytes'' (json_get ''runtime_memory'' p)),
        (''rx_overflow'', json_get ''rx_overflow'' (json_get ''comm'' p)),
        (''parser_timeout'', json_get ''parser_timeout'' (json_get ''comm'' p)),
        (''crc_errors'', json_get ''crc_errors'' (json_get ''comm'' p))]"

definition record_success_at :: "rat \<Rightarrow> statuses \<Rightarrow> (dashboard_store, unit) prog" where
  "record_success_at timestamp st =
     bind_prog (get_st current) (\<lambda>previous.
     let latest = success_snapshot st timestamp in
     bind_prog
       (when_prog (connection previous \<noteq> CONNECTED)
         (append_event timestamp ''info''
           (if updated_at_epoch previous = None then ''Connected'' else ''Connection recovered'')))
       (\<lambda>_.
     bind_prog (record_value_change_events previous latest timestamp) (\<lambda>_.
     bind_prog (modify (\<lambda>s. s\<lparr>current := latest\<rparr>)) (\<lambda>_.
     bind_prog (get_st stale_after) (\<lambda>stale.
     bind_prog (lift_res (to_dict latest timestamp stale)) (\<lambda>p.
     modify (\<lambda>s. s\<lparr>samples := bounded_append (history_limit s) (samples s) (history_sample p)\<rparr>)))))))"

definition failure_connection :: "dashboard_snapshot \<Rightarrow> rat \<Rightarrow> pyfloat \<Rightarrow> connection" where
  "failure_connection previous timestamp stale =
     (case updated_at_epoch previous of
        None \<Rightarrow> DISCONNECTED
      | Some t \<Rightarrow> if fl_less stale (Fin (timestamp - t)) then DISCONNECTED else DEGRADED)"

definition bounded_error :: "string \<Rightarrow> string" where
  "bounded_error error = utf8_take 256 (if error = [] then ''serial polling failed'' else error)"

definition record_failure_at :: "rat \<Rightarrow> string \<Rightarrow> (dashboard_store, unit) prog" where
  "record_failure_at timestamp error =
     bind_prog (get_st current) (\<lambda>previous.
     bind_prog (get_st stale_after) (\<lambda>stale.
     let conn = failure_connection previous timestamp stale in
     bind_prog
       (modify (\<lambda>s. s\<lparr>current := previous\<lparr>connection := conn, last_error := Some (bounded_error error)\<rparr>\<rparr>))
       (\<lambda>_.
     when_prog (conn \<noteq> connection previous)
       (append_event timestamp
         (if conn = DEGRADED then ''warning'' else ''error'')
         ((if conn = DEGRADED then ''Connection degraded'' else ''Disconnected'') @ '': ''
            @ bounded_error error)))))"

definition event_json :: "dashboard_event \<Rightarrow> json" where
  "event_json e =
     JObj [(''timestamp'', JStr (event_timestamp e)), (''level'', JStr (event_level e)),
           (''message'', JStr (event_message e))]"

text \<open>\<open>payload["events"] = ...\<close> adds a key that the dictionary does not have.\<close>

definition status_payload_at :: "rat \<Rightarrow> (dashboard_store, json) prog" where
  "status_payload_at now =
     bind_prog (get_st id) (\<lambda>s.
     bind_prog (lift_res (to_dict (current s) now (stale_after s))) (\<lambda>p.
     ret (case p of
            JObj ms \<Rightarrow> JObj (ms @ [(''events'', JList (map event_json (rev (events s))))])
          | _ \<Rightarrow> p)))"

definition history_payload :: "(dashboard_store, json) prog" where
  "history_payload = get_st (\<lambda>s. JObj [(''samples'', JList (samples s))])"


section \<open>Runs and reachable stores\<close>

text \<open>What the poller can do to the store, in any order.\<close>

datatype store_op = Success rat statuses | Failure rat string

fun store_op_prog :: "store_op \<Rightarrow> (dashboard_store, unit) prog" where
  "store_op_prog (Success t st) = record_success_at t st"
| "store_op_prog (Failure t e) = record_failure_at t e"

fun run_ops :: "store_op list \<Rightarrow> (dashboard_store, unit) prog" where
  "run_ops [] = ret ()"
| "run_ops (x # xs) = bind_prog (store_op_prog x) (\<lambda>_. run_ops xs)"

text \<open>A step is one operation that returned, with or without an exception.\<close>

inductive store_step :: "dashboard_store \<Rightarrow> dashboard_store \<Rightarrow> bool" where
  success: "record_success_at t st s = Some (r, s') \<Longrightarrow> store_step s s'"
| failure: "record_failure_at t e s = Some (r, s') \<Longrightarrow> store_step s s'"

inductive store_reachable :: "dashboard_store \<Rightarrow> bool" where
  start: "new_store hl el stale = Inr s \<Longrightarrow> store_reachable s"
| step: "store_reachable s \<Longrightarrow> store_step s s' \<Longrightarrow> store_reachable s'"

inductive_cases store_stepE: "store_step s s'"

section \<open>The specification\<close>

definition lastn :: "nat \<Rightarrow> 'a list \<Rightarrow> 'a list" where
  "lastn n xs = drop (length xs - n) xs"

lemma lastn_Nil [simp]: "lastn n [] = []"
  by (simp add: lastn_def)

lemma length_lastn [simp]: "length (lastn n xs) = min n (length xs)"
  by (simp add: lastn_def)

lemma lastn_append [simp]: "lastn n (lastn n xs @ ys) = lastn n (xs @ ys)"
  by (cases "length xs \<le> n") (simp_all add: lastn_def add.commute)

lemma bounded_append_lastn: "bounded_append n xs x = lastn n (xs @ [x])"
  by (simp add: bounded_append_def lastn_def Let_def)

lemma lastn_eq_Nil [simp]: "lastn n xs = [] \<longleftrightarrow> n = 0 \<or> xs = []"
  by (cases xs) (auto simp: lastn_def)

lemma list_all_lastn: "list_all P xs \<Longrightarrow> list_all P (lastn n xs)"
  by (auto simp: lastn_def list_all_iff dest: in_set_dropD)

text \<open>
  The specification keeps a snapshot, all events and all samples. \<open>tm\<close> is the text of the
  time of the operation.
\<close>

definition event_of :: "string \<Rightarrow> string \<Rightarrow> string \<Rightarrow> dashboard_event" where
  "event_of tm level message =
     \<lparr>event_timestamp = tm, event_level = level, event_message = utf8_take 256 message\<rparr>"

definition change_log :: "string \<Rightarrow> string \<Rightarrow> (string \<times> int \<times> int) list \<Rightarrow> dashboard_event list" where
  "change_log tm what cs =
     map (\<lambda>(label, b, a). event_of tm ''warning''
            (label @ what @ '' counter changed: '' @ dec b @ '' '' @ arrow @ '' '' @ dec a))
       (filter (\<lambda>(label, b, a). b \<noteq> a) cs)"

definition success_log :: "string \<Rightarrow> dashboard_snapshot \<Rightarrow> statuses \<Rightarrow> dashboard_event list" where
  "success_log tm p = (\<lambda>(comm, timing, jitter, mem, cpu, ov, wd).
     (if connection p \<noteq> CONNECTED
      then [event_of tm ''info''
              (if updated_at_epoch p = None then ''Connected'' else ''Connection recovered'')]
      else [])
     @ (case snap_comm p of None \<Rightarrow> [] | Some c \<Rightarrow> change_log tm [] (comm_fields c comm))
     @ (if timeout_marker wd = 1 \<and> map_option timeout_marker (snap_watchdog p) \<noteq> Some 1
        then [event_of tm ''warning'' ''Previous watchdog timeout marker detected''] else [])
     @ (case snap_overruns p of None \<Rightarrow> []
        | Some v \<Rightarrow> change_log tm '' overrun'' (overrun_fields v ov)))"

definition sample_spec :: "string \<Rightarrow> statuses \<Rightarrow> json" where
  "sample_spec tm = (\<lambda>(comm, timing, jitter, mem, cpu, ov, wd).
     JObj [(''timestamp'', JStr tm),
        (''cpu_utilization_percent'',
          JFloat (to_double (calculate_scheduled_task_utilization (busy_ticks cpu) (elapsed_ms cpu)))),
        (''minimum_free_observed_bytes'', JInt (min_free_bytes mem)),
        (''rx_overflow'', JInt (uart_rx_overflow comm)),
        (''parser_timeout'', JInt (parser_timeouts comm)),
        (''crc_errors'', JInt (crc_errors comm))])"

definition failure_snapshot ::
  "pyfloat \<Rightarrow> dashboard_snapshot \<Rightarrow> rat \<Rightarrow> string \<Rightarrow> dashboard_snapshot" where
  "failure_snapshot stale p t e =
     p\<lparr>connection := failure_connection p t stale, last_error := Some (bounded_error e)\<rparr>"

definition failure_log :: "pyfloat \<Rightarrow> string \<Rightarrow> dashboard_snapshot \<Rightarrow> rat \<Rightarrow> string \<Rightarrow> dashboard_event list" where
  "failure_log stale tm p t e =
     (let c = failure_connection p t stale in
      if c = connection p then []
      else [event_of tm (if c = DEGRADED then ''warning'' else ''error'')
              ((if c = DEGRADED then ''Connection degraded'' else ''Disconnected'') @ '': ''
                 @ bounded_error e)])"

type_synonym spec_store = "dashboard_snapshot \<times> dashboard_event list \<times> json list"

definition time_text :: "rat \<Rightarrow> string" where
  "time_text t = (case utc_timestamp t of Inr x \<Rightarrow> x | Inl _ \<Rightarrow> [])"

fun spec_op :: "pyfloat \<Rightarrow> store_op \<Rightarrow> spec_store \<Rightarrow> spec_store" where
  "spec_op stale (Success t st) (p, evs, hist) =
     (success_snapshot st t, evs @ success_log (time_text t) p st,
      hist @ [sample_spec (time_text t) st])"
| "spec_op stale (Failure t e) (p, evs, hist) =
     (failure_snapshot stale p t e, evs @ failure_log stale (time_text t) p t e, hist)"

definition spec_run :: "pyfloat \<Rightarrow> store_op list \<Rightarrow> spec_store" where
  "spec_run stale ops = fold (spec_op stale) ops (empty_snapshot, [], [])"

fun op_time :: "store_op \<Rightarrow> rat" where
  "op_time (Success t st) = t"
| "op_time (Failure t e) = t"

text \<open>The store holds the last events and samples of the specification.\<close>

definition store_abs :: "dashboard_store \<Rightarrow> spec_store \<Rightarrow> bool" where
  "store_abs s = (\<lambda>(p, evs, hist). current s = p \<and> events s = lastn (event_limit s) evs \<and>
     samples s = lastn (history_limit s) hist)"

section \<open>Refinement\<close>

lemma run_append_event:
  "utc_timestamp t = Inr tm \<Longrightarrow> append_event t level msg s =
     Some (Inr (), s\<lparr>events := lastn (event_limit s) (events s @ [event_of tm level msg])\<rparr>)"
  by (simp add: append_event_def bind_prog_def lift_res_def modify_def bounded_append_lastn event_of_def)

text \<open>\<open>logs t m es\<close>: \<open>m\<close> appends exactly the events \<open>es\<close>.\<close>

definition logs :: "(dashboard_store, unit) prog \<Rightarrow> dashboard_event list \<Rightarrow> bool" where
  "logs m es \<longleftrightarrow> (\<forall>s. length (events s) \<le> event_limit s \<longrightarrow>
     m s = Some (Inr (), s\<lparr>events := lastn (event_limit s) (events s @ es)\<rparr>))"

lemma lastn_all: "length xs \<le> n \<Longrightarrow> lastn n xs = xs"
  by (simp add: lastn_def)

lemma run_bind:
  "bind_prog (get_st f) k s = k (f s) s" "bind_prog (modify g) k' s = k' () (g s)"
  "bind_prog (lift_res r) k s = (case r of Inl e \<Rightarrow> Some (Inl e, s) | Inr x \<Rightarrow> k x s)"
  by (simp_all add: bind_prog_def get_st_def modify_def lift_res_def split: sum.split)

lemma logs_run:
  assumes "logs (bind_prog m (\<lambda>_. n)) es" "length (events s) \<le> event_limit s"
  shows "bind_prog m (\<lambda>_. bind_prog n (\<lambda>_. k)) s =
    k (s\<lparr>events := lastn (event_limit s) (events s @ es)\<rparr>)"
  using assms unfolding logs_def bind_assoc_prog [of m "\<lambda>_. n", symmetric]
  by (simp add: bind_prog_def [of "bind_prog m (\<lambda>_. n)"])

lemma logs_ret: "logs (ret ()) []"
  by (simp add: logs_def ret_def lastn_all)

lemma logs_append: "utc_timestamp t = Inr tm \<Longrightarrow> logs (append_event t l m) [event_of tm l m]"
  by (simp add: logs_def run_append_event)

lemma logs_bind: "logs m es \<Longrightarrow> logs k fs \<Longrightarrow> logs (bind_prog m (\<lambda>_. k)) (es @ fs)"
  by (simp add: logs_def bind_prog_def)

lemma logs_when: "logs m es \<Longrightarrow> logs (when_prog b m) (if b then es else [])"
  by (simp add: when_prog_def logs_ret)

lemma logs_counter_events:
  "utc_timestamp t = Inr tm \<Longrightarrow> logs (counter_events t what fs) (change_log tm what fs)"
proof (induction fs)
  case Nil
  then show ?case by (simp add: change_log_def logs_ret)
next
  case (Cons f fs)
  obtain label b a where f: "f = (label, b, a)" by (cases f) auto
  show ?case
    using logs_bind [OF logs_when [OF logs_append [OF Cons.prems]] Cons.IH [OF Cons.prems],
        of "b \<noteq> a" "''warning''"
          "label @ what @ '' counter changed: '' @ dec b @ '' '' @ arrow @ '' '' @ dec a"]
    by (simp add: f change_log_def split: if_splits)
qed

lemma logs_case_option:
  "logs m es \<Longrightarrow> (\<And>x. logs (k x) (gs x)) \<Longrightarrow>
     logs (case x of None \<Rightarrow> m | Some y \<Rightarrow> k y) (case x of None \<Rightarrow> es | Some y \<Rightarrow> gs y)"
  by (simp split: option.split)

lemma logs_success:
  assumes "utc_timestamp t = Inr tm"
  shows "logs
    (bind_prog
       (when_prog (connection p \<noteq> CONNECTED)
         (append_event t ''info''
           (if updated_at_epoch p = None then ''Connected'' else ''Connection recovered'')))
       (\<lambda>_. record_value_change_events p (success_snapshot st t) t)) (success_log tm p st)"
proof -
  obtain comm timing jitter mem cpu ov wd where st: "st = (comm, timing, jitter, mem, cpu, ov, wd)"
    by (cases st) auto
  have c: "logs (case x of None \<Rightarrow> ret () | Some p \<Rightarrow>
        case Some y of None \<Rightarrow> ret () | Some c \<Rightarrow> counter_events t what (g p c))
      (case x of None \<Rightarrow> [] | Some p \<Rightarrow> change_log tm what (g p y))" for x y what g
    using logs_counter_events [OF assms] logs_ret by (cases x) simp_all
  show ?thesis
    unfolding record_value_change_events_def st success_log_def success_snapshot_def prod.case
      dashboard_snapshot.select_convs option.map option.inject
    by (intro logs_bind logs_when c logs_append assms)
qed

text \<open>Every operation at a time that has a text refines the specification's.\<close>

definition time_ok :: "store_op \<Rightarrow> bool" where
  "time_ok x \<longleftrightarrow> is_ok (utc_timestamp (op_time x))"

lemma to_dict_sample:
  "utc_timestamp t = Inr tm \<Longrightarrow> \<exists>p. to_dict (success_snapshot st t) t stale = Inr p \<and>
     history_sample p = sample_spec tm st"
  by (cases st)
    (simp add: to_dict_def success_snapshot_def history_sample_def sample_spec_def comm_json_def
      memory_json_def cpu_json_def json_fields_def)

lemma run_record_success:
  assumes "utc_timestamp t = Inr tm" "length (events s) \<le> event_limit s"
  shows "record_success_at t st s = Some (Inr (), s
    \<lparr>current := success_snapshot st t,
     events := lastn (event_limit s) (events s @ success_log tm (current s) st),
     samples := lastn (history_limit s) (samples s @ [sample_spec tm st])\<rparr>)"
proof -
  obtain p where p: "to_dict (success_snapshot st t) t (stale_after s) = Inr p"
    "history_sample p = sample_spec tm st" using to_dict_sample [OF assms(1)] by blast
  show ?thesis
    unfolding record_success_at_def Let_def run_bind
      logs_run [OF logs_success [OF assms(1)] assms(2)]
    by (simp add: p run_bind bounded_append_lastn) (simp add: modify_def)
qed

lemma run_record_failure:
  assumes "utc_timestamp t = Inr tm" "length (events s) \<le> event_limit s"
  shows "record_failure_at t e s = Some (Inr (), s
    \<lparr>current := failure_snapshot (stale_after s) (current s) t e,
     events := lastn (event_limit s) (events s @ failure_log (stale_after s) tm (current s) t e)\<rparr>)"
  using assms
  by (simp add: record_failure_at_def bind_prog_def get_st_def Let_def modify_def when_prog_def ret_def
      run_append_event failure_snapshot_def failure_log_def lastn_all)

lemma store_op_refines:
  assumes "time_ok x" "store_abs s a"
  shows "\<exists>s'. store_op_prog x s = Some (Inr (), s') \<and> store_abs s' (spec_op (stale_after s) x a) \<and>
    stale_after s' = stale_after s \<and> event_limit s' = event_limit s \<and> history_limit s' = history_limit s"
proof -
  obtain p evs hist where a: "a = (p, evs, hist)" by (cases a) auto
  from assms(1) obtain tm where tm: "utc_timestamp (op_time x) = Inr tm"
    by (auto simp: time_ok_def is_ok_def split: sum.splits)
  have "length (events s) \<le> event_limit s" using assms(2) by (simp add: store_abs_def a)
  with tm assms(2) show ?thesis
    by (cases x) (auto simp: run_record_success run_record_failure store_abs_def a time_text_def)
qed

lemma run_ops_refines:
  assumes "list_all time_ok ops" "store_abs s a"
  shows "\<exists>s'. run_ops ops s = Some (Inr (), s') \<and> store_abs s' (fold (spec_op (stale_after s)) ops a) \<and>
    event_limit s' = event_limit s \<and> history_limit s' = history_limit s"
  using assms
proof (induction ops arbitrary: s a)
  case Nil
  then show ?case by (simp add: ret_def)
next
  case (Cons x ops)
  then obtain s1 where s1: "store_op_prog x s = Some (Inr (), s1)"
    "store_abs s1 (spec_op (stale_after s) x a)" "stale_after s1 = stale_after s"
    "event_limit s1 = event_limit s" "history_limit s1 = history_limit s"
    using store_op_refines [of x s a] by auto
  with Cons.IH [of s1] Cons.prems(1) show ?case by (auto simp: bind_prog_def)
qed

text \<open>
  C14: the store refines its specification: after any run of recorded successes and
  failures it holds the snapshot of the specification, the last 50 of all events and the
  last 120 of all samples (or whatever its limits are), and no operation fails.
\<close>

theorem store_refines_specification:
  assumes "list_all time_ok ops" "new_store hl el stale = Inr s0"
  shows "\<exists>s. run_ops ops s0 = Some (Inr (), s) \<and>
    current s = fst (spec_run stale ops) \<and>
    events s = lastn (nat el) (fst (snd (spec_run stale ops))) \<and>
    samples s = lastn (nat hl) (snd (snd (spec_run stale ops)))"
proof -
  have "store_abs s0 (empty_snapshot, [], [])" "stale_after s0 = stale"
    and lim: "event_limit s0 = nat el" "history_limit s0 = nat hl"
    using assms(2) by (auto simp: new_store_def store_abs_def split: if_splits)
  with run_ops_refines [OF assms(1)] obtain s where
    "run_ops ops s0 = Some (Inr (), s)" "store_abs s (spec_run stale ops)"
      "event_limit s = nat el" "history_limit s = nat hl"
    unfolding spec_run_def by metis
  then show ?thesis by (auto simp: store_abs_def split: prod.splits)
qed

theorem store_refines_specification_witness:
  "\<exists>s s0. new_store 120 50 (Fin 3) = Inr s0 \<and>
     run_ops [Failure 0 [], Failure 1 ''x''] s0 = Some (Inr (), s) \<and>
     last_error (current s) = Some ''x'' \<and> events s = []"
proof -
  obtain s0 where s0: "new_store 120 50 (Fin 3) = Inr s0" by (simp add: new_store_def fl_le_def)
  have t: "list_all time_ok [Failure 0 [], Failure 1 ''x'']"
    by (simp add: time_ok_def utc_timestamp_ok epoch_micros_def round_half_even_def)
  have e: "bounded_error ''x'' = ''x''" by (simp add: bounded_error_def is_cont_def)
  show ?thesis
    using store_refines_specification [OF t s0] s0
    by (auto simp: spec_run_def failure_snapshot_def failure_log_def failure_connection_def
        empty_snapshot_def e)
qed

section \<open>The invariant\<close>

definition blank :: "dashboard_snapshot \<Rightarrow> bool" where
  "blank p \<longleftrightarrow> snap_comm p = None \<and> snap_timing p = None \<and> snap_jitter p = None \<and>
     snap_memory p = None \<and> snap_cpu p = None \<and> snap_overruns p = None \<and> snap_watchdog p = None"

definition complete :: "dashboard_snapshot \<Rightarrow> bool" where
  "complete p \<longleftrightarrow> snap_comm p \<noteq> None \<and> snap_timing p \<noteq> None \<and> snap_jitter p \<noteq> None \<and>
     snap_memory p \<noteq> None \<and> snap_cpu p \<noteq> None \<and> snap_overruns p \<noteq> None \<and> snap_watchdog p \<noteq> None"

definition event_ok :: "dashboard_event \<Rightarrow> bool" where
  "event_ok e \<longleftrightarrow> code_points (event_message e) \<le> 256 \<and> length (event_timestamp e) = 24 \<and>
     event_level e \<in> {''info'', ''warning'', ''error''}"

definition snapshot_ok :: "dashboard_snapshot \<Rightarrow> bool" where
  "snapshot_ok p \<longleftrightarrow>
     (case connection p of
        CONNECTED \<Rightarrow> updated_at_epoch p \<noteq> None \<and> last_error p = None
      | DEGRADED \<Rightarrow> updated_at_epoch p \<noteq> None \<and> last_error p \<noteq> None
      | DISCONNECTED \<Rightarrow> updated_at_epoch p = None \<or> last_error p \<noteq> None) \<and>
     (if updated_at_epoch p = None then blank p else complete p) \<and>
     (case last_error p of None \<Rightarrow> True | Some e \<Rightarrow> e \<noteq> [] \<and> code_points e \<le> 256)"

definition store_inv :: "dashboard_store \<Rightarrow> bool" where
  "store_inv s \<longleftrightarrow> snapshot_ok (current s) \<and>
     (samples s = [] \<longleftrightarrow> updated_at_epoch (current s) = None) \<and>
     0 < history_limit s \<and> length (samples s) \<le> history_limit s \<and>
     0 < event_limit s \<and> length (events s) \<le> event_limit s \<and> list_all event_ok (events s)"

lemma new_store_inv: "new_store hl el stale = Inr s \<Longrightarrow> store_inv s"
  by (auto simp: new_store_def store_inv_def snapshot_ok_def empty_snapshot_def blank_def split: if_splits)

lemma success_snapshot_fields [simp]:
  "connection (success_snapshot st t) = CONNECTED"
  "updated_at_epoch (success_snapshot st t) = Some t" "last_error (success_snapshot st t) = None"
  by (cases st; simp add: success_snapshot_def)+

lemma snapshot_ok_success: "snapshot_ok (success_snapshot st t)"
  by (cases st) (simp add: snapshot_ok_def success_snapshot_def complete_def)

lemma bounded_error_ok: "bounded_error e \<noteq> []" "code_points (bounded_error e) \<le> 256"
  by (simp_all add: bounded_error_def utf8_take_nonempty code_points_utf8_take)

lemma snapshot_ok_failure: "snapshot_ok p \<Longrightarrow> snapshot_ok (failure_snapshot stale p t e)"
  by (auto simp: snapshot_ok_def failure_snapshot_def failure_connection_def blank_def complete_def
      bounded_error_ok split: option.splits connection.splits)

lemma event_ok_of: "length tm = 24 \<Longrightarrow> l \<in> {''info'', ''warning'', ''error''} \<Longrightarrow> event_ok (event_of tm l m)"
  by (simp add: event_ok_def event_of_def code_points_utf8_take)

lemma event_ok_change_log: "length tm = 24 \<Longrightarrow> list_all event_ok (change_log tm what cs)"
  by (auto simp: change_log_def list_all_iff intro!: event_ok_of)

lemma event_ok_logs:
  assumes "length tm = 24"
  shows "list_all event_ok (success_log tm p st)" "list_all event_ok (failure_log stale tm p t e)"
  using assms
  by (auto simp: success_log_def failure_log_def Let_def event_ok_of event_ok_change_log
      split: option.split prod.split)

text \<open>When the time has no text, an operation writes no event.\<close>

definition silent :: "(dashboard_store, unit) prog \<Rightarrow> bool" where
  "silent m \<longleftrightarrow> (\<forall>s. \<exists>r. m s = Some (r, s))"

lemma silent_append: "utc_timestamp t = Inl x \<Longrightarrow> silent (append_event t l m)"
  by (simp add: silent_def append_event_def run_bind)

lemma silent_bind: "silent m \<Longrightarrow> silent k \<Longrightarrow> silent (bind_prog m (\<lambda>_. k))"
  unfolding silent_def bind_prog_def
proof
  fix s
  assume "\<forall>s. \<exists>r. m s = Some (r, s)" "\<forall>s. \<exists>r. k s = Some (r, s)"
  then obtain r r' where "m s = Some (r, s)" "k s = Some (r', s)" by blast
  then show "\<exists>r. (case m s of None \<Rightarrow> None | Some (Inl e, s') \<Rightarrow> Some (Inl e, s')
      | Some (Inr x, s') \<Rightarrow> k s') = Some (r, s)" by (cases r) simp_all
qed

lemma silent_ret: "silent (ret ())"
  by (simp add: silent_def ret_def)

lemma silent_when: "silent m \<Longrightarrow> silent (when_prog b m)"
  by (simp add: when_prog_def silent_ret)

lemma silent_counter_events: "utc_timestamp t = Inl x \<Longrightarrow> silent (counter_events t what cs)"
  by (induction t what cs rule: counter_events.induct)
    (simp_all add: silent_ret silent_bind silent_when silent_append)

lemma silent_changes: "utc_timestamp t = Inl x \<Longrightarrow> silent (record_value_change_events p q t)"
  unfolding record_value_change_events_def
  by (intro silent_bind) (auto split: option.split intro: silent_ret silent_counter_events
      silent_when silent_append)

lemma record_success_untimed:
  assumes "utc_timestamp t = Inl x" "record_success_at t st s = Some (r, s')"
  shows "s' = s \<or> connection (current s) = CONNECTED \<and> s' = s\<lparr>current := success_snapshot st t\<rparr>"
proof -
  let ?ev = "append_event t ''info''
      (if updated_at_epoch (current s) = None then ''Connected'' else ''Connection recovered'')"
  have bad: "to_dict (success_snapshot st t) t z = Inl x" for z
    using assms(1) by (cases st) (simp add: to_dict_def success_snapshot_def)
  have "\<exists>r'. record_value_change_events (current s) (success_snapshot st t) t s = Some (r', s)"
    using silent_changes [OF assms(1)] unfolding silent_def by blast
  then obtain r' where chg: "record_value_change_events (current s) (success_snapshot st t) t s = Some (r', s)"
    by blast
  show ?thesis
  proof (cases "connection (current s) = CONNECTED")
    case True
    with assms(2) chg show ?thesis
      by (cases r') (auto simp: record_success_at_def run_bind Let_def when_prog_def bad
          bind_prog_def [of "record_value_change_events _ _ _"])
  next
    case False
    have "?ev s = Some (Inl x, s)" using assms(1) by (simp add: append_event_def run_bind)
    with False assms(2) show ?thesis
      by (simp add: record_success_at_def run_bind Let_def when_prog_def bind_prog_def [of "append_event _ _ _"])
  qed
qed

lemma record_failure_untimed:
  assumes "utc_timestamp t = Inl x" "record_failure_at t e s = Some (r, s')"
  shows "s' = s\<lparr>current := failure_snapshot (stale_after s) (current s) t e\<rparr>"
  using assms
  by (auto simp: record_failure_at_def run_bind Let_def when_prog_def append_event_def ret_def
      failure_snapshot_def split: if_splits)

lemma store_step_inv: "store_step s s' \<Longrightarrow> store_inv s \<Longrightarrow> store_inv s'"
proof (elim store_stepE)
  fix t st r
  assume inv: "store_inv s" and run: "record_success_at t st s = Some (r, s')"
  show "store_inv s'"
  proof (cases "utc_timestamp t")
    case (Inl x)
    from record_success_untimed [OF this run] inv show ?thesis
      by (auto simp: store_inv_def snapshot_ok_success) (auto simp: snapshot_ok_def)
  next
    case (Inr tm)
    with run inv run_record_success [OF Inr, of s st] show ?thesis
      by (auto simp: store_inv_def snapshot_ok_success list_all_lastn event_ok_logs
          length_utc_timestamp [OF Inr])
  qed
next
  fix t e r
  assume inv: "store_inv s" and run: "record_failure_at t e s = Some (r, s')"
  show "store_inv s'"
  proof (cases "utc_timestamp t")
    case (Inl x)
    from record_failure_untimed [OF this run] inv show ?thesis
      by (auto simp: store_inv_def snapshot_ok_failure) (auto simp: failure_snapshot_def)
  next
    case (Inr tm)
    with run inv run_record_failure [OF Inr, of s e] show ?thesis
      by (auto simp: store_inv_def snapshot_ok_failure list_all_lastn event_ok_logs
          length_utc_timestamp [OF Inr]) (auto simp: failure_snapshot_def)
  qed
qed

lemma store_reachable_inv: "store_reachable s \<Longrightarrow> store_inv s"
  by (induction rule: store_reachable.induct) (auto intro: new_store_inv store_step_inv)

text \<open>
  C13: every store that the threads can reach, in whatever order successes and failures are
  recorded and whether or not an operation fails, is well formed: the connection, the
  time of the last success, the error and the presence of the statuses agree, and events,
  samples and texts stay within their bounds.
\<close>

theorem store_invariant:
  assumes "store_reachable s"
  shows "snapshot_ok (current s) \<and>
     (samples s = [] \<longleftrightarrow> updated_at_epoch (current s) = None) \<and>
     length (samples s) \<le> history_limit s \<and> length (events s) \<le> event_limit s \<and>
     list_all event_ok (events s)"
  using store_reachable_inv [OF assms] by (simp add: store_inv_def)

lemma failure_reachable: "\<exists>s. store_reachable s \<and> last_error (current s) = Some (bounded_error e)"
proof -
  obtain s0 where s0: "new_store 120 50 (Fin 3) = Inr s0" by (simp add: new_store_def fl_le_def)
  obtain tm where tm: "utc_timestamp 0 = Inr tm"
    using utc_timestamp_0 by (cases "utc_timestamp 0") auto
  have "store_inv s0" using s0 by (rule new_store_inv)
  then obtain r s1 where "record_failure_at 0 e s0 = Some (r, s1)"
      "last_error (current s1) = Some (bounded_error e)"
    using run_record_failure [OF tm, of s0 e] by (auto simp: store_inv_def failure_snapshot_def)
  then show ?thesis using store_reachable.step [OF store_reachable.start [OF s0]] store_step.failure by blast
qed

theorem store_invariant_witness:
  "\<exists>s. store_reachable s \<and> last_error (current s) = Some (bounded_error ''link down'') \<and>
     snapshot_ok (current s) \<and> list_all event_ok (events s)"
  using failure_reachable [of "''link down''"] store_invariant by blast

text \<open>
  C18: what the dashboard shows is what was last recorded. After a success the status is
  connected, without an error, with the recorded values, and stale exactly when it is
  older than the limit; after a failure it is stale, with the error and with the values
  of the last success.
\<close>

theorem status_shows_last_operation:
  assumes "is_ok (utc_timestamp t)" "store_reachable s"
  shows "wp (bind_prog (record_success_at t (comm, timing, jitter, mem, cpu, ov, wd))
        (\<lambda>_. status_payload_at now))
      (\<lambda>p _. json_get ''connection'' p = JStr ''CONNECTED'' \<and>
         json_get ''last_error'' p = JNull \<and>
         json_get ''stale'' p = JBool (fl_less (stale_after s) (Fin (max 0 (now - t)))) \<and>
         json_get ''comm'' p = comm_json (Some comm) \<and>
         json_get ''timing'' p = timing_json (Some timing) \<and>
         json_get ''jitter'' p = jitter_json (Some jitter) \<and>
         json_get ''runtime_memory'' p = memory_json (Some mem) \<and>
         json_get ''cpu'' p = cpu_json (Some cpu) \<and>
         json_get ''overruns'' p = overruns_json (Some ov) \<and>
         json_get ''watchdog'' p = watchdog_json (Some wd))
      (\<lambda>_ _. False) s \<and>
    wp (bind_prog (record_failure_at t e) (\<lambda>_. status_payload_at now))
      (\<lambda>p _. json_get ''connection'' p \<noteq> JStr ''CONNECTED'' \<and>
         json_get ''last_error'' p = JStr (bounded_error e) \<and>
         json_get ''stale'' p = JBool True \<and>
         json_get ''comm'' p = comm_json (snap_comm (current s)) \<and>
         json_get ''timing'' p = timing_json (snap_timing (current s)) \<and>
         json_get ''jitter'' p = jitter_json (snap_jitter (current s)) \<and>
         json_get ''runtime_memory'' p = memory_json (snap_memory (current s)) \<and>
         json_get ''cpu'' p = cpu_json (snap_cpu (current s)) \<and>
         json_get ''overruns'' p = overruns_json (snap_overruns (current s)) \<and>
         json_get ''watchdog'' p = watchdog_json (snap_watchdog (current s)))
      (\<lambda>_ _. \<exists>u. updated_at_epoch (current s) = Some u \<and> \<not> is_ok (utc_timestamp u)) s"
proof -
  obtain tm where tm: "utc_timestamp t = Inr tm"
    using assms(1) by (cases "utc_timestamp t") auto
  have lim: "length (events s) \<le> event_limit s"
    using store_reachable_inv [OF assms(2)] by (simp add: store_inv_def)
  have conn: "connection (failure_snapshot stale p t e) \<noteq> CONNECTED" for stale p
    by (simp add: failure_snapshot_def failure_connection_def split: option.split)
  have S: "wp (record_success_at t st) Q E s = Q () (s
      \<lparr>current := success_snapshot st t,
       events := lastn (event_limit s) (events s @ success_log tm (current s) st),
       samples := lastn (history_limit s) (samples s @ [sample_spec tm st])\<rparr>)" for st Q E
    by (simp add: wp_def run_record_success [OF tm lim])
  have F: "wp (record_failure_at t e) Q E s = Q () (s
      \<lparr>current := failure_snapshot (stale_after s) (current s) t e,
       events := lastn (event_limit s) (events s @ failure_log (stale_after s) tm (current s) t e)\<rparr>)"
    for Q E
    by (simp add: wp_def run_record_failure [OF tm lim])
  show ?thesis
    unfolding wp_bind S F
    using tm conn [of "stale_after s" "current s"]
    by (auto simp: status_payload_at_def to_dict_def success_snapshot_def failure_snapshot_def
        is_stale_def age_of_def bind_res_def split: option.splits sum.splits connection.splits)
qed

theorem status_shows_last_operation_witness:
  "\<exists>s. store_reachable s \<and>
     wp (bind_prog (record_failure_at 0 ''timeout'') (\<lambda>_. status_payload_at 1))
       (\<lambda>p _. json_get ''stale'' p = JBool True) (\<lambda>_ _. True) s"
proof -
  obtain s where s: "store_reachable s" using failure_reachable by blast
  show ?thesis
    by (rule exI [of _ s], rule conjI [OF s],
        rule wp_mono [OF status_shows_last_operation
          [OF utc_timestamp_0 s, of _ _ _ _ _ _ _ 1 "''timeout''", THEN conjunct2]]) simp_all
qed

end
