(* ===== verification/Monitoring.thy ===== *)
theory Monitoring
  imports Csv_Log Protocol
begin

text \<open>
  \<open>supervisor/monitoring.py\<close>: the options and the sequence numbers of the monitor,
  and the CSV logger of the communication health samples.
\<close>

definition comm_csv_columns :: "string list" where
  "comm_csv_columns =
     [''timestamp'', ''sequence'', ''uart_rx_overflow'', ''parser_timeouts'', ''crc_errors'']"

record comm_health_sample =
  smp_timestamp :: string
  smp_sequence :: int
  smp_uart_rx_overflow :: int
  smp_parser_timeouts :: int
  smp_crc_errors :: int

definition validate_monitor_options :: "int \<Rightarrow> pyfloat \<Rightarrow> unit res" where
  "validate_monitor_options samples interval_s =
     (if samples \<le> 0 then Inl (Exc ValueError ''--samples must be greater than zero'')
      else if fl_le interval_s (Fin 0) then
        Inl (Exc ValueError ''--interval must be greater than zero'')
      else Inr ())"

definition next_sequence :: "int \<Rightarrow> int res" where
  "next_sequence seq =
     (if \<not> (0 \<le> seq \<and> seq \<le> 0xFF) then
        Inl (Exc ValueError ''sequence must be in range 0..255'')
      else Inr ((seq + 1) AND 0xFF))"

definition sample_fields :: "comm_health_sample \<Rightarrow> string list" where
  "sample_fields s =
     [smp_timestamp s, dec (smp_sequence s), dec (smp_uart_rx_overflow s),
      dec (smp_parser_timeouts s), dec (smp_crc_errors s)]"

definition comm_csv_open :: "'w os \<Rightarrow> string \<Rightarrow> (('w, 'z) host_scheme, unit) prog" where
  "comm_csv_open os path = csv_logger_open os ''CSV'' comm_csv_columns path"

definition comm_csv_write ::
  "'w os \<Rightarrow> comm_health_sample \<Rightarrow> (('w, 'z) host_scheme, unit) prog" where
  "comm_csv_write os s = csv_logger_write os ''CSV'' (sample_fields s)"

definition with_comm_csv ::
  "'w os \<Rightarrow> string \<Rightarrow> (('w, 'z) host_scheme, 'a) prog \<Rightarrow> (('w, 'z) host_scheme, 'a) prog" where
  "with_comm_csv os path body = with_csv_logger os ''CSV'' comm_csv_columns path body"

section \<open>Lemmas\<close>

lemma validate_monitor_options_iff:
  "validate_monitor_options n x = Inr () \<longleftrightarrow> 0 < n \<and> (fl_less (Fin 0) x \<or> x = NaN)"
  by (cases x) (auto simp: validate_monitor_options_def fl_le_def)

lemma and_255: "(x :: int) AND 255 = x mod 256"
  using take_bit_eq_mask [of 8 x] by (simp add: take_bit_eq_mod mask_eq_exp_minus_1)

lemma next_sequence_eq:
  "0 \<le> s \<Longrightarrow> s \<le> 255 \<Longrightarrow> next_sequence s = Inr ((s + 1) mod 256)"
  by (simp add: next_sequence_def and_255)

text \<open>\<open>seqs s n\<close>: the \<open>n\<close> sequence numbers from \<open>s\<close> on, with their wrap-around.\<close>

definition seqs :: "int \<Rightarrow> nat \<Rightarrow> int list" where
  "seqs s n = map (\<lambda>i. (s + int i) mod 256) [0..<n]"

lemma seqs_Suc: "seqs s (Suc n) = seqs s n @ [(s + int n) mod 256]"
  by (simp add: seqs_def)

lemma seqs_0 [simp]: "seqs s 0 = []"
  by (simp add: seqs_def)

lemma length_seqs [simp]: "length (seqs s n) = n"
  by (simp add: seqs_def)

text \<open>
  Consecutive requests never share a sequence number: a window of up to 256 requests
  has distinct ones.
\<close>

lemma distinct_seqs: "n \<le> 256 \<Longrightarrow> distinct (seqs s n)"
proof -
  assume n: "n \<le> 256"
  have "i = j" if "i < n" "j < n" "(s + int i) mod 256 = (s + int j) mod 256" for i j
  proof -
    have "(256 :: int) dvd (s + int i) - (s + int j)"
      using that(3) by (simp add: mod_eq_dvd_iff)
    then have d: "(256 :: int) dvd int i - int j" by simp
    have "\<bar>int i - int j\<bar> < 256" using that n by linarith
    with d have "int i - int j = 0" using zdvd_not_zless [of "\<bar>int i - int j\<bar>" 256]
      by (metis abs_0_eq abs_ge_zero dvd_abs_iff order_le_less)
    then show ?thesis by simp
  qed
  then show ?thesis by (auto simp: seqs_def distinct_map inj_on_def)
qed

end
