(* ===== verification/Supervisor.thy ===== *)
theory Supervisor
  imports Host_Env Monitoring
begin

text \<open>
  The single-session modes of \<open>supervisor/main.py\<close>: bring-up, runtime memory and
  real-time profile. Each prints its report in the order the code does, and every
  status request is the transaction of \<open>Transactions\<close>.
\<close>

section \<open>Definitions\<close>

text \<open>\<open>time.sleep(2.2)\<close> after opening the port: the board resets on open.\<close>

definition settle_board :: "'w os \<Rightarrow> (('w, 'z) host_scheme, unit) prog" where
  "settle_board os = py_sleep os (Fin (22 / 10))"

definition ping_check :: "'w os \<Rightarrow> (('w, 'z) host_scheme, unit) prog" where
  "ping_check os =
     bind_prog (transact os (mk_frame TYPE_PING 0x10 [])) (\<lambda>ping_response.
     bind_prog (lift_res (require_response ping_response TYPE_PONG 0x10 [])) (\<lambda>_.
     print_line ''PING seq=0x10 -> PONG [PASS]''))"

definition echo_payload :: bytes where
  "echo_payload = [0x11, 0x22, 0x33, 0x44]"

definition echo_check :: "'w os \<Rightarrow> (('w, 'z) host_scheme, unit) prog" where
  "echo_check os =
     bind_prog (transact os (mk_frame TYPE_ECHO 0x20 echo_payload)) (\<lambda>echo_response.
     bind_prog (lift_res (require_response echo_response TYPE_ACK 0x20 echo_payload)) (\<lambda>_.
     print_line ''ECHO seq=0x20 payload=11 22 33 44 -> ACK [PASS]''))"

definition ticks_line :: "string \<Rightarrow> int \<Rightarrow> string" where
  "ticks_line label ticks =
     label @ dec ticks @ '' ticks = '' @ fmt_g (ticks_to_microseconds ticks) @ '' us''"

definition status_section :: "'w os \<Rightarrow> (('w, 'z) host_scheme, unit) prog" where
  "status_section os =
     bind_prog (request_status os TYPE_GET_COMM_STATUS 0x30 ''COMM_STATUS'' decode_comm_status)
       (\<lambda>status.
     print_lines
       [[], ''Communication health'',
        ''UART RX overflow : '' @ dec (uart_rx_overflow status),
        ''Parser timeouts  : '' @ dec (parser_timeouts status),
        ''CRC errors       : '' @ dec (crc_errors status)])"

definition timing_section :: "'w os \<Rightarrow> (('w, 'z) host_scheme, unit) prog" where
  "timing_section os =
     bind_prog
       (request_status os TYPE_GET_TIMING_STATUS 0x40 ''TIMING_STATUS'' decode_timing_status)
       (\<lambda>timing.
     print_lines
       [[], ''Task execution-time maxima'',
        ticks_line ''Actuator        : '' (actuator_ticks timing),
        ticks_line ''Control         : '' (control_ticks timing),
        ticks_line ''Sensor/Safety   : '' (sensor_safety_ticks timing),
        ticks_line ''Communication   : '' (communication_ticks timing)])"

definition jitter_section :: "'w os \<Rightarrow> (('w, 'z) host_scheme, unit) prog" where
  "jitter_section os =
     bind_prog
       (request_status os TYPE_GET_JITTER_STATUS 0x50 ''JITTER_STATUS'' decode_jitter_status)
       (\<lambda>jitter.
     print_lines
       [[], ''Scheduler jitter maxima'', ''Resolution: 1 ms'', [],
        ''Actuator        : '' @ dec (actuator_ms jitter) @ '' ms'',
        ''Control         : '' @ dec (control_ms jitter) @ '' ms'',
        ''Sensor/Safety   : '' @ dec (sensor_safety_ms jitter) @ '' ms'',
        ''Communication   : '' @ dec (communication_ms jitter) @ '' ms''])"

definition run_supervisor ::
  "'w os \<Rightarrow> string \<Rightarrow> bool \<Rightarrow> bool \<Rightarrow> bool \<Rightarrow> (('w, 'z) host_scheme, unit) prog" where
  "run_supervisor os port status_requested timing_requested jitter_requested =
     bind_prog (print_lines [''SENTRY-CELL UNO Supervisor'', ''Port: '' @ port, []]) (\<lambda>_.
     bind_prog
       (with_link os port
         (bind_prog (settle_board os) (\<lambda>_.
          bind_prog (ping_check os) (\<lambda>_.
          bind_prog (echo_check os) (\<lambda>_.
          bind_prog (when_prog status_requested (status_section os)) (\<lambda>_.
          bind_prog (when_prog timing_requested (timing_section os)) (\<lambda>_.
          when_prog jitter_requested (jitter_section os))))))))
       (\<lambda>_.
     print_lines
       [[], ''Protocol checks: PASS'', ''Serial link: PASS'', ''Supervisor bring-up: PASS'']))"

definition run_runtime_memory ::
  "'w os \<Rightarrow> string \<Rightarrow> pyfloat \<Rightarrow> (('w, 'z) host_scheme, unit) prog" where
  "run_runtime_memory os port observe_seconds =
     bind_prog (lift_res (validate_observe_seconds observe_seconds)) (\<lambda>_.
     bind_prog
       (print_lines
         [''SENTRY-CELL UNO Runtime SRAM Watermark'', ''Port: '' @ port,
          ''Observation window: '' @ fmt_g_float observe_seconds @ '' s'', []]) (\<lambda>_.
     bind_prog
       (with_link os port
         (bind_prog (settle_board os) (\<lambda>_.
          bind_prog (print_line ''RUN PHYSICAL SCENARIO NOW'') (\<lambda>_.
          bind_prog (py_sleep os observe_seconds) (\<lambda>_.
          request_status os TYPE_GET_RUNTIME_MEMORY_STATUS 0x60 ''RUNTIME_MEMORY_STATUS''
            decode_runtime_memory_status)))))
       (\<lambda>status.
     print_lines
       [[], ''Runtime SRAM watermark'', [],
        ''Painted region        : '' @ dec (painted_bytes status) @ '' bytes'',
        ''Used painted region   : '' @ dec (used_painted_bytes status) @ '' bytes'',
        ''Minimum free observed : '' @ dec (min_free_bytes status) @ '' bytes'', [],
        ''Observed watermark, not guaranteed worst-case stack bound.''])))"

definition run_rt_profile ::
  "'w os \<Rightarrow> string \<Rightarrow> pyfloat \<Rightarrow> (('w, 'z) host_scheme, unit) prog" where
  "run_rt_profile os port observe_seconds =
     bind_prog (lift_res (validate_observe_seconds observe_seconds)) (\<lambda>_.
     bind_prog
       (print_lines
         [''SENTRY-CELL UNO Scheduled-Task Runtime Profile'', ''Port: '' @ port,
          ''Observation window: '' @ fmt_g_float observe_seconds @ '' s'', []]) (\<lambda>_.
     bind_prog
       (with_link os port
         (bind_prog (settle_board os) (\<lambda>_.
          bind_prog (print_line ''RUN PHYSICAL SCENARIO NOW'') (\<lambda>_.
          bind_prog (py_sleep os observe_seconds) (\<lambda>_.
          bind_prog
            (request_status os TYPE_GET_CPU_LOAD_STATUS 0x70 ''CPU_LOAD_STATUS''
              decode_cpu_load_status) (\<lambda>cpu_status.
          bind_prog
            (request_status os TYPE_GET_OVERRUN_STATUS 0x71 ''OVERRUN_STATUS''
              decode_overrun_status) (\<lambda>overruns.
          ret (cpu_status, overruns))))))))
       (\<lambda>(cpu_status, overruns).
     let utilization =
           calculate_scheduled_task_utilization (busy_ticks cpu_status) (elapsed_ms cpu_status)
     in print_lines
       [[], ''Real-Time Runtime Profile'', [],
        ''Observation time                : '' @ dec (elapsed_ms cpu_status) @ '' ms'',
        ''Scheduled-task busy time        : '' @ dec (busy_ticks cpu_status) @ '' ticks'',
        ''Scheduled-task CPU utilization  : '' @ fmt_1f utilization @ '' %'', [],
        ''Execution overruns'',
        ''Actuator       : '' @ dec (actuator overruns),
        ''Control        : '' @ dec (control overruns),
        ''Sensor/Safety  : '' @ dec (sensor_safety overruns),
        ''Communication  : '' @ dec (communication overruns), [],
        ''ISR and scheduler overhead are not included in this utilization.''])))"

section \<open>The decoders accept only answers\<close>

lemma decoder_answers:
  "valid_frame f \<Longrightarrow> sequence f = s \<Longrightarrow> decode_comm_status f = Inr cs \<Longrightarrow>
     answers (mk_frame TYPE_GET_COMM_STATUS s []) f"
  "valid_frame f \<Longrightarrow> sequence f = s \<Longrightarrow> decode_timing_status f = Inr ts \<Longrightarrow>
     answers (mk_frame TYPE_GET_TIMING_STATUS s []) f"
  "valid_frame f \<Longrightarrow> sequence f = s \<Longrightarrow> decode_jitter_status f = Inr js \<Longrightarrow>
     answers (mk_frame TYPE_GET_JITTER_STATUS s []) f"
  "valid_frame f \<Longrightarrow> sequence f = s \<Longrightarrow> decode_runtime_memory_status f = Inr rs \<Longrightarrow>
     answers (mk_frame TYPE_GET_RUNTIME_MEMORY_STATUS s []) f"
  "valid_frame f \<Longrightarrow> sequence f = s \<Longrightarrow> decode_cpu_load_status f = Inr us \<Longrightarrow>
     answers (mk_frame TYPE_GET_CPU_LOAD_STATUS s []) f"
  "valid_frame f \<Longrightarrow> sequence f = s \<Longrightarrow> decode_overrun_status f = Inr os \<Longrightarrow>
     answers (mk_frame TYPE_GET_OVERRUN_STATUS s []) f"
  "valid_frame f \<Longrightarrow> sequence f = s \<Longrightarrow> decode_reset_cause f = Inr cs' \<Longrightarrow>
     answers (mk_frame TYPE_GET_RESET_CAUSE s []) f"
  "valid_frame f \<Longrightarrow> sequence f = s \<Longrightarrow> decode_watchdog_status f = Inr ws \<Longrightarrow>
     answers (mk_frame TYPE_GET_WATCHDOG_STATUS s []) f"
  by (simp_all add: answers_defs type_defs decode_comm_status_def decode_timing_status_def
      decode_jitter_status_def decode_runtime_memory_status_def decode_cpu_load_status_def
      decode_overrun_status_def decode_reset_cause_def decode_watchdog_status_def
      bind_res_Inr_iff expect_status_iff)

lemma valid_request:
  "0 \<le> ty \<Longrightarrow> ty \<le> 255 \<Longrightarrow> 0 \<le> s \<Longrightarrow> s \<le> 255 \<Longrightarrow> valid_frame (mk_frame ty s [])"
  by (simp add: valid_frame_def)

section \<open>The conversations of the modes\<close>

text \<open>What each section prints of the frame it received.\<close>

definition comm_lines :: "frame \<Rightarrow> string list" where
  "comm_lines f =
     [[], ''Communication health'',
      ''UART RX overflow : '' @ dec (uint (payload f ! 0)),
      ''Parser timeouts  : '' @ dec (uint (payload f ! 1)),
      ''CRC errors       : '' @ dec (uint (payload f ! 2))]"

definition field_le :: "frame \<Rightarrow> nat \<Rightarrow> nat \<Rightarrow> int" where
  "field_le f i j = from_bytes_le (slice i j (payload f))"

definition timing_lines :: "frame \<Rightarrow> string list" where
  "timing_lines f =
     [[], ''Task execution-time maxima'',
      ticks_line ''Actuator        : '' (field_le f 0 2),
      ticks_line ''Control         : '' (field_le f 2 4),
      ticks_line ''Sensor/Safety   : '' (field_le f 4 6),
      ticks_line ''Communication   : '' (field_le f 6 8)]"

definition jitter_lines :: "frame \<Rightarrow> string list" where
  "jitter_lines f =
     [[], ''Scheduler jitter maxima'', ''Resolution: 1 ms'', [],
      ''Actuator        : '' @ dec (field_le f 0 2) @ '' ms'',
      ''Control         : '' @ dec (field_le f 2 4) @ '' ms'',
      ''Sensor/Safety   : '' @ dec (field_le f 4 6) @ '' ms'',
      ''Communication   : '' @ dec (field_le f 6 8) @ '' ms'']"

definition section_lines :: "frame \<Rightarrow> string list" where
  "section_lines f =
     (if frame_type f = TYPE_PONG then [''PING seq=0x10 -> PONG [PASS]'']
      else if frame_type f = TYPE_ACK then [''ECHO seq=0x20 payload=11 22 33 44 -> ACK [PASS]'']
      else if frame_type f = TYPE_COMM_STATUS then comm_lines f
      else if frame_type f = TYPE_TIMING_STATUS then timing_lines f
      else jitter_lines f)"

definition bring_up_requests :: "bool \<Rightarrow> bool \<Rightarrow> bool \<Rightarrow> frame list" where
  "bring_up_requests s t j =
     [mk_frame TYPE_PING 0x10 [], mk_frame TYPE_ECHO 0x20 echo_payload]
       @ (if s then [mk_frame TYPE_GET_COMM_STATUS 0x30 []] else [])
       @ (if t then [mk_frame TYPE_GET_TIMING_STATUS 0x40 []] else [])
       @ (if j then [mk_frame TYPE_GET_JITTER_STATUS 0x50 []] else [])"

definition memory_header :: "string \<Rightarrow> pyfloat \<Rightarrow> string list" where
  "memory_header port x =
     [''SENTRY-CELL UNO Runtime SRAM Watermark'', ''Port: '' @ port,
      ''Observation window: '' @ fmt_g_float x @ '' s'', [], ''RUN PHYSICAL SCENARIO NOW'']"

definition rt_header :: "string \<Rightarrow> pyfloat \<Rightarrow> string list" where
  "rt_header port x =
     [''SENTRY-CELL UNO Scheduled-Task Runtime Profile'', ''Port: '' @ port,
      ''Observation window: '' @ fmt_g_float x @ '' s'', [], ''RUN PHYSICAL SCENARIO NOW'']"

definition memory_lines :: "frame \<Rightarrow> string list" where
  "memory_lines f =
     [[], ''Runtime SRAM watermark'', [],
      ''Painted region        : '' @ dec (field_le f 2 4) @ '' bytes'',
      ''Used painted region   : '' @ dec (field_le f 4 6) @ '' bytes'',
      ''Minimum free observed : '' @ dec (field_le f 0 2) @ '' bytes'', [],
      ''Observed watermark, not guaranteed worst-case stack bound.'']"

definition rt_lines :: "frame \<Rightarrow> frame \<Rightarrow> string list" where
  "rt_lines f g =
     [[], ''Real-Time Runtime Profile'', [],
      ''Observation time                : '' @ dec (field_le f 4 8) @ '' ms'',
      ''Scheduled-task busy time        : '' @ dec (field_le f 0 4) @ '' ticks'',
      ''Scheduled-task CPU utilization  : ''
        @ fmt_1f (calculate_scheduled_task_utilization (field_le f 0 4) (field_le f 4 8)) @ '' %'', [],
      ''Execution overruns'',
      ''Actuator       : '' @ dec (field_le g 0 2),
      ''Control        : '' @ dec (field_le g 2 4),
      ''Sensor/Safety  : '' @ dec (field_le g 4 6),
      ''Communication  : '' @ dec (field_le g 6 8), [],
      ''ISR and scheduler overhead are not included in this utilization.'']"

context host_env
begin

lemma talks_ping_check:
  "talks rx tx (ping_check os) [mk_frame TYPE_PING 0x10 []]
     (\<lambda>fs ls _. ls = concat (map section_lines fs))"
  unfolding ping_check_def
  by (rule talks_check [OF _ _ talks_print(1)])
    (auto simp: require_response_iff answers_defs type_defs section_lines_def valid_frame_def)

lemma talks_echo_check:
  "talks rx tx (echo_check os) [mk_frame TYPE_ECHO 0x20 echo_payload]
     (\<lambda>fs ls _. ls = concat (map section_lines fs))"
  unfolding echo_check_def
  by (rule talks_check [OF _ _ talks_print(1)])
    (auto simp: require_response_iff answers_defs type_defs section_lines_def valid_frame_def
      echo_payload_def MAX_PAYLOAD_def)

lemma talks_status_section:
  "talks rx tx (status_section os) [mk_frame TYPE_GET_COMM_STATUS 0x30 []]
     (\<lambda>fs ls _. ls = concat (map section_lines fs))"
  unfolding status_section_def
  by (rule talks_seq [OF talks_request_status talks_print(2)])
    (auto simp: valid_request answers_defs type_defs section_lines_def comm_lines_def
      decode_comm_status_def bind_res_Inr_iff expect_status_iff)

lemma talks_timing_section:
  "talks rx tx (timing_section os) [mk_frame TYPE_GET_TIMING_STATUS 0x40 []]
     (\<lambda>fs ls _. ls = concat (map section_lines fs))"
  unfolding timing_section_def
  by (rule talks_seq [OF talks_request_status talks_print(2)])
    (auto simp: valid_request answers_defs type_defs section_lines_def timing_lines_def
      field_le_def decode_timing_status_def bind_res_Inr_iff expect_status_iff)

lemma talks_jitter_section:
  "talks rx tx (jitter_section os) [mk_frame TYPE_GET_JITTER_STATUS 0x50 []]
     (\<lambda>fs ls _. ls = concat (map section_lines fs))"
  unfolding jitter_section_def
  by (rule talks_seq [OF talks_request_status talks_print(2)])
    (auto simp: valid_request answers_defs type_defs section_lines_def jitter_lines_def
      field_le_def decode_jitter_status_def bind_res_Inr_iff expect_status_iff)

lemma talks_opt:
  "talks rx tx m qs (\<lambda>fs ls _. ls = concat (map g fs)) \<Longrightarrow>
     talks rx tx (when_prog b m) (if b then qs else []) (\<lambda>fs ls _. ls = concat (map g fs))"
  by (rule talks_mono [OF talks_when refl]) (auto split: if_splits)

text \<open>
  A successful bring-up: the requests in order, one answer to each and nothing else
  consumed, and a report made of exactly those answers.
\<close>

lemma talks_run_supervisor:
  "talks rx tx (run_supervisor os port s t j) (bring_up_requests s t j)
     (\<lambda>fs ls _. ls = [''SENTRY-CELL UNO Supervisor'', ''Port: '' @ port, []]
        @ concat (map section_lines fs)
        @ [[], ''Protocol checks: PASS'', ''Serial link: PASS'', ''Supervisor bring-up: PASS''])"
proof -
  let ?S = "\<lambda>fs ls _. ls = concat (map section_lines fs)"
  have body: "talks rx tx
      (bind_prog (settle_board os) (\<lambda>_. bind_prog (ping_check os) (\<lambda>_.
       bind_prog (echo_check os) (\<lambda>_. bind_prog (when_prog s (status_section os)) (\<lambda>_.
       bind_prog (when_prog t (timing_section os)) (\<lambda>_. when_prog j (jitter_section os)))))))
      (bring_up_requests s t j) ?S"
    unfolding settle_board_def bring_up_requests_def
    by (rule talks_mono [OF talks_bind [OF talks_sleep talks_bind [OF talks_ping_check talks_bind [OF talks_echo_check
          talks_bind [OF talks_opt [OF talks_status_section] talks_bind [OF talks_opt [OF talks_timing_section]
          talks_opt [OF talks_jitter_section]]]]]]])
      auto
  show ?thesis
    unfolding run_supervisor_def
    by (rule talks_mono [OF talks_bind [OF talks_print(2) talks_bind [OF talks_with_link [OF body] talks_print(2)]]])
      auto
qed

text \<open>The two observation modes.\<close>

lemma talks_run_runtime_memory:
  "talks rx tx (run_runtime_memory os port x) [mk_frame TYPE_GET_RUNTIME_MEMORY_STATUS 0x60 []]
     (\<lambda>fs ls _. fl_less (Fin 0) x \<and> (\<exists>f. fs = [f] \<and> ls =
        memory_header port x @ memory_lines f))"
  unfolding run_runtime_memory_def settle_board_def
  by (rule talks_mono [OF talks_bind [OF talks_lift_res talks_bind [OF talks_print(2) talks_bind
        [OF talks_with_link [OF talks_bind [OF talks_sleep talks_bind [OF talks_print(1) talks_bind
          [OF talks_sleep talks_request_status]]]] talks_print(2)]]]])
    (auto simp: valid_request answers_defs type_defs memory_header_def memory_lines_def field_le_def
      validate_observe_seconds_def decode_runtime_memory_status_def bind_res_Inr_iff
      expect_status_iff split: if_splits)

lemma talks_run_rt_profile:
  "talks rx tx (run_rt_profile os port x)
     [mk_frame TYPE_GET_CPU_LOAD_STATUS 0x70 [], mk_frame TYPE_GET_OVERRUN_STATUS 0x71 []]
     (\<lambda>fs ls _. fl_less (Fin 0) x \<and> (\<exists>f g. fs = [f, g] \<and> ls =
        rt_header port x @ rt_lines f g))"
proof -
  have report: "talks rx tx (case r of (c, ov) \<Rightarrow> let u = util c in print_lines (ls c ov u)) []
      (\<lambda>fs ls' _. fs = [] \<and> ls' = ls (fst r) (snd r) (util (fst r)))" for r ls and util :: "'u \<Rightarrow> 'v"
    using talks_print(2) by (cases r) simp
  show ?thesis
    unfolding run_rt_profile_def settle_board_def
    by (rule talks_mono [OF talks_bind [OF talks_lift_res talks_bind [OF talks_print(2) talks_bind
          [OF talks_with_link [OF talks_bind [OF talks_sleep talks_bind [OF talks_print(1) talks_bind
            [OF talks_sleep talks_bind [OF talks_request_status talks_bind [OF talks_request_status
              talks_ret]]]]]] report]]]])
      (auto simp: valid_request answers_defs type_defs rt_header_def rt_lines_def field_le_def
        validate_observe_seconds_def decode_cpu_load_status_def decode_overrun_status_def
        bind_res_Inr_iff expect_status_iff split: if_splits)
qed

lemma returns_modes [returns_intros]:
  "returns (run_supervisor os port s t j) h" "returns (run_runtime_memory os port x) h"
  "returns (run_rt_profile os port x) h"
  unfolding run_supervisor_def run_runtime_memory_def run_rt_profile_def settle_board_def
    ping_check_def echo_check_def status_section_def timing_section_def jitter_section_def Let_def
  by (intro returns_intros)+

end

section \<open>What the modes do on a serial line\<close>

lemma says_bring_up:
  assumes "P (''PING seq=0x10 -> PONG [PASS]'')" "P (''ECHO seq=0x20 payload=11 22 33 44 -> ACK [PASS]'')"
    and "\<And>l. l \<noteq> ''Supervisor bring-up: PASS'' \<Longrightarrow> P l"
  shows "says P (bind_prog (settle_board os) (\<lambda>_. bind_prog (ping_check os) (\<lambda>_.
       bind_prog (echo_check os) (\<lambda>_. bind_prog (when_prog s (status_section os)) (\<lambda>_.
       bind_prog (when_prog t (timing_section os)) (\<lambda>_. when_prog j (jitter_section os)))))))"
  unfolding settle_board_def ping_check_def echo_check_def status_section_def timing_section_def
    jitter_section_def ticks_line_def
  by (intro says_intros) (auto intro!: assms)

lemma run_supervisor_closes:
  "wp (run_supervisor os port s t j) (\<lambda>_ h'. link_fd h' = None)
     (\<lambda>_ h'. link_fd h' = None \<and>
        (\<exists>ls. out h' = out h @ ls \<and> ''Supervisor bring-up: PASS'' \<notin> set ls)) h"
proof -
  let ?P = "\<lambda>l. l \<noteq> ''Supervisor bring-up: PASS''"
  have "wp (with_link os port b)
      (\<lambda>_ g'. link_fd g' = None \<and> (\<exists>ls. out g' = out g @ ls \<and> list_all ?P ls))
      (\<lambda>_ g'. link_fd g' = None \<and> (\<exists>ls. out g' = out g @ ls \<and> list_all ?P ls)) g"
    if "says ?P b" for b g
    by (rule wp_conj [OF wp_with_link_closed says_wp [OF says_with_link [OF that]]])
  note session = this [OF says_bring_up]
  show ?thesis
    unfolding run_supervisor_def wp_bind wp_print_lines
  proof (rule wp_mono [OF session], goal_cases)
    case (5 e g')
    then show ?case by (auto simp: list_all_iff)
  qed simp_all
qed

text \<open>
  C2: bring-up always returns. When it passes, exactly the requests went out, exactly
  one protocol answer to each was consumed, and the report was made of those answers;
  when it fails, no PASS line of the bring-up was printed. Either way the link is
  closed.
\<close>

theorem bring_up:
  "returns (run_supervisor (line_os d) port s t j) h \<and>
   wp (run_supervisor (line_os d) port s t j)
     (\<lambda>_ h'. \<exists>fs. list_all2 answers (bring_up_requests s t j) fs \<and>
        tx_sent (world h') = tx_sent (world h) @ concat (map wire (bring_up_requests s t j)) \<and>
        rx_seen (world h') = rx_seen (world h) @ concat (map wire fs) \<and>
        out h' = out h @ [''SENTRY-CELL UNO Supervisor'', ''Port: '' @ port, []]
          @ concat (map section_lines fs)
          @ [[], ''Protocol checks: PASS'', ''Serial link: PASS'', ''Supervisor bring-up: PASS''] \<and>
        link_fd h' = None)
     (\<lambda>_ h'. link_fd h' = None \<and>
        (\<exists>ls. out h' = out h @ ls \<and> ''Supervisor bring-up: PASS'' \<notin> set ls)) h"
  by (rule conjI [OF line_env.returns_modes(1)],
      rule wp_mono [OF wp_conj [OF talks_wp [OF line_env.talks_run_supervisor] run_supervisor_closes]])
    blast+

lemma wp_with_link_after:
  "(\<And>x h'. link_fd h' = None \<Longrightarrow> Q x h') \<Longrightarrow>
     wp (with_link os port b) Q (\<lambda>_ h'. link_fd h' = None \<or> h' = h) g"
  by (rule wp_mono [OF wp_with_link_closed]) auto

lemma observation_modes_close:
  "wp (run_runtime_memory os port x) (\<lambda>_ h'. link_fd h' = None)
     (\<lambda>_ h'. link_fd h' = None \<or> h' = h) h"
  "wp (run_rt_profile os port x) (\<lambda>_ h'. link_fd h' = None)
     (\<lambda>_ h'. link_fd h' = None \<or> h' = h) h"
proof -
  note w = wp_with_link_after
  show "wp (run_runtime_memory os port x) (\<lambda>_ h'. link_fd h' = None)
     (\<lambda>_ h'. link_fd h' = None \<or> h' = h) h"
    unfolding run_runtime_memory_def
    by (simp add: validate_observe_seconds_def) (auto intro!: w)
  show "wp (run_rt_profile os port x) (\<lambda>_ h'. link_fd h' = None)
     (\<lambda>_ h'. link_fd h' = None \<or> h' = h) h"
    unfolding run_rt_profile_def
    by (simp add: validate_observe_seconds_def) (auto intro!: w simp: Let_def split: prod.splits)
qed



end
