(* ===== verification/Dashboard_Poller.thy ===== *)
theory Dashboard_Poller
  imports Dashboard_Store Supervisor
begin

text \<open>
  The poller thread of \<open>supervisor/dashboard.py\<close>: its requests with their sequence
  numbers, one poll with its error handling, the pacing of the polls and the thread's
  loop. The store and the sequence number extend the host program's state; the stop
  event is a record of the two calls that the thread makes on it.
\<close>

section \<open>The store in the program\<close>

record 'w dashboard_host = "'w host" +
  store :: dashboard_store
  poll_sequence :: int

definition with_store :: "(dashboard_store, 'a) prog \<Rightarrow> (('w, 'z) dashboard_host_scheme, 'a) prog" where
  "with_store m h =
     (case m (store h) of
        None \<Rightarrow> None
      | Some (r, s) \<Rightarrow> Some (r, h\<lparr>store := s\<rparr>))"

text \<open>\<open>time.time() if now_epoch is None else now_epoch\<close>.\<close>

definition now_or :: "'w os \<Rightarrow> rat option \<Rightarrow> (('w, 'z) host_scheme, rat) prog" where
  "now_or os now = (case now of None \<Rightarrow> call_total (os_time os) | Some t \<Rightarrow> ret t)"

definition record_success ::
  "'w os \<Rightarrow> statuses \<Rightarrow> rat option \<Rightarrow> (('w, 'z) dashboard_host_scheme, unit) prog" where
  "record_success os st now =
     bind_prog (now_or os now) (\<lambda>timestamp. with_store (record_success_at timestamp st))"

definition record_failure ::
  "'w os \<Rightarrow> string \<Rightarrow> rat option \<Rightarrow> (('w, 'z) dashboard_host_scheme, unit) prog" where
  "record_failure os error now =
     bind_prog (now_or os now) (\<lambda>timestamp. with_store (record_failure_at timestamp error))"

definition status_payload ::
  "'w os \<Rightarrow> rat option \<Rightarrow> (('w, 'z) dashboard_host_scheme, json) prog" where
  "status_payload os now = bind_prog (now_or os now) (\<lambda>t. with_store (status_payload_at t))"

section \<open>One poll\<close>

definition DEFAULT_POLL_INTERVAL_SECONDS :: rat where "DEFAULT_POLL_INTERVAL_SECONDS = 1"
definition DEFAULT_RESPONSE_TIMEOUT_SECONDS :: rat where "DEFAULT_RESPONSE_TIMEOUT_SECONDS = 1"

definition POLL_START :: int where "POLL_START = 0x90"

text \<open>The checks of the constructor and the state it sets.\<close>

definition new_poller :: "rat \<Rightarrow> rat \<Rightarrow> (('w, 'z) dashboard_host_scheme, unit) prog" where
  "new_poller interval timeout =
     (if interval \<le> 0 then raise ValueError ''poll_interval_seconds must be greater than zero''
      else if timeout \<le> 0 then
        raise ValueError ''response_timeout_seconds must be greater than zero''
      else modify (\<lambda>h. h\<lparr>poll_sequence := POLL_START\<rparr>))"

definition poll_next_sequence :: "(('w, 'z) dashboard_host_scheme, int) prog" where
  "poll_next_sequence =
     bind_prog (get_st poll_sequence) (\<lambda>s.
     bind_prog (modify (\<lambda>h. h\<lparr>poll_sequence := (poll_sequence h + 1) AND 0xFF\<rparr>)) (\<lambda>_.
     ret s))"

definition poll_request ::
  "'w os \<Rightarrow> (rat \<Rightarrow> (('w, 'z) dashboard_host_scheme, frame) prog) \<Rightarrow> rat \<Rightarrow> int \<Rightarrow> int \<Rightarrow>
     (frame \<Rightarrow> 'a res) \<Rightarrow> (('w, 'z) dashboard_host_scheme, 'a) prog" where
  "poll_request os read_frame timeout request_type resp_type decoder =
     bind_prog poll_next_sequence (\<lambda>seq.
     bind_prog (send_frame os (mk_frame request_type seq [])) (\<lambda>_.
     bind_prog (read_frame timeout) (\<lambda>response.
     if frame_type response \<noteq> resp_type then
       raise ValueError
         (''unexpected response type 0x'' @ hex02 (frame_type response) @ ''; expected 0x''
            @ hex02 resp_type)
     else if sequence response \<noteq> seq then
       raise ValueError
         (''unexpected response sequence 0x'' @ hex02 (sequence response) @ ''; expected 0x''
            @ hex02 seq)
     else lift_res (decoder response))))"

definition poll_statuses ::
  "'w os \<Rightarrow> (rat \<Rightarrow> (('w, 'z) dashboard_host_scheme, frame) prog) \<Rightarrow> rat \<Rightarrow>
     (('w, 'z) dashboard_host_scheme, statuses) prog" where
  "poll_statuses os rf timeout =
     bind_prog (poll_request os rf timeout TYPE_GET_COMM_STATUS TYPE_COMM_STATUS decode_comm_status) (\<lambda>comm.
     bind_prog (poll_request os rf timeout TYPE_GET_TIMING_STATUS TYPE_TIMING_STATUS decode_timing_status) (\<lambda>timing.
     bind_prog (poll_request os rf timeout TYPE_GET_JITTER_STATUS TYPE_JITTER_STATUS decode_jitter_status) (\<lambda>jitter.
     bind_prog (poll_request os rf timeout TYPE_GET_RUNTIME_MEMORY_STATUS TYPE_RUNTIME_MEMORY_STATUS
       decode_runtime_memory_status) (\<lambda>mem.
     bind_prog (poll_request os rf timeout TYPE_GET_CPU_LOAD_STATUS TYPE_CPU_LOAD_STATUS decode_cpu_load_status) (\<lambda>cpu.
     bind_prog (poll_request os rf timeout TYPE_GET_OVERRUN_STATUS TYPE_OVERRUN_STATUS decode_overrun_status) (\<lambda>ov.
     bind_prog (poll_request os rf timeout TYPE_GET_WATCHDOG_STATUS TYPE_WATCHDOG_STATUS decode_watchdog_status) (\<lambda>wd.
     ret (comm, timing, jitter, mem, cpu, ov, wd))))))))"

text \<open>\<open>f"{type(error).__name__}: {error}"\<close>\<close>

definition error_text :: "exc \<Rightarrow> string" where
  "error_text e = class_name (exc_class e) @ '': '' @ exc_msg e"

text \<open>
  The two \<open>except\<close> clauses; an exception of the first handler is not caught by the second.
\<close>

definition recovery_text :: "exc \<Rightarrow> exc \<Rightarrow> string" where
  "recovery_text e e' = error_text e @ ''; RX recovery failed: '' @ error_text e'"

definition poll_failed :: "'w os \<Rightarrow> exc \<Rightarrow> (('w, 'z) dashboard_host_scheme, unit) prog" where
  "poll_failed os e =
     (if catches [SerialTimeoutError] e then
        bind_prog (record_failure os (error_text e) None) (\<lambda>_.
        try_except (recover_rx_after_timeout os) [Exception] (\<lambda>recovery_error.
          record_failure os (recovery_text e recovery_error) None))
      else record_failure os (error_text e) None)"

definition poll_once ::
  "'w os \<Rightarrow> (rat \<Rightarrow> (('w, 'z) dashboard_host_scheme, frame) prog) \<Rightarrow> rat \<Rightarrow>
     (('w, 'z) dashboard_host_scheme, bool) prog" where
  "poll_once os rf timeout =
     bind_prog
       (try_except (bind_prog (poll_statuses os rf timeout) (\<lambda>st. ret (Some st))) [Exception]
         (\<lambda>e. bind_prog (poll_failed os e) (\<lambda>_. ret None)))
       (\<lambda>r. case r of
              None \<Rightarrow> ret False
            | Some st \<Rightarrow> bind_prog (record_success os st None) (\<lambda>_. ret True))"

section \<open>The thread\<close>

record 'w stop_event =
  ev_is_set :: "'w \<Rightarrow> bool \<times> 'w"
  ev_wait :: "rat \<Rightarrow> 'w \<Rightarrow> bool \<times> 'w"

text \<open>One round of the loop: \<open>None\<close> leaves it, otherwise the time of the next poll.\<close>

definition next_cycle :: "rat \<Rightarrow> rat \<Rightarrow> rat \<Rightarrow> bool \<Rightarrow> rat" where
  "next_cycle interval next_at now succeeded =
     (if succeeded then
        (if next_at + interval \<le> now then now + interval else next_at + interval)
      else now + interval)"

definition poll_cycle ::
  "'w os \<Rightarrow> 'w stop_event \<Rightarrow> (('w, 'z) dashboard_host_scheme, bool) prog \<Rightarrow> rat \<Rightarrow> rat \<Rightarrow>
     (('w, 'z) dashboard_host_scheme, rat option) prog" where
  "poll_cycle os ev poll interval next_at =
     bind_prog (call_total (ev_is_set ev)) (\<lambda>stopped.
     if stopped then ret None
     else
       bind_prog (call_total (os_monotonic os)) (\<lambda>now.
       let remaining = max 0 (next_at - now) in
       bind_prog (if 0 < remaining then call_total (ev_wait ev remaining) else ret False) (\<lambda>waited.
       if waited then ret None
       else
         bind_prog (call_total (ev_is_set ev)) (\<lambda>stopped'.
         if stopped' then ret None
         else
           bind_prog poll (\<lambda>succeeded.
           bind_prog (call_total (os_monotonic os)) (\<lambda>now'.
           ret (Some (next_cycle interval next_at now' succeeded))))))))"

text \<open>The loop ends when the event is set, so it is a partial function.\<close>

partial_function (option) poll_loop ::
  "'w os \<Rightarrow> 'w stop_event \<Rightarrow> (('w, 'z) dashboard_host_scheme, bool) prog \<Rightarrow> rat \<Rightarrow> rat \<Rightarrow>
     ('w, 'z) dashboard_host_scheme \<Rightarrow> (unit res \<times> ('w, 'z) dashboard_host_scheme) option" where
  "poll_loop os ev poll interval next_at h =
     (case poll_cycle os ev poll interval next_at h of
        None \<Rightarrow> None
      | Some (Inl e, h') \<Rightarrow> Some (Inl e, h')
      | Some (Inr r, h') \<Rightarrow>
          (case r of
             None \<Rightarrow> Some (Inr (), h')
           | Some t \<Rightarrow> poll_loop os ev poll interval t h'))"

definition poller_run ::
  "'w os \<Rightarrow> 'w stop_event \<Rightarrow> (rat \<Rightarrow> (('w, 'z) dashboard_host_scheme, frame) prog) \<Rightarrow> rat \<Rightarrow> rat \<Rightarrow>
     (('w, 'z) dashboard_host_scheme, unit) prog" where
  "poller_run os ev rf interval timeout =
     bind_prog (call_total (os_monotonic os))
       (poll_loop os ev (poll_once os rf timeout) interval)"

section \<open>The requests of a poll\<close>

text \<open>The requests for the types \<open>tys\<close> from sequence number \<open>s\<close> on.\<close>

fun poll_requests :: "int \<Rightarrow> int list \<Rightarrow> frame list" where
  "poll_requests s [] = []"
| "poll_requests s (ty # tys) = mk_frame ty s [] # poll_requests ((s + 1) mod 256) tys"

definition poll_types :: "int list" where
  "poll_types = [TYPE_GET_COMM_STATUS, TYPE_GET_TIMING_STATUS, TYPE_GET_JITTER_STATUS,
     TYPE_GET_RUNTIME_MEMORY_STATUS, TYPE_GET_CPU_LOAD_STATUS, TYPE_GET_OVERRUN_STATUS,
     TYPE_GET_WATCHDOG_STATUS]"

lemma length_poll_types: "length poll_types = 7"
  by (simp add: poll_types_def)

lemma poll_requests_append:
  "0 \<le> s \<Longrightarrow> s \<le> 255 \<Longrightarrow>
     poll_requests s (xs @ ys) = poll_requests s xs @ poll_requests ((s + int (length xs)) mod 256) ys"
proof (induction xs arbitrary: s)
  case (Cons x xs)
  have "((s + 1) mod 256 + int (length xs)) mod 256 = (s + int (length (x # xs))) mod 256"
    by (simp add: mod_simps algebra_simps)
  with Cons.IH [of "(s + 1) mod 256"] show ?case by simp
qed simp

text \<open>
  \<open>polls rx tx m tys R\<close>: whenever \<open>m\<close> returns a value it has requested \<open>tys\<close>, in order,
  with consecutive sequence numbers, and got exactly one answer to each; \<open>R\<close> relates the
  answers to the value.
\<close>

definition polls ::
  "('w \<Rightarrow> bytes) \<Rightarrow> ('w \<Rightarrow> bytes) \<Rightarrow> (('w, 'z) dashboard_host_scheme, 'a) prog \<Rightarrow> int list \<Rightarrow>
     (frame list \<Rightarrow> 'a \<Rightarrow> bool) \<Rightarrow> bool" where
  "polls rx tx m tys R \<longleftrightarrow>
     (\<forall>h x h'. 0 \<le> poll_sequence h \<longrightarrow> poll_sequence h \<le> 255 \<longrightarrow> m h = Some (Inr x, h') \<longrightarrow>
        (\<exists>fs. list_all2 answers (poll_requests (poll_sequence h) tys) fs \<and> R fs x \<and>
           tx (world h') = tx (world h) @ concat (map wire (poll_requests (poll_sequence h) tys)) \<and>
           rx (world h') = rx (world h) @ concat (map wire fs) \<and>
           poll_sequence h' = (poll_sequence h + int (length tys)) mod 256))"

lemma polls_ret: "polls rx tx (ret v) [] (\<lambda>fs x. fs = [] \<and> x = v)"
  by (simp add: polls_def ret_def)

lemma polls_bind:
  assumes "polls rx tx m tys R" "\<And>x. polls rx tx (k x) tys' (R' x)"
  shows "polls rx tx (bind_prog m k) (tys @ tys')
    (\<lambda>fs y. \<exists>gs gs' x. fs = gs @ gs' \<and> R gs x \<and> R' x gs' y)"
  unfolding polls_def
proof (intro allI impI)
  fix h y h'
  assume s: "0 \<le> poll_sequence h" "poll_sequence h \<le> 255" and run: "bind_prog m k h = Some (Inr y, h')"
  from run obtain x h1 where 1: "m h = Some (Inr x, h1)" and 2: "k x h1 = Some (Inr y, h')"
    by (auto simp: bind_prog_def split: option.splits prod.splits sum.splits)
  from assms(1) s 1 obtain fs where a:
    "list_all2 answers (poll_requests (poll_sequence h) tys) fs" "R fs x"
    "tx (world h1) = tx (world h) @ concat (map wire (poll_requests (poll_sequence h) tys))"
    "rx (world h1) = rx (world h) @ concat (map wire fs)"
    "poll_sequence h1 = (poll_sequence h + int (length tys)) mod 256"
    unfolding polls_def by blast
  have "0 \<le> poll_sequence h1" "poll_sequence h1 \<le> 255" by (simp_all add: a(5))
  with assms(2) [of x] 2 obtain gs where b:
    "list_all2 answers (poll_requests (poll_sequence h1) tys') gs" "R' x gs y"
    "tx (world h') = tx (world h1) @ concat (map wire (poll_requests (poll_sequence h1) tys'))"
    "rx (world h') = rx (world h1) @ concat (map wire gs)"
    "poll_sequence h' = (poll_sequence h1 + int (length tys')) mod 256"
    unfolding polls_def by blast
  show "\<exists>fs. list_all2 answers (poll_requests (poll_sequence h) (tys @ tys')) fs \<and>
      (\<exists>gs gs' x. fs = gs @ gs' \<and> R gs x \<and> R' x gs' y) \<and>
      tx (world h') = tx (world h) @ concat (map wire (poll_requests (poll_sequence h) (tys @ tys'))) \<and>
      rx (world h') = rx (world h) @ concat (map wire fs) \<and>
      poll_sequence h' = (poll_sequence h + int (length (tys @ tys'))) mod 256"
    by (rule exI [of _ "fs @ gs"])
      (use a b s in \<open>auto simp: poll_requests_append mod_simps algebra_simps intro: list_all2_appendI\<close>)
qed

lemma polls_mono:
  assumes "polls rx tx m tys R" "tys = tys'" "\<And>fs x. R fs x \<Longrightarrow> S fs x"
  shows "polls rx tx m tys' S"
  using assms unfolding polls_def by blast

text \<open>What a poll makes of its seven answers.\<close>

definition polled :: "frame list \<Rightarrow> statuses \<Rightarrow> bool" where
  "polled fs = (\<lambda>(comm, timing, jitter, mem, cpu, ov, wd).
     (\<exists>a b c d e f g. fs = [a, b, c, d, e, f, g] \<and> decode_comm_status a = Inr comm \<and>
        decode_timing_status b = Inr timing \<and> decode_jitter_status c = Inr jitter \<and>
        decode_runtime_memory_status d = Inr mem \<and> decode_cpu_load_status e = Inr cpu \<and>
        decode_overrun_status f = Inr ov \<and> decode_watchdog_status g = Inr wd))"

context host_env
begin

lemma polls_request:
  assumes "0 \<le> ty" "ty \<le> 255"
    and "\<And>f x s. valid_frame f \<Longrightarrow> sequence f = s \<Longrightarrow> dcd f = Inr x \<Longrightarrow> answers (mk_frame ty s []) f"
  shows "polls rx tx (poll_request os (read_protocol_frame os) 1 ty rty dcd) [ty]
    (\<lambda>fs x. \<exists>f. fs = [f] \<and> dcd f = Inr x)"
  unfolding polls_def
proof (intro allI impI)
  fix h x h'
  assume s: "0 \<le> poll_sequence h" "poll_sequence h \<le> 255"
    and run: "poll_request os (read_protocol_frame os) 1 ty rty dcd h = Some (Inr x, h')"
  let ?s = "poll_sequence h" and ?h = "h\<lparr>poll_sequence := (poll_sequence h + 1) AND 0xFF\<rparr>"
  have w: "wp (bind_prog (transact os (mk_frame ty ?s [])) (\<lambda>response.
      if frame_type response \<noteq> rty then
       raise ValueError
         (''unexpected response type 0x'' @ hex02 (frame_type response) @ ''; expected 0x'' @ hex02 rty)
     else if sequence response \<noteq> ?s then
       raise ValueError
         (''unexpected response sequence 0x'' @ hex02 (sequence response) @ ''; expected 0x'' @ hex02 ?s)
     else lift_res (dcd response)))
    (\<lambda>x h'. \<exists>f. answers (mk_frame ty ?s []) f \<and> dcd f = Inr x \<and>
       tx (world h') = tx (world h) @ wire (mk_frame ty ?s []) \<and>
       rx (world h') = rx (world h) @ wire f \<and> poll_sequence h' = (?s + 1) mod 256)
    (\<lambda>_ _. True) ?h" (is "wp ?m ?Q _ _")
    unfolding wp_bind
  proof (rule wp_transact_env, goal_cases)
    case 1
    show ?case using assms(1,2) s by (simp add: valid_request)
  next
    case (2 f w')
    then show ?case
      using assms(3) [of f ?s] by (auto simp: and_255 split: sum.split)
  qed simp
  have "poll_request os (read_protocol_frame os) 1 ty rty dcd h = ?m ?h"
    by (simp add: poll_request_def poll_next_sequence_def transact_def bind_assoc_prog run_bind)
  then have "?m ?h = Some (Inr x, h')" using run by simp
  from wp_resultD(1) [OF w this] obtain f where "answers (mk_frame ty ?s []) f" "dcd f = Inr x"
    "tx (world h') = tx (world h) @ wire (mk_frame ty ?s [])"
    "rx (world h') = rx (world h) @ wire f" "poll_sequence h' = (?s + 1) mod 256" by blast
  then show "\<exists>fs. list_all2 answers (poll_requests ?s [ty]) fs \<and> (\<exists>f. fs = [f] \<and> dcd f = Inr x) \<and>
      tx (world h') = tx (world h) @ concat (map wire (poll_requests ?s [ty])) \<and>
      rx (world h') = rx (world h) @ concat (map wire fs) \<and>
      poll_sequence h' = (?s + int (length [ty])) mod 256"
    by (intro exI [of _ "[f]"]) simp
qed

lemma polls_statuses:
  "polls rx tx (poll_statuses os (read_protocol_frame os) 1) poll_types polled"
  unfolding poll_statuses_def
  by (rule polls_mono [OF polls_bind [OF polls_request polls_bind [OF polls_request polls_bind
        [OF polls_request polls_bind [OF polls_request polls_bind [OF polls_request polls_bind
          [OF polls_request polls_bind [OF polls_request polls_ret]]]]]]]])
    ((erule (2) decoder_answers) | (auto simp: type_defs poll_types_def polled_def)[1])+

end

section \<open>What a poll leaves alone\<close>

definition own_part :: "('w, 'z) host_scheme \<Rightarrow> int option \<times> int option \<times> string list \<times> string list" where
  "own_part h = (link_fd h, csv_file h, out h, err h)"

lemma keeps_own_local: "keeps local_part m \<Longrightarrow> keeps own_part m"
  by (auto simp: keeps_def own_part_def local_part_def)

lemma keeps_store_local: "keeps local_part m \<Longrightarrow> keeps store m"
proof -
  have "store h = store h'" if "host.more h = host.more h'" for h h' :: "('w, 'z) dashboard_host_scheme"
    using that by (cases h; cases h') simp
  then show "keeps local_part m \<Longrightarrow> keeps store m"
    unfolding keeps_def local_part_def by (metis prod.inject)
qed

lemma keeps_with_store [keeps_intros]:
  "(\<And>h s. f (h\<lparr>store := s\<rparr>) = f h) \<Longrightarrow> keeps f (with_store m)"
  by (auto simp: keeps_def with_store_def split: option.splits)

lemma keeps_local_recover [keeps_intros]: "keeps local_part (recover_rx_after_timeout os)"
  unfolding recover_rx_after_timeout_def py_sleep_def
  by (auto intro!: keeps_intros simp: local_part_def split: pyfloat.split)

lemma keeps_local_now [keeps_intros]: "keeps local_part (now_or os now)"
  by (cases now) (simp_all add: now_or_def keeps_intros)

lemma keeps_poll_statuses:
  assumes "\<And>t. keeps local_part (rf t)"
  shows "keeps own_part (poll_statuses os rf timeout)" "keeps store (poll_statuses os rf timeout)"
  unfolding poll_statuses_def poll_request_def poll_next_sequence_def
  by (intro keeps_intros keeps_own_local keeps_store_local assms; simp add: own_part_def)+

lemma keeps_own_poll_once:
  assumes "\<And>t. keeps local_part (rf t)"
  shows "keeps own_part (poll_once os rf timeout)"
  unfolding poll_once_def poll_failed_def record_failure_def record_success_def
  by (intro keeps_intros keeps_poll_statuses(1) [OF assms] keeps_own_local; simp add: own_part_def)

lemma wp_with_store:
  "wp (with_store m) Q E h = wp m (\<lambda>x s. Q x (h\<lparr>store := s\<rparr>)) (\<lambda>e s. E e (h\<lparr>store := s\<rparr>)) (store h)"
  by (simp add: wp_def with_store_def split: option.split sum.split prod.split)

lemma wp_now_or: "(\<And>t w'. Q t (h\<lparr>world := w'\<rparr>)) \<Longrightarrow> wp (now_or os None) Q E h"
  by (simp add: now_or_def split: prod.split)

text \<open>Recording may only fail for a time without text, and always returns.\<close>

definition fails_for :: "rat \<Rightarrow> (dashboard_store, unit) prog \<Rightarrow> bool" where
  "fails_for t m \<longleftrightarrow> (\<forall>s. returns m s \<and> wp m (\<lambda>_ _. True) (\<lambda>e _. utc_timestamp t = Inl e) s)"

named_theorems fails_intros \<open>rules for the exceptions of the store\<close>

lemma fails_bind [fails_intros]:
  "fails_for t m \<Longrightarrow> (\<And>x. fails_for t (k x)) \<Longrightarrow> fails_for t (bind_prog m k)"
  unfolding fails_for_def
  by (auto intro: returns_bind wp_mono [where m = m])

lemma fails_when [fails_intros]: "fails_for t m \<Longrightarrow> fails_for t (when_prog b m)"
  by (simp add: fails_for_def when_prog_def)

lemma fails_leaf [fails_intros]: "fails_for t (ret ())" "fails_for t (modify g)"
  by (simp_all add: fails_for_def)

lemma fails_append [fails_intros]: "fails_for t (append_event t l m)"
  by (auto simp: fails_for_def append_event_def intro!: returns_intros split: sum.split)

lemma fails_counter_events [fails_intros]: "fails_for t (counter_events t what cs)"
  by (induction cs) (auto intro!: fails_intros)

lemma fails_get: "(\<And>x. fails_for t (k x)) \<Longrightarrow> fails_for t (bind_prog (get_st f) k)"
  by (auto simp: fails_for_def intro!: returns_intros)

lemma fails_to_dict:
  "(\<And>x. fails_for t (k x)) \<Longrightarrow> fails_for t (bind_prog (lift_res (to_dict (success_snapshot st t) n z)) k)"
  by (cases st; cases "utc_timestamp t")
    (auto simp: fails_for_def to_dict_def success_snapshot_def intro!: returns_intros)

lemma fails_record_success_at: "fails_for t (record_success_at t st)"
  unfolding record_success_at_def record_value_change_events_def Let_def
  by (intro fails_get fails_to_dict fails_intros) (auto split: option.split intro!: fails_intros)

lemma fails_record_failure_at: "fails_for t (record_failure_at t e)"
  unfolding record_failure_at_def Let_def by (intro fails_get fails_intros)

lemma wp_recorded:
  assumes "fails_for t m"
    and "\<And>s'. m s = Some (Inr (), s') \<Longrightarrow> Q () s'"
    and "\<And>e s'. utc_timestamp t = Inl e \<Longrightarrow> E e s'"
  shows "wp m Q E s"
proof (rule wp_I)
  fix e s'
  assume "m s = Some (Inl e, s')"
  moreover have "wp m (\<lambda>_ _. True) (\<lambda>e _. utc_timestamp t = Inl e) s"
    using assms(1) by (simp add: fails_for_def)
  ultimately show "E e s'" by (auto dest: wp_resultD(2) intro: assms(3))
qed (use assms(2) in simp)

text \<open>What a failed poll does to the store.\<close>

definition failed_poll :: "dashboard_store \<Rightarrow> dashboard_store \<Rightarrow> bool" where
  "failed_poll s s' \<longleftrightarrow>
     (\<exists>e t s1. record_failure_at t (error_text e) s = Some (Inr (), s1) \<and>
        (s' = s1 \<or> catches [SerialTimeoutError] e \<and>
           (\<exists>e' t'. record_failure_at t' (recovery_text e e') s1 = Some (Inr (), s'))))"

lemma failed_pollI:
  "record_failure_at t (error_text e) s = Some (Inr (), s1) \<Longrightarrow> catches [SerialTimeoutError] e \<Longrightarrow>
     record_failure_at t' (recovery_text e e') s1 = Some (Inr (), s') \<Longrightarrow> failed_poll s s'"
  unfolding failed_poll_def by blast

definition untimed :: "exc \<Rightarrow> bool" where
  "untimed e \<longleftrightarrow> (\<exists>t. utc_timestamp t = Inl e)"

lemma wp_record_failure:
  assumes "\<And>t w' s'. record_failure_at t et (store h) = Some (Inr (), s') \<Longrightarrow>
      Q () (h\<lparr>world := w', store := s'\<rparr>)"
    and "\<And>e g. untimed e \<Longrightarrow> E e g"
  shows "wp (record_failure os et None) Q E h"
  unfolding record_failure_def wp_bind
proof (rule wp_now_or, unfold wp_with_store, rule wp_recorded [OF fails_record_failure_at], goal_cases)
  case (1 t w' s')
  with assms(1) [of t s' w'] show ?case by simp
next
  case (2 t w' e s')
  then show ?case using assms(2) by (auto simp: untimed_def)
qed

lemma wp_poll_failed:
  "wp (poll_failed os e) (\<lambda>_ h'. failed_poll (store h) (store h'))
     (\<lambda>e' _. untimed e' \<or> \<not> catches [Exception] e') h"
proof (cases "catches [SerialTimeoutError] e")
  case False
  show ?thesis
    unfolding poll_failed_def if_not_P [OF False]
    by (rule wp_record_failure) (auto simp: failed_poll_def)
next
  case True
  show ?thesis
    unfolding poll_failed_def if_P [OF True] wp_bind
  proof (rule wp_record_failure, goal_cases)
    case (1 t w1 s1)
    let ?h = "h\<lparr>world := w1, store := s1\<rparr>"
    have "wp (recover_rx_after_timeout os) (\<lambda>_ g. store g = s1) (\<lambda>_ g. store g = s1) ?h"
      using keeps_wp [OF keeps_store_local [OF keeps_local_recover], of os ?h] by simp
    then show ?case
      unfolding wp_try_except
    proof (rule wp_mono, goal_cases)
      case (1 x g)
      with \<open>record_failure_at t _ _ = _\<close> show ?case by (auto simp: failed_poll_def)
    next
      case (2 e' g)
      have "wp (record_failure os (recovery_text e e') None)
          (\<lambda>_ h'. failed_poll (store h) (store h')) (\<lambda>e' _. untimed e' \<or> \<not> catches [Exception] e') g"
        by (rule wp_record_failure) (use 2 1 in \<open>auto intro: failed_pollI [OF _ True]\<close>)
      then show ?case by simp
    qed
  qed simp
qed

text \<open>Every successful or failed poll is a step, or two, of the store.\<close>

lemma failed_poll_reachable: "failed_poll s s' \<Longrightarrow> store_reachable s \<Longrightarrow> store_reachable s'"
  unfolding failed_poll_def by (blast intro: store_reachable.step store_step.failure)

section \<open>The environment of the poller\<close>

text \<open>
  The wall clock and the stop event move no data; no call sets the monotonic clock back;
  a wait that was not interrupted lasted its whole time; the event is seen as set once
  the time \<open>stop\<close> has come.
\<close>

locale poll_env = host_env os rx tx clock tick ftext fpath + stp: io_frame os stop
  for os :: "'w os" and rx tx :: "'w \<Rightarrow> bytes" and clock :: "'w \<Rightarrow> rat" and tick
    and ftext :: "'w \<Rightarrow> string \<Rightarrow> string option" and fpath :: "'w \<Rightarrow> int \<Rightarrow> string option"
    and stop :: "'w \<Rightarrow> rat option" +
  fixes ev :: "'w stop_event"
  assumes time_io: "os_time os w = (t, w') \<Longrightarrow> rx w' = rx w \<and> tx w' = tx w \<and>
        ftext w' = ftext w \<and> stop w' = stop w \<and> clock w \<le> clock w'"
    and write_clock: "os_write os fd bs w = (rn, w') \<Longrightarrow> clock w \<le> clock w'"
    and drain_clock: "os_tcdrain os fd w = (ru, w') \<Longrightarrow> clock w \<le> clock w'"
    and flush_clock: "os_tcflush_in os fd w = (ru, w') \<Longrightarrow> clock w \<le> clock w'"
    and sleep_clock: "clock w \<le> clock (os_sleep os d w)"
    and is_set_io: "ev_is_set ev w = (b, w') \<Longrightarrow> rx w' = rx w \<and> tx w' = tx w \<and>
        ftext w' = ftext w \<and> stop w' = stop w \<and> clock w' = clock w"
    and is_set_stop: "ev_is_set ev w = (b, w') \<Longrightarrow> stop w = Some t \<Longrightarrow> t \<le> clock w \<Longrightarrow> b"
    and wait_io: "ev_wait ev d w = (b, w') \<Longrightarrow> rx w' = rx w \<and> tx w' = tx w \<and>
        ftext w' = ftext w \<and> stop w' = stop w \<and> clock w \<le> clock w'"
    and wait_time: "ev_wait ev d w = (False, w') \<Longrightarrow> clock w + d \<le> clock w'"
begin

lemma wp_record_success:
  assumes "\<And>t w' s'. record_success_at t st (store h) = Some (Inr (), s') \<Longrightarrow>
      rx w' = rx (world h) \<Longrightarrow> tx w' = tx (world h) \<Longrightarrow> Q () (h\<lparr>world := w', store := s'\<rparr>)"
    and "\<And>e g. untimed e \<Longrightarrow> E e g"
  shows "wp (record_success os st None) Q E h"
proof -
  obtain t w' where t: "os_time os (world h) = (t, w')" by fastforce
  have "wp (with_store (record_success_at t st)) Q E (h\<lparr>world := w'\<rparr>)"
    unfolding wp_with_store
  proof (rule wp_recorded [OF fails_record_success_at], goal_cases)
    case (1 s')
    with time_io [OF t] assms(1) [of t s' w'] show ?case by simp
  next
    case (2 e s')
    then have "untimed e" by (auto simp: untimed_def)
    then show ?case by (rule assms(2))
  qed
  with t show ?thesis by (simp add: record_success_def now_or_def)
qed

lemma wp_poll_once:
  assumes "0 \<le> poll_sequence h" "poll_sequence h \<le> 255"
  shows "wp (poll_once os (read_protocol_frame os) 1)
     (\<lambda>ok h'. own_part h' = own_part h \<and>
        (if ok then
           \<exists>fs st t. list_all2 answers (poll_requests (poll_sequence h) poll_types) fs \<and> polled fs st \<and>
             tx (world h') = tx (world h) @ concat (map wire (poll_requests (poll_sequence h) poll_types)) \<and>
             rx (world h') = rx (world h) @ concat (map wire fs) \<and>
             poll_sequence h' = (poll_sequence h + 7) mod 256 \<and>
             record_success_at t st (store h) = Some (Inr (), store h')
         else failed_poll (store h) (store h')))
     (\<lambda>e h'. untimed e \<or> \<not> catches [Exception] e) h"
proof -
  let ?rf = "read_protocol_frame os" and ?s = "poll_sequence h"
  have rf: "keeps local_part (?rf t)" for t by (rule keeps_local_transactions(1))
  let ?R = "\<lambda>st g. \<exists>fs. list_all2 answers (poll_requests ?s poll_types) fs \<and> polled fs st \<and>
      tx (world g) = tx (world h) @ concat (map wire (poll_requests ?s poll_types)) \<and>
      rx (world g) = rx (world h) @ concat (map wire fs) \<and> poll_sequence g = (?s + 7) mod 256"
  have "wp (poll_statuses os ?rf 1) ?R (\<lambda>_ _. True) h"
  proof (rule wp_I)
    fix st g
    assume "poll_statuses os ?rf 1 h = Some (Inr st, g)"
    from polls_statuses [unfolded polls_def, rule_format, OF assms this]
    show "?R st g" unfolding length_poll_types by simp
  qed simp
  from wp_conj [OF this keeps_wp [OF keeps_poll_statuses(2) [OF rf]]]
  have "wp (poll_once os ?rf 1)
      (\<lambda>ok g. if ok then \<exists>fs st t. list_all2 answers (poll_requests ?s poll_types) fs \<and> polled fs st \<and>
             tx (world g) = tx (world h) @ concat (map wire (poll_requests ?s poll_types)) \<and>
             rx (world g) = rx (world h) @ concat (map wire fs) \<and>
             poll_sequence g = (?s + 7) mod 256 \<and>
             record_success_at t st (store h) = Some (Inr (), store g)
         else failed_poll (store h) (store g))
      (\<lambda>e _. untimed e \<or> \<not> catches [Exception] e) h" (is "wp _ ?Q ?E h")
    unfolding poll_once_def wp_bind wp_try_except
  proof (rule wp_mono, goal_cases)
    case (1 st g)
    then obtain fs where g: "list_all2 answers (poll_requests ?s poll_types) fs" "polled fs st"
      "tx (world g) = tx (world h) @ concat (map wire (poll_requests ?s poll_types))"
      "rx (world g) = rx (world h) @ concat (map wire fs)"
      "poll_sequence g = (?s + 7) mod 256" "store g = store h" by blast
    have "wp (record_success os st None) (\<lambda>_. ?Q True) ?E g"
    proof (rule wp_record_success, goal_cases)
      case (1 t w' s')
      show ?case
        unfolding if_True
        by (rule exI [of _ fs], rule exI [of _ st], rule exI [of _ t]) (use 1 g in simp)
    qed simp
    then show ?case by simp
  next
    case (2 e g)
    have "wp (poll_failed os e) (\<lambda>_. ?Q False) ?E g"
      by (rule wp_mono [OF wp_poll_failed]) (use 2 in simp_all)
    with 2 show ?case by simp
  qed
  from wp_conj [OF this keeps_wp [OF keeps_own_poll_once [OF rf]]]
  show ?thesis by (rule wp_mono) auto
qed

text \<open>The clock never runs backwards, and files and the stop time stay.\<close>

lemma rises_calls [rises_intros]:
  "rises (\<lambda>h. clock (world h)) (call_total (os_monotonic os))"
  "rises (\<lambda>h. clock (world h)) (call_total (os_time os))"
  "rises (\<lambda>h. clock (world h)) (call (os_write os fd bs))"
  "rises (\<lambda>h. clock (world h)) (call (os_tcdrain os fd))"
  "rises (\<lambda>h. clock (world h)) (call (os_tcflush_in os fd))"
  by (rule rises_call rises_call_total;
      use monotonic_clock time_io write_clock drain_clock flush_clock in blast)+

lemma rises_read_loop:
  "rises (\<lambda>h. clock (world h)) (\<lambda>h. case read_loop os fd k dl acc (world h) of
      None \<Rightarrow> None | Some (r, w) \<Rightarrow> Some (r, h\<lparr>world := w\<rparr>))"
  by (auto simp: rises_def split: option.splits
      intro: read_loop_rel [where R = "\<lambda>w w'. clock w \<le> clock w'"]
        monotonic_clock [THEN conjunct2] select_clock read_clock)

lemma rises_clock [rises_intros]:
  "rises (\<lambda>h. clock (world h)) (read_exact os n t)"
  "rises (\<lambda>h. clock (world h)) (serial_write os bs)"
  "rises (\<lambda>h. clock (world h)) (recover_rx_after_timeout os)"
  "rises (\<lambda>h. clock (world h)) (now_or os None)"
proof -
  note fd = rises_keeps [OF keeps_require_fd]
  show "rises (\<lambda>h. clock (world h)) (read_exact os n t)"
    unfolding read_exact_def by (intro rises_intros fd rises_read_loop)
  show "rises (\<lambda>h. clock (world h)) (serial_write os bs)"
    unfolding serial_write_def by (intro rises_intros fd)
  have "rises (\<lambda>h. clock (world h)) (py_sleep os (Fin r))" for r
    unfolding py_sleep_def pyfloat.case
    by (intro rises_intros) (auto simp: rises_def modify_def sleep_clock)
  then show "rises (\<lambda>h. clock (world h)) (recover_rx_after_timeout os)"
    unfolding recover_rx_after_timeout_def by (intro rises_intros fd)
  show "rises (\<lambda>h. clock (world h)) (now_or os None)"
    unfolding now_or_def option.case by (intro rises_intros)
qed

lemma rises_with_store [rises_intros]: "rises (\<lambda>h. clock (world h)) (with_store m)"
  by (auto simp: rises_def with_store_def split: option.splits)

lemma rises_poll_once [rises_intros]:
  "rises (\<lambda>h. clock (world h)) (poll_once os (read_protocol_frame os) timeout)"
proof -
  have seq: "rises (\<lambda>h. clock (world h)) poll_next_sequence"
    unfolding poll_next_sequence_def by (intro rises_keeps keeps_intros) simp
  have tr: "rises (\<lambda>h. clock (world h)) (send_frame os f)"
    "rises (\<lambda>h. clock (world h)) (read_protocol_frame os t)" for f t
    unfolding send_frame_def read_protocol_frame_def Let_def by (intro rises_intros)+
  show ?thesis
    unfolding poll_once_def poll_failed_def record_failure_def record_success_def
      poll_statuses_def poll_request_def
    by (intro rises_intros rises_case_option seq tr)
qed

lemma keeps_stop_poll_once: "keeps (\<lambda>h. stop (world h)) (poll_once os (read_protocol_frame os) timeout)"
proof -
  have t: "keeps (\<lambda>h. stop (world h)) (now_or os None)"
    unfolding now_or_def option.case by (rule keeps_call_total) (use time_io in blast)
  show ?thesis
    unfolding poll_once_def poll_failed_def record_failure_def record_success_def
      poll_statuses_def poll_request_def poll_next_sequence_def
    by (intro keeps_intros stp.v_transactions stp.v_recover t; simp)
qed

end

text \<open>Reachable stores stay reachable, whatever the poll meets.\<close>

lemma rises_reachable:
  assumes "\<And>t. keeps local_part (rf t)"
  shows "rises (\<lambda>h. store_reachable (store h)) (poll_once os rf timeout)"
proof -
  have w: "rises (\<lambda>h. store_reachable (store h)) (with_store m)"
    if "\<And>s r s'. m s = Some (r, s') \<Longrightarrow> store_step s s'" for m :: "(dashboard_store, unit) prog"
    using that by (auto simp: rises_def with_store_def split: option.splits intro: store_reachable.step)
  have k: "keeps store m \<Longrightarrow> rises (\<lambda>h. store_reachable (store h)) m" for m
    by (auto simp: keeps_def rises_def)
  show ?thesis
    unfolding poll_once_def poll_failed_def record_failure_def record_success_def
    by (intro rises_intros rises_case_option w k [OF keeps_poll_statuses(2) [OF assms]]
        k [OF keeps_store_local] keeps_intros)
      (auto intro: store_step.intros)
qed

lemma returns_with_store: "returns m (store h) \<Longrightarrow> returns (with_store m) h"
  by (auto simp: returns_def with_store_def split: option.split)

lemma returns_record [returns_intros]:
  "returns (record_success os st now) h" "returns (record_failure os e now) h"
proof -
  have "returns (record_success_at t st) s" "returns (record_failure_at t e) s" for t s
    using fails_record_success_at fails_record_failure_at by (auto simp: fails_for_def)
  then show "returns (record_success os st now) h" "returns (record_failure os e now) h"
    unfolding record_success_def record_failure_def now_or_def
    by (intro returns_intros returns_with_store; simp)+
qed

context poll_env
begin

lemma returns_poll_once [returns_intros]: "returns (poll_once os (read_protocol_frame os) timeout) h"
  unfolding poll_once_def poll_failed_def poll_statuses_def poll_request_def poll_next_sequence_def
  by (intro returns_intros)

text \<open>
  One round of the loop: it ends because the event is set, with nothing done, or it
  polls, not before the time that was set for it, and sets a later time for the next.
\<close>

lemma wp_poll_cycle:
  assumes "rises (\<lambda>h. clock (world h)) poll" "0 < interval"
  shows "wp (poll_cycle os ev poll interval next_at)
     (\<lambda>r h'. case r of
        None \<Rightarrow> \<exists>w. h' = h\<lparr>world := w\<rparr> \<and> tx w = tx (world h) \<and> rx w = rx (world h)
      | Some n \<Rightarrow> \<exists>w g ok now w'. tx w = tx (world h) \<and> rx w = rx (world h) \<and>
          clock (world h) + tick \<le> clock w \<and> next_at \<le> clock w \<and> stop w = stop (world h) \<and>
          poll (h\<lparr>world := w\<rparr>) = Some (Inr ok, g) \<and> clock w \<le> clock (world g) \<and>
          h' = g\<lparr>world := w'\<rparr> \<and> stop w' = stop (world g) \<and> tx w' = tx (world g) \<and>
          rx w' = rx (world g) \<and> clock (world g) + tick \<le> now \<and> now = clock w' \<and>
          n = next_cycle interval next_at now ok \<and> now < n \<and> n \<le> now + interval)
     (\<lambda>e h'. \<exists>w. poll (h\<lparr>world := w\<rparr>) = Some (Inl e, h')) h"
proof -
  obtain b1 w1 where 1: "ev_is_set ev (world h) = (b1, w1)" by fastforce
  obtain t2 w2 where 2: "os_monotonic os w1 = (t2, w2)" by fastforce
  obtain b3 w3 where 3: "ev_wait ev (next_at - t2) w2 = (b3, w3)" by fastforce
  let ?w3 = "if t2 < next_at then w3 else w2"
  obtain b4 w4 where 4: "ev_is_set ev ?w3 = (b4, w4)" by fastforce
  note io = is_set_io [OF 1] monotonic_io [OF 2] ser.v_monotonic [OF 2] stp.v_monotonic [OF 2]
    monotonic_clock [OF 2] monotonic_ticks [OF 2] wait_io [OF 3] is_set_io [OF 4]
  have w4: "tx w4 = tx (world h)" "rx w4 = rx (world h)" "clock (world h) + tick \<le> clock w4"
    "stop w4 = stop (world h)" using io by (auto split: if_splits)
  have late: "next_at \<le> clock w4" if "t2 < next_at \<longrightarrow> \<not> b3"
    using that io wait_time [of "next_at - t2" w2 w3] 3 by (auto split: if_splits)
  have stay: "tx w = tx (world h) \<and> rx w = rx (world h)" if "w \<in> {w1, w2, ?w3, w4}" for w
    using that io by (auto split: if_splits)
  have poll: "wp (bind_prog poll (\<lambda>ok. bind_prog (call_total (os_monotonic os)) (\<lambda>now.
      ret (Some (next_cycle interval next_at now ok))))) Q E (h\<lparr>world := w4\<rparr>)"
    if "\<And>g ok now w'. poll (h\<lparr>world := w4\<rparr>) = Some (Inr ok, g) \<Longrightarrow> clock w4 \<le> clock (world g) \<Longrightarrow>
        clock (world g) + tick \<le> now \<Longrightarrow> now = clock w' \<Longrightarrow> stop w' = stop (world g) \<Longrightarrow>
        tx w' = tx (world g) \<Longrightarrow> rx w' = rx (world g) \<Longrightarrow>
        Q (Some (next_cycle interval next_at now ok)) (g\<lparr>world := w'\<rparr>)"
      "\<And>e g. poll (h\<lparr>world := w4\<rparr>) = Some (Inl e, g) \<Longrightarrow> E e g" for Q E
    unfolding wp_bind
  proof (rule wp_I)
    fix ok g assume p: "poll (h\<lparr>world := w4\<rparr>) = Some (Inr ok, g)"
    obtain now w' where m: "os_monotonic os (world g) = (now, w')" by fastforce
    have "clock w4 \<le> clock (world g)" using risesD [OF assms(1) p] by simp
    with that(1) [OF p] m monotonic_clock [OF m] monotonic_ticks [OF m] monotonic_io [OF m]
      stp.v_monotonic [OF m]
    show "wp (call_total (os_monotonic os)) (\<lambda>now. wp (ret (Some (next_cycle interval next_at now ok))) Q E) E g"
      by simp
  qed (rule that(2))
  show ?thesis
  proof (cases "b1 \<or> t2 < next_at \<and> b3 \<or> b4")
    case True
    then show ?thesis
      using 1 2 3 4 stay by (auto simp: poll_cycle_def Let_def split: if_splits)
  next
    case False
    then have b: "\<not> b1" "t2 < next_at \<longrightarrow> \<not> b3" "\<not> b4" by simp_all
    have eq: "wp (poll_cycle os ev poll interval next_at) Q E h =
        wp (bind_prog poll (\<lambda>ok. bind_prog (call_total (os_monotonic os)) (\<lambda>now.
           ret (Some (next_cycle interval next_at now ok))))) Q E (h\<lparr>world := w4\<rparr>)" for Q E
    proof (cases "t2 < next_at")
      case True
      with 4 have "ev_is_set ev w3 = (b4, w4)" by simp
      with True b 1 2 3 show ?thesis by (simp add: poll_cycle_def Let_def max_def)
    next
      case False
      with 4 have "ev_is_set ev w2 = (b4, w4)" by simp
      with False b 1 2 show ?thesis by (simp add: poll_cycle_def Let_def max_def)
    qed
    show ?thesis
      unfolding eq
    proof (rule poll, goal_cases)
      case (1 g ok now w')
      have "next_at \<le> now" using late b(2) 1(2,3) tick_pos by simp
      then have "now < next_cycle interval next_at now ok"
        "next_cycle interval next_at now ok \<le> now + interval"
        using assms(2) by (simp_all add: next_cycle_def)
      with 1 w4 late b(2) show ?case by auto
    next
      case (2 e g)
      then show ?case by blast
    qed
  qed
qed

lemma returns_poll_cycle:
  "(\<And>g. returns poll g) \<Longrightarrow> returns (poll_cycle os ev poll interval next_at) h"
  unfolding poll_cycle_def Let_def by (intro returns_intros) auto

text \<open>The loop returns once the stop time has come.\<close>

lemma poll_loop_returns:
  assumes "stop (world h) = Some T" "T - clock (world h) \<le> of_nat k * tick" "0 < interval"
  shows "\<exists>r h'. poll_loop os ev (poll_once os (read_protocol_frame os) timeout) interval next_at h = Some (r, h') \<and>
    (store_reachable (store h) \<longrightarrow> store_reachable (store h'))"
  using assms
proof (induction k arbitrary: h next_at)
  case 0
  obtain b w where s: "ev_is_set ev (world h) = (b, w)" by fastforce
  with is_set_stop [OF s 0(1)] 0(2) have "ev_is_set ev (world h) = (True, w)" by simp
  then have "poll_cycle os ev poll interval next_at h = Some (Inr None, h\<lparr>world := w\<rparr>)" for poll
    by (simp add: poll_cycle_def bind_prog_def call_total_def ret_def)
  then show ?case by (subst poll_loop.simps) simp
next
  case (Suc k)
  let ?p = "poll_once os (read_protocol_frame os) timeout"
  note rp = rises_poll_once [of timeout] and
    rr = rises_reachable [of "read_protocol_frame os" os timeout, OF keeps_local_transactions(1),
      unfolded rises_def le_bool_def, rule_format]
  have "returns (poll_cycle os ev ?p interval next_at) h"
    by (rule returns_poll_cycle [OF returns_poll_once])
  then obtain r h' where c: "poll_cycle os ev ?p interval next_at h = Some (r, h')"
    by (auto simp: returns_def)
  note spec = wp_resultD [OF wp_poll_cycle [OF rp Suc.prems(3)]]
  show ?case
  proof (cases r)
    case (Inl e)
    from spec(2) [OF c [unfolded Inl]] obtain w where "?p (h\<lparr>world := w\<rparr>) = Some (Inl e, h')" by blast
    with rr [OF this] c Inl show ?thesis by (subst poll_loop.simps) simp
  next
    case (Inr x)
    show ?thesis
    proof (cases x)
      case None
      with spec(1) [OF c [unfolded Inr]] obtain w where "h' = h\<lparr>world := w\<rparr>" by auto
      with None c Inr show ?thesis by (subst poll_loop.simps) simp
    next
      case (Some n)
      with spec(1) [OF c [unfolded Inr]] obtain w g ok w' where
        p: "clock (world h) + tick \<le> clock w" "stop w = stop (world h)"
          "?p (h\<lparr>world := w\<rparr>) = Some (Inr ok, g)" "clock w \<le> clock (world g)"
          "h' = g\<lparr>world := w'\<rparr>" "clock (world g) + tick \<le> clock w'"
          "stop w' = stop (world g)" by auto
      have "stop (world g) = stop w" using keepsD [OF keeps_stop_poll_once p(3)] by simp
      then have "stop (world h') = Some T" using p Suc.prems(1) by simp
      moreover have "T - clock (world h') \<le> of_nat k * tick"
        using Suc.prems(2) p tick_pos by (simp add: algebra_simps)
      ultimately obtain r' h'' where
        "poll_loop os ev ?p interval n h' = Some (r', h'')"
        "store_reachable (store h') \<longrightarrow> store_reachable (store h'')"
        using Suc.IH [of h' n] Suc.prems(3) by blast
      with c Inr Some rr [OF p(3)] p(5) show ?thesis by (subst poll_loop.simps) simp
    qed
  qed
qed

lemma poller_run_returns:
  assumes "stop (world h) = Some T" "0 < interval" "store_reachable (store h)"
  shows "\<exists>r h'. poller_run os ev (read_protocol_frame os) interval timeout h = Some (r, h') \<and>
    store_reachable (store h')"
proof -
  obtain t w where m: "os_monotonic os (world h) = (t, w)" by fastforce
  obtain k where k: "T - clock w \<le> of_nat k * tick" using ex_ticks by blast
  have "stop w = Some T" using stp.v_monotonic [OF m] assms(1) by simp
  then show ?thesis
    using poll_loop_returns [of "h\<lparr>world := w\<rparr>" T k interval timeout t] k assms(2,3) m
    by (simp add: poller_run_def bind_prog_def call_total_def)
qed

end

section \<open>The poller on a serial line\<close>

definition lw_wait :: "rat \<Rightarrow> 'd line_world \<Rightarrow> bool \<times> 'd line_world" where
  "lw_wait t w =
     (let late = clk w + max 0 t in
      case stop_time w of
        None \<Rightarrow> (False, w\<lparr>clk := late\<rparr>)
      | Some s \<Rightarrow> if s \<le> late then (True, w\<lparr>clk := max (clk w) s\<rparr>) else (False, w\<lparr>clk := late\<rparr>))"

definition line_event :: "'d line_world stop_event" where
  "line_event =
     \<lparr>ev_is_set = (\<lambda>w. (case stop_time w of None \<Rightarrow> False | Some s \<Rightarrow> s \<le> clk w, w)),
      ev_wait = lw_wait\<rparr>"

interpretation line_poll:
  poll_env "line_os d" rx_seen tx_sent clk clock_tick lw_text lw_path stop_time line_event for d
  by unfold_locales
    (auto simp: line_os_defs line_event_def lw_wait_def lw_text_def Let_def clock_tick_def
      split: list.splits if_splits prod.splits option.splits)

text \<open>
  C15: a poll always returns. When it says that it succeeded, it sent exactly the seven
  requests with consecutive sequence numbers, wrapping at 256, consumed exactly one answer
  to each, and recorded what the answers decode to; when it says that it failed, it
  recorded the failure and nothing else. It raises nothing but what the wall clock's time
  can cause, and touches neither the link's descriptor nor the output.
\<close>

theorem poll_once_outcome:
  assumes "0 \<le> poll_sequence h" "poll_sequence h \<le> 255"
  shows "returns (poll_once (line_os d) (read_protocol_frame (line_os d)) 1) h \<and>
    wp (poll_once (line_os d) (read_protocol_frame (line_os d)) 1)
     (\<lambda>ok h'. own_part h' = own_part h \<and>
        (if ok then
           \<exists>fs st t. list_all2 answers (poll_requests (poll_sequence h) poll_types) fs \<and> polled fs st \<and>
             tx_sent (world h') =
               tx_sent (world h) @ concat (map wire (poll_requests (poll_sequence h) poll_types)) \<and>
             rx_seen (world h') = rx_seen (world h) @ concat (map wire fs) \<and>
             poll_sequence h' = (poll_sequence h + 7) mod 256 \<and>
             record_success_at t st (store h) = Some (Inr (), store h')
         else failed_poll (store h) (store h')))
     (\<lambda>e h'. untimed e \<or> \<not> catches [Exception] e) h"
  by (rule conjI [OF line_poll.returns_poll_once line_poll.wp_poll_once [OF assms]])

theorem poll_once_outcome_witness:
  "\<forall>d (h :: 'd line_world dashboard_host).
     wp (poll_once (line_os d) (read_protocol_frame (line_os d)) 1)
       (\<lambda>ok h'. own_part h' = own_part h) (\<lambda>_ _. True) (h\<lparr>poll_sequence := POLL_START\<rparr>)"
proof (intro allI)
  fix d and h :: "'d line_world dashboard_host"
  have s: "0 \<le> poll_sequence (h\<lparr>poll_sequence := POLL_START\<rparr>)"
    "poll_sequence (h\<lparr>poll_sequence := POLL_START\<rparr>) \<le> 255" by (simp_all add: POLL_START_def)
  have o: "own_part (h\<lparr>poll_sequence := POLL_START\<rparr>) = own_part h" by (simp add: own_part_def)
  show "wp (poll_once (line_os d) (read_protocol_frame (line_os d)) 1)
       (\<lambda>ok h'. own_part h' = own_part h) (\<lambda>_ _. True) (h\<lparr>poll_sequence := POLL_START\<rparr>)"
    by (rule wp_mono [OF poll_once_outcome [OF s, THEN conjunct2]]) (simp_all add: o)
qed

text \<open>
  C16: the pacing of the polls. A round of the loop either ends it without touching the
  line, or makes one poll, which starts not before the time set for it, and then sets a
  time for the next one that lies after the end of this one, at most one interval later,
  and a whole interval later when the poll failed. Polls never overlap and never come in
  bursts to catch up.
\<close>

theorem poll_pacing:
  assumes "0 < interval"
  shows "wp (poll_cycle (line_os d) line_event (poll_once (line_os d) (read_protocol_frame (line_os d)) timeout)
       interval next_at)
     (\<lambda>r h'. case r of
        None \<Rightarrow> \<exists>w. h' = h\<lparr>world := w\<rparr> \<and> tx_sent w = tx_sent (world h) \<and> rx_seen w = rx_seen (world h)
      | Some n \<Rightarrow> \<exists>w g ok.
          next_at \<le> clk w \<and> tx_sent w = tx_sent (world h) \<and> rx_seen w = rx_seen (world h) \<and>
          poll_once (line_os d) (read_protocol_frame (line_os d)) timeout (h\<lparr>world := w\<rparr>) = Some (Inr ok, g) \<and>
          store h' = store g \<and> tx_sent (world h') = tx_sent (world g) \<and>
          clk w \<le> clk (world g) \<and> clk (world g) < clk (world h') \<and>
          clk (world h') < n \<and> n \<le> clk (world h') + interval \<and>
          (if ok then True else n = clk (world h') + interval))
     (\<lambda>_ _. True) h"
  by (rule wp_mono [OF line_poll.wp_poll_cycle [OF line_poll.rises_poll_once assms]])
    (fastforce simp: next_cycle_def clock_tick_def split: option.splits, simp)

theorem poll_pacing_witness:
  "\<forall>d (h :: 'd line_world dashboard_host) next_at.
     wp (poll_cycle (line_os d) line_event (poll_once (line_os d) (read_protocol_frame (line_os d)) 1)
         DEFAULT_POLL_INTERVAL_SECONDS next_at)
       (\<lambda>r h'. case r of None \<Rightarrow> True | Some n \<Rightarrow> clk (world h') < n) (\<lambda>_ _. True) h"
proof (intro allI)
  fix d and h :: "'d line_world dashboard_host" and next_at
  have i: "0 < DEFAULT_POLL_INTERVAL_SECONDS" by (simp add: DEFAULT_POLL_INTERVAL_SECONDS_def)
  show "wp (poll_cycle (line_os d) line_event (poll_once (line_os d) (read_protocol_frame (line_os d)) 1)
         DEFAULT_POLL_INTERVAL_SECONDS next_at)
       (\<lambda>r h'. case r of None \<Rightarrow> True | Some n \<Rightarrow> clk (world h') < n) (\<lambda>_ _. True) h"
    by (rule wp_mono [OF poll_pacing [OF i]]) (auto split: option.splits)
qed

text \<open>
  C17: the thread ends. Once the stop event is set, at whatever time, the loop returns, no
  matter what the line does, and the store is still one that the operations can reach.
\<close>

theorem poller_terminates:
  assumes "stop_time (world h) = Some t" "0 < interval" "store_reachable (store h)"
  shows "\<exists>r h'. poller_run (line_os d) line_event (read_protocol_frame (line_os d)) interval timeout h =
      Some (r, h') \<and> store_reachable (store h')"
  by (rule line_poll.poller_run_returns [OF assms])

theorem poller_terminates_witness:
  "\<forall>d (h :: 'd line_world dashboard_host). \<exists>s r h'. store_reachable s \<and>
     poller_run (line_os d) line_event (read_protocol_frame (line_os d)) 1 1
       (h\<lparr>store := s, world := (world h)\<lparr>stop_time := Some 60\<rparr>\<rparr>) = Some (r, h')"
proof (intro allI)
  fix d and h :: "'d line_world dashboard_host"
  obtain s where s: "store_reachable s" using failure_reachable by blast
  let ?h = "h\<lparr>store := s, world := (world h)\<lparr>stop_time := Some 60\<rparr>\<rparr>"
  have "\<exists>r h'. poller_run (line_os d) line_event (read_protocol_frame (line_os d)) 1 1 ?h = Some (r, h') \<and>
      store_reachable (store h')"
    by (rule poller_terminates [of _ 60]) (simp_all add: s)
  with s show "\<exists>s r h'. store_reachable s \<and>
     poller_run (line_os d) line_event (read_protocol_frame (line_os d)) 1 1
       (h\<lparr>store := s, world := (world h)\<lparr>stop_time := Some 60\<rparr>\<rparr>) = Some (r, h')" by blast
qed

end
