(* ===== verification/Py_Text.thy ===== *)
theory Py_Text
  imports Py_Format
begin

text \<open>
  The string methods that the program uses on the output of other programs:
  \<open>splitlines\<close>, \<open>split\<close>, \<open>strip\<close> and \<open>int(s, 10)\<close>. Strings are UTF-8, so white space and
  line ends are recognised by their encodings of one to three bytes. Of the Unicode
  digits that \<open>int\<close> accepts, the model has the ASCII ones.
\<close>

section \<open>White space and line ends\<close>

definition ords :: "string \<Rightarrow> nat list" where
  "ords s = map of_char (take 3 s)"

text \<open>The length in bytes of the white-space character at the front, or 0.\<close>

definition ws_len :: "string \<Rightarrow> nat" where
  "ws_len s =
     (case ords s of
        [] \<Rightarrow> 0
      | a # as \<Rightarrow>
          if 9 \<le> a \<and> a \<le> 13 \<or> 28 \<le> a \<and> a \<le> 32 then 1
          else if a = 0xC2 \<and> take 1 as \<in> {[0x85], [0xA0]} then 2
          else if a = 0xE1 \<and> as = [0x9A, 0x80] then 3
          else if a = 0xE2 \<and> take 1 as = [0x80] \<and> length as = 2 \<and>
              (0x80 \<le> as ! 1 \<and> as ! 1 \<le> 0x8A \<or> as ! 1 \<in> {0xA8, 0xA9, 0xAF}) then 3
          else if a = 0xE2 \<and> as = [0x81, 0x9F] then 3
          else if a = 0xE3 \<and> as = [0x80, 0x80] then 3
          else 0)"

text \<open>The length of the line end at the front, or 0.\<close>

definition eol_len :: "string \<Rightarrow> nat" where
  "eol_len s =
     (case ords s of
        [] \<Rightarrow> 0
      | a # as \<Rightarrow>
          if a = 13 \<and> take 1 as = [10] then 2
          else if 10 \<le> a \<and> a \<le> 13 \<or> 28 \<le> a \<and> a \<le> 30 then 1
          else if a = 0xC2 \<and> take 1 as = [0x85] then 2
          else if a = 0xE2 \<and> as \<in> {[0x80, 0xA8], [0x80, 0xA9]} then 3
          else 0)"

text \<open>\<open>s.lstrip()\<close>, \<open>s.strip()\<close>.\<close>

function py_lstrip :: "string \<Rightarrow> string" where
  "py_lstrip s = (if s = [] \<or> ws_len s = 0 then s else py_lstrip (drop (ws_len s) s))"
  by auto
termination
  by (relation "measure length") auto

declare py_lstrip.simps [simp del]

fun py_rstrip :: "string \<Rightarrow> string" where
  "py_rstrip [] = []"
| "py_rstrip (c # cs) = (if py_lstrip (c # cs) = [] then [] else c # py_rstrip cs)"

definition py_strip :: "string \<Rightarrow> string" where
  "py_strip s = py_rstrip (py_lstrip s)"

text \<open>\<open>s.splitlines()\<close>, with the current line so far.\<close>

function lines_from :: "string \<Rightarrow> string \<Rightarrow> string list" where
  "lines_from cur s =
     (if s = [] then (if cur = [] then [] else [cur])
      else if eol_len s = 0 then lines_from (cur @ [hd s]) (tl s)
      else cur # lines_from [] (drop (eol_len s) s))"
  by auto
termination
  by (relation "measure (\<lambda>(cur, s). length s)") auto

declare lines_from.simps [simp del]

definition py_splitlines :: "string \<Rightarrow> string list" where
  "py_splitlines s = lines_from [] s"

text \<open>\<open>s.split()\<close>, with the current word so far.\<close>

function words_from :: "string \<Rightarrow> string \<Rightarrow> string list" where
  "words_from cur s =
     (if s = [] then (if cur = [] then [] else [cur])
      else if ws_len s = 0 then words_from (cur @ [hd s]) (tl s)
      else (if cur = [] then [] else [cur]) @ words_from [] (drop (ws_len s) s))"
  by auto
termination
  by (relation "measure (\<lambda>(cur, s). length s)") auto

declare words_from.simps [simp del]

definition py_split :: "string \<Rightarrow> string list" where
  "py_split s = words_from [] s"

section \<open>Integers from text\<close>

definition is_digit :: "char \<Rightarrow> bool" where
  "is_digit c \<longleftrightarrow> 48 \<le> (of_char c :: nat) \<and> (of_char c :: nat) \<le> 57"

text \<open>Digits with single underscores between them.\<close>

fun digits_ok :: "string \<Rightarrow> bool" where
  "digits_ok [] = False"
| "digits_ok [c] = is_digit c"
| "digits_ok (c # d # cs) =
     (is_digit c \<and> (if d = CHR ''_'' then digits_ok cs else digits_ok (d # cs)))"

definition INT_MAX_STR_DIGITS :: nat where
  "INT_MAX_STR_DIGITS = 4300"

text \<open>\<open>int(s, 10)\<close>: \<open>None\<close> is the \<open>ValueError\<close>.\<close>

definition py_int :: "string \<Rightarrow> int option" where
  "py_int s =
     (let t = py_strip s;
          neg = (take 1 t = ''-'');
          body = (if take 1 t \<in> {''-'', ''+''} then drop 1 t else t);
          ds = filter (\<lambda>c. c \<noteq> CHR ''_'') body
      in if digits_ok body \<and> length ds \<le> INT_MAX_STR_DIGITS then
           Some ((if neg then - 1 else 1) * int (val_in_base 10 ds))
         else None)"

section \<open>Lemmas\<close>

text \<open>Printable ASCII: neither white space nor a line end.\<close>

definition plain :: "char \<Rightarrow> bool" where
  "plain c \<longleftrightarrow> 33 \<le> (of_char c :: nat) \<and> (of_char c :: nat) < 128"

lemma plain_head [simp]: "plain c \<Longrightarrow> ws_len (c # cs) = 0" "plain c \<Longrightarrow> eol_len (c # cs) = 0"
  by (auto simp: plain_def ws_len_def eol_len_def ords_def)

lemma space_head [simp]: "ws_len (CHR '' '' # cs) = 1" "eol_len (CHR '' '' # cs) = 0"
  by (auto simp: ws_len_def eol_len_def ords_def)

lemma newline_head [simp]: "eol_len (CHR 0x0A # cs) = 1" "ws_len (CHR 0x0A # cs) = 1"
  by (auto simp: ws_len_def eol_len_def ords_def)

lemma py_lstrip_plain [simp]: "plain c \<Longrightarrow> py_lstrip (c # cs) = c # cs"
  by (subst py_lstrip.simps) simp

lemma py_lstrip_Nil [simp]: "py_lstrip [] = []"
  by (subst py_lstrip.simps) simp

lemma py_rstrip_plain: "list_all plain s \<Longrightarrow> py_rstrip s = s"
  by (induction s) auto

lemma py_strip_plain: "list_all plain s \<Longrightarrow> py_strip s = s"
  by (cases s) (simp_all add: py_strip_def py_rstrip_plain)

text \<open>Words of plain characters, separated by single spaces, are split back.\<close>

lemma words_from_plain:
  "list_all plain w \<Longrightarrow> words_from cur (w @ s) = words_from (cur @ w) s"
proof (induction w arbitrary: cur)
  case (Cons c w)
  then show ?case by (subst words_from.simps) simp
qed simp

lemma words_from_space:
  "words_from cur (CHR '' '' # s) = (if cur = [] then [] else [cur]) @ words_from [] s"
  by (subst words_from.simps) simp

lemma words_from_Nil [simp]: "words_from cur [] = (if cur = [] then [] else [cur])"
  by (subst words_from.simps) simp

fun unwords :: "string list \<Rightarrow> string" where
  "unwords [] = []"
| "unwords [w] = w"
| "unwords (w # ws) = w @ '' '' @ unwords ws"

lemma py_split_unwords:
  "list_all (\<lambda>w. w \<noteq> [] \<and> list_all plain w) ws \<Longrightarrow> py_split (unwords ws) = ws"
proof -
  have "list_all (\<lambda>w. w \<noteq> [] \<and> list_all plain w) ws \<Longrightarrow> words_from [] (unwords ws) = ws"
  proof (induction ws rule: unwords.induct)
    case (2 w)
    then show ?case using words_from_plain [of w "[]" "[]"] by simp
  next
    case (3 w w' ws)
    then show ?case by (simp add: words_from_plain words_from_space)
  qed simp
  then show "list_all (\<lambda>w. w \<noteq> [] \<and> list_all plain w) ws \<Longrightarrow> ?thesis"
    by (simp add: py_split_def)
qed

lemma unwords_line:
  "list_all (\<lambda>w. w \<noteq> [] \<and> list_all plain w) ws \<Longrightarrow>
     list_all (\<lambda>c. plain c \<or> c = CHR '' '') (unwords ws)"
  by (induction ws rule: unwords.induct) (auto simp: list_all_iff)

lemma py_strip_unwords:
  assumes "list_all (\<lambda>w. w \<noteq> [] \<and> list_all plain w) ws" "ws \<noteq> []"
  shows "py_strip (unwords ws) \<noteq> []"
proof -
  obtain w ws' where ws: "ws = w # ws'" using assms(2) by (cases ws) auto
  with assms(1) obtain c w' where "w = c # w'" "plain c" by (cases w) auto
  then obtain r where "unwords ws = c # r" "plain c" by (cases ws') (auto simp: ws)
  then show ?thesis by (simp add: py_strip_def)
qed

text \<open>Lines without line ends, each ended by a newline, are split back.\<close>

lemma lines_from_line:
  "list_all (\<lambda>c. plain c \<or> c = CHR '' '') l \<Longrightarrow>
     lines_from cur (l @ CHR 0x0A # s) = (cur @ l) # lines_from [] s"
proof (induction l arbitrary: cur)
  case Nil
  then show ?case by (subst lines_from.simps) simp
next
  case (Cons c l)
  then show ?case by (subst lines_from.simps) auto
qed

lemma py_splitlines_lines:
  "list_all (list_all (\<lambda>c. plain c \<or> c = CHR '' '')) ls \<Longrightarrow>
     py_splitlines (concat (map (\<lambda>l. l @ nl) ls)) = ls"
proof (induction ls)
  case Nil
  then show ?case by (subst py_splitlines_def, subst lines_from.simps) simp
next
  case (Cons l ls)
  then show ?case by (simp add: py_splitlines_def nl_def lines_from_line)
qed

text \<open>Reading back what \<open>dec\<close> prints.\<close>

lemma is_digit_digit: "d < 10 \<Longrightarrow> is_digit (digit d)"
  by (simp add: is_digit_def digit_def)

lemma nat_in_base_digits: "list_all is_digit (nat_in_base 10 n)"
proof (induction n rule: less_induct)
  case (less n)
  show ?case
  proof (cases "n < 10")
    case True
    then show ?thesis by (subst nat_in_base.simps) (simp add: is_digit_digit)
  next
    case False
    then have "list_all is_digit (nat_in_base 10 (n div 10))" using less by simp
    with False show ?thesis by (subst nat_in_base.simps) (simp add: is_digit_digit)
  qed
qed

lemma is_digit_plain: "is_digit c \<Longrightarrow> plain c"
  by (simp add: is_digit_def plain_def)

lemma dec_nat_word: "dec_nat n \<noteq> [] \<and> list_all plain (dec_nat n)"
  using nat_in_base_digits [of n] nat_in_base_nonempty [of 10 n]
  by (auto simp: dec_nat_def list_all_iff is_digit_plain)

lemma digits_ok_all: "s \<noteq> [] \<Longrightarrow> list_all is_digit s \<Longrightarrow> digits_ok s"
proof (induction s rule: digits_ok.induct)
  case (3 c d cs)
  have "d \<noteq> CHR ''_''" using 3 by (auto simp: is_digit_def)
  with 3 show ?case by simp
qed simp_all

lemma py_int_dec_nat:
  assumes "length (dec_nat n) \<le> INT_MAX_STR_DIGITS"
  shows "py_int (dec_nat n) = Some (int n)"
proof -
  let ?s = "nat_in_base 10 n"
  have d: "list_all is_digit ?s" by (rule nat_in_base_digits)
  obtain c cs where s: "?s = c # cs" using nat_in_base_nonempty [of 10 n] by (cases ?s) auto
  have c: "is_digit c" using d s by simp
  then have "c \<noteq> CHR ''-''" "c \<noteq> CHR ''+''" by (auto simp: is_digit_def)
  then have sign: "take 1 ?s \<noteq> ''-''" "take 1 ?s \<notin> {''-'', ''+''}" by (simp_all add: s)
  have plain: "list_all plain ?s" using d by (auto simp: list_all_iff is_digit_plain)
  have fil: "filter (\<lambda>c. c \<noteq> CHR ''_'') ?s = ?s"
    using d by (auto simp: list_all_iff is_digit_def intro!: filter_True)
  have "digits_ok ?s" using d by (simp add: digits_ok_all)
  then show ?thesis
    using assms sign fil
    by (simp add: py_int_def dec_nat_def py_strip_plain [OF plain] val_nat_in_base)
qed

end
