(* ===== verification/Validation_Campaign.thy ===== *)
theory Validation_Campaign
  imports Supervisor Py_Text
begin

text \<open>
  \<open>supervisor/validation_campaign.py\<close> and the mode of \<open>supervisor/main.py\<close> that uses it:
  the evidence of the build, the report of the measurements and its file, which is
  never overwritten. The repository root, which the code derives from the location of
  its own file, is an argument.
\<close>

section \<open>Build evidence\<close>

record build_evidence =
  elf_sha256 :: string
  hex_sha256 :: string
  map_sha256 :: string
  text_bytes :: int
  data_bytes :: int
  bss_bytes :: int
  dec_bytes :: int
  flash_bytes :: int
  static_sram_bytes :: int

text \<open>\<open>p / s\<close> on paths.\<close>

definition path_div :: "string \<Rightarrow> string \<Rightarrow> string" where
  "path_div p s = (if p \<noteq> [] \<and> last p = CHR ''/'' then p @ s else p @ ''/'' @ s)"

definition size_header :: "string list" where
  "size_header = [''text'', ''data'', ''bss'', ''dec'']"

definition unable_to_parse :: exc where
  "unable_to_parse = Exc ValidationCampaignError ''unable to parse avr-size output''"

definition parse_size_values :: "string list \<Rightarrow> (int \<times> int \<times> int \<times> int) res" where
  "parse_size_values values =
     (case (py_int (values ! 0), py_int (values ! 1), py_int (values ! 2), py_int (values ! 3)) of
        (Some t, Some d, Some b, Some x) \<Rightarrow>
          if x \<noteq> t + d + b then
            Inl (Exc ValidationCampaignError
              ''avr-size dec field does not equal text + data + bss'')
          else Inr (t, d, b, x)
      | _ \<Rightarrow> Inl (Exc ValidationCampaignError ''avr-size returned non-decimal size fields''))"

fun parse_size_rows :: "string list list \<Rightarrow> (int \<times> int \<times> int \<times> int) res" where
  "parse_size_rows [] = Inl unable_to_parse"
| "parse_size_rows (row # rest) =
     (if take 4 row \<noteq> size_header then parse_size_rows rest
      else case rest of
             [] \<Rightarrow> Inl unable_to_parse
           | values # _ \<Rightarrow>
               if length values < 4 then Inl unable_to_parse else parse_size_values values)"

definition parse_avr_size :: "string \<Rightarrow> (int \<times> int \<times> int \<times> int) res" where
  "parse_avr_size out_text =
     parse_size_rows
       (map py_split (filter (\<lambda>l. py_strip l \<noteq> []) (py_splitlines out_text)))"

fun require_artifacts :: "'w os \<Rightarrow> string list \<Rightarrow> (('w, 'z) host_scheme, unit) prog" where
  "require_artifacts os [] = ret ()"
| "require_artifacts os (p # ps) =
     bind_prog (call (os_is_file os p)) (\<lambda>there.
     if \<not> there then
       raise ValidationCampaignError (''required build artifact is missing: '' @ p)
     else require_artifacts os ps)"

text \<open>
  \<open>_sha256_file\<close>: the file is read in chunks until one is empty, which a file need not ever
  give. \<open>os_sha256\<close> is the digest of all that the hash object was updated with.
\<close>

partial_function (option) hash_chunks ::
  "'w os \<Rightarrow> int \<Rightarrow> string \<Rightarrow> 'w \<Rightarrow> (string res \<times> 'w) option" where
  "hash_chunks os k fed w =
     (case os_bread os k 65536 w of
        (Inl e, w1) \<Rightarrow> Some (Inl e, w1)
      | (Inr chunk, w1) \<Rightarrow>
          if chunk = [] then Some (Inr fed, w1) else hash_chunks os k (fed @ chunk) w1)"

definition sha256_file :: "'w os \<Rightarrow> string \<Rightarrow> (('w, 'z) host_scheme, string) prog" where
  "sha256_file os path =
     bind_prog
       (bind_prog (call (os_bopen os path)) (\<lambda>artifact.
        try_finally
          (\<lambda>h. case hash_chunks os artifact [] (world h) of
                  None \<Rightarrow> None | Some (r, w) \<Rightarrow> Some (r, h\<lparr>world := w\<rparr>))
          (call (os_bclose os artifact))))
       (\<lambda>digest. call_total (os_sha256 os digest))"

definition collect_build_evidence ::
  "'w os \<Rightarrow> string \<Rightarrow> string \<Rightarrow> (('w, 'z) host_scheme, build_evidence) prog" where
  "collect_build_evidence os repo avr_size_command =
     (let elf = path_div (path_div repo ''build'') ''sentry-cell-uno.elf'';
          hex = path_div (path_div repo ''build'') ''sentry-cell-uno.hex'';
          mp = path_div (path_div repo ''build'') ''sentry-cell-uno.map''
      in
      bind_prog (require_artifacts os [elf, hex, mp]) (\<lambda>_.
      bind_prog
        (try_except (call (os_run os [avr_size_command, elf])) [OSError]
          (\<lambda>e. raise ValidationCampaignError
            (''unable to execute '' @ avr_size_command @ '': '' @ exc_msg e)))
        (\<lambda>completed.
      if returncode completed \<noteq> 0 then
        raise ValidationCampaignError
          (avr_size_command @ '' failed: ''
             @ (if py_strip (proc_stderr completed) = [] then ''no diagnostic output''
                else py_strip (proc_stderr completed)))
      else
        bind_prog (lift_res (parse_avr_size (proc_stdout completed))) (\<lambda>(t, d, b, x).
        bind_prog (sha256_file os elf) (\<lambda>elf_digest.
        bind_prog (sha256_file os hex) (\<lambda>hex_digest.
        bind_prog (sha256_file os mp) (\<lambda>map_digest.
        ret \<lparr>elf_sha256 = elf_digest, hex_sha256 = hex_digest, map_sha256 = map_digest,
             text_bytes = t, data_bytes = d, bss_bytes = b, dec_bytes = x,
             flash_bytes = t + d, static_sram_bytes = d + b\<rparr>)))))))"

section \<open>The report\<close>

definition report_stem :: "datetime \<Rightarrow> string" where
  "report_stem timestamp = ''val_req_027_campaign_'' @ dt_stamp timestamp"

definition report_candidate :: "string \<Rightarrow> datetime \<Rightarrow> nat \<Rightarrow> string" where
  "report_candidate repo timestamp i =
     path_div (path_div repo ''measurements'')
       (report_stem timestamp @ (if i = 0 then [] else ''_'' @ dec02 i) @ ''.txt'')"

text \<open>\<open>for collision_index in range(10000)\<close>, with the number of indices left.\<close>

fun first_free_report ::
  "'w os \<Rightarrow> string \<Rightarrow> datetime \<Rightarrow> nat \<Rightarrow> nat \<Rightarrow> (('w, 'z) host_scheme, string) prog" where
  "first_free_report os repo timestamp i 0 =
     raise ValidationCampaignError
       (''unable to select a unique measurement report path in: ''
          @ path_div repo ''measurements'')"
| "first_free_report os repo timestamp i (Suc n) =
     bind_prog (call (os_exists os (report_candidate repo timestamp i))) (\<lambda>there.
     if \<not> there then ret (report_candidate repo timestamp i)
     else first_free_report os repo timestamp (Suc i) n)"

definition measurement_report_path ::
  "'w os \<Rightarrow> datetime \<Rightarrow> string \<Rightarrow> (('w, 'z) host_scheme, string) prog" where
  "measurement_report_path os timestamp repo = first_free_report os repo timestamp 0 10000"

definition report_ticks :: "string \<Rightarrow> int \<Rightarrow> string" where
  "report_ticks label ticks =
     label @ '': '' @ dec ticks @ '' ticks = '' @ fmt_g (ticks_to_microseconds ticks) @ '' us''"

definition report_lines ::
  "datetime \<Rightarrow> build_evidence \<Rightarrow> timing_status \<Rightarrow> jitter_status \<Rightarrow> runtime_memory_status \<Rightarrow>
     cpu_load_status \<Rightarrow> overrun_status \<Rightarrow> string list" where
  "report_lines timestamp build timing jitter mem cpu ov =
     [''Final validation measurement campaign'', [],
      ''Host date/time: '' @ dt_iso timestamp, [],
      ''Build evidence:'',
      ''ELF SHA-256: '' @ elf_sha256 build,
      ''HEX SHA-256: '' @ hex_sha256 build,
      ''Map SHA-256: '' @ map_sha256 build,
      ''avr-size text: '' @ dec (text_bytes build) @ '' bytes'',
      ''avr-size data: '' @ dec (data_bytes build) @ '' bytes'',
      ''avr-size bss: '' @ dec (bss_bytes build) @ '' bytes'',
      ''avr-size dec: '' @ dec (dec_bytes build) @ '' bytes'',
      ''Flash bytes: '' @ dec (flash_bytes build),
      ''Static SRAM bytes: '' @ dec (static_sram_bytes build), [],
      ''Scenario:'', ''IDLE       : 5 s'', ''ACTIVE     : 10 s'', ''SAFE_STATE : 5 s'',
      ''Host-timed instructions only; FSM states are not automatically detected.'', [],
      ''observed execution-time maxima:'',
      report_ticks ''Actuator'' (actuator_ticks timing),
      report_ticks ''Control'' (control_ticks timing),
      report_ticks ''Sensor/Safety'' (sensor_safety_ticks timing),
      report_ticks ''Communication'' (communication_ticks timing), [],
      ''observed maximum jitter at 1 ms measurement resolution:'',
      ''Actuator: '' @ dec (actuator_ms jitter) @ '' ms'',
      ''Control: '' @ dec (control_ms jitter) @ '' ms'',
      ''Sensor/Safety: '' @ dec (sensor_safety_ms jitter) @ '' ms'',
      ''Communication: '' @ dec (communication_ms jitter) @ '' ms'', [],
      ''observed minimum free SRAM watermark:'',
      ''Painted region: '' @ dec (painted_bytes mem) @ '' bytes'',
      ''Used painted: '' @ dec (used_painted_bytes mem) @ '' bytes'',
      ''Minimum free observed: '' @ dec (min_free_bytes mem) @ '' bytes'', [],
      ''observed scheduled-task CPU utilization:'',
      ''Busy ticks: '' @ dec (busy_ticks cpu),
      ''Elapsed firmware time: '' @ dec (elapsed_ms cpu) @ '' ms'',
      ''Utilization: ''
        @ fmt_1f (calculate_scheduled_task_utilization (busy_ticks cpu) (elapsed_ms cpu)) @ '' %'',
      ''Scheduled-task CPU utilization excludes ISR and scheduler overhead.'', [],
      ''observed execution overruns:'',
      ''Actuator: '' @ dec (actuator ov),
      ''Control: '' @ dec (control ov),
      ''Sensor/Safety: '' @ dec (sensor_safety ov),
      ''Communication: '' @ dec (communication ov), []]"

definition format_validation_report ::
  "datetime \<Rightarrow> build_evidence \<Rightarrow> timing_status \<Rightarrow> jitter_status \<Rightarrow> runtime_memory_status \<Rightarrow>
     cpu_load_status \<Rightarrow> overrun_status \<Rightarrow> string" where
  "format_validation_report timestamp build timing jitter mem cpu ov =
     join_lines (report_lines timestamp build timing jitter mem cpu ov)"

definition write_measurement_report ::
  "'w os \<Rightarrow> string \<Rightarrow> string \<Rightarrow> (('w, 'z) host_scheme, unit) prog" where
  "write_measurement_report os path report =
     bind_prog (call (os_is_dir os (path_parent path))) (\<lambda>dir.
     if \<not> dir then
       raise ValidationCampaignError
         (''measurement directory is missing: '' @ path_parent path)
     else
       try_except
         (bind_prog (call (os_fopen os path ModeX)) (\<lambda>k.
          try_finally (call (os_fwrite os k report)) (call (os_fclose os k))))
         [OSError]
         (\<lambda>e. if catches [FileExistsError] e then
                 raise ValidationCampaignError
                   (''measurement report already exists and was not overwritten: '' @ path)
               else
                 raise ValidationCampaignError
                   (''unable to create measurement report '' @ path @ '': '' @ exc_msg e)))"

section \<open>The mode\<close>

type_synonym runtime_evidence =
  "timing_status \<times> jitter_status \<times> runtime_memory_status \<times> cpu_load_status \<times> overrun_status"

definition collect_validation_runtime ::
  "'w os \<Rightarrow> (('w, 'z) host_scheme, runtime_evidence) prog" where
  "collect_validation_runtime os =
     bind_prog
       (request_status os TYPE_GET_TIMING_STATUS 0x80 ''TIMING_STATUS'' decode_timing_status)
       (\<lambda>timing.
     bind_prog
       (request_status os TYPE_GET_JITTER_STATUS 0x81 ''JITTER_STATUS'' decode_jitter_status)
       (\<lambda>jitter.
     bind_prog
       (request_status os TYPE_GET_RUNTIME_MEMORY_STATUS 0x82 ''RUNTIME_MEMORY_STATUS''
         decode_runtime_memory_status) (\<lambda>mem.
     bind_prog
       (request_status os TYPE_GET_CPU_LOAD_STATUS 0x83 ''CPU_LOAD_STATUS''
         decode_cpu_load_status) (\<lambda>cpu.
     bind_prog
       (request_status os TYPE_GET_OVERRUN_STATUS 0x84 ''OVERRUN_STATUS'' decode_overrun_status)
       (\<lambda>ov.
     ret (timing, jitter, mem, cpu, ov))))))"

definition validation_intro :: "string \<Rightarrow> string list" where
  "validation_intro port =
     [''Final validation measurement campaign'', ''Port: '' @ port, [], ''Scenario:'',
      ''IDLE       : 5 s'', ''ACTIVE     : 10 s'', ''SAFE_STATE : 5 s'',
      ''Host-timed instructions only; FSM states are not automatically detected.'', []]"

definition validation_session ::
  "'w os \<Rightarrow> (('w, 'z) host_scheme, runtime_evidence) prog" where
  "validation_session os =
     bind_prog (settle_board os) (\<lambda>_.
     bind_prog (print_line ''Keep system in IDLE'') (\<lambda>_.
     bind_prog (py_sleep os (Fin 5)) (\<lambda>_.
     bind_prog (print_line ''Press D2 once now to enter ACTIVE'') (\<lambda>_.
     bind_prog (py_sleep os (Fin 10)) (\<lambda>_.
     bind_prog (print_line ''Introduce obstacle now to enter SAFE_STATE'') (\<lambda>_.
     bind_prog (py_sleep os (Fin 5)) (\<lambda>_.
     collect_validation_runtime os)))))))"

text \<open>
  \<open>print(report, end="")\<close> prints the lines of the report, whose text ends with a newline.
\<close>

definition run_validation_profile ::
  "'w os \<Rightarrow> string \<Rightarrow> string \<Rightarrow> (('w, 'z) host_scheme, unit) prog" where
  "run_validation_profile os repo port =
     bind_prog (collect_build_evidence os repo ''avr-size'') (\<lambda>build.
     bind_prog (print_lines (validation_intro port)) (\<lambda>_.
     bind_prog (with_link os port (validation_session os)) (\<lambda>(timing, jitter, mem, cpu, ov).
     bind_prog (call_total (os_now os)) (\<lambda>timestamp.
     bind_prog (measurement_report_path os timestamp repo) (\<lambda>report_path.
     bind_prog
       (write_measurement_report os report_path
         (format_validation_report timestamp build timing jitter mem cpu ov)) (\<lambda>_.
     print_lines
       ([[]] @ butlast (report_lines timestamp build timing jitter mem cpu ov)
          @ [''Measurement report written: '' @ report_path])))))))"

section \<open>The environment with tools\<close>

text \<open>
  The library calls that look at files or run a command change nothing that the program
  observes. \<open>hash\<close> is the digest of a file's text and \<open>tool w c\<close> the outcome of running
  the command \<open>c\<close>.
\<close>

locale tool_env = host_env os rx tx clock tick ftext fpath
  for os :: "'w os" and rx tx :: "'w \<Rightarrow> bytes" and clock :: "'w \<Rightarrow> rat" and tick
    and ftext :: "'w \<Rightarrow> string \<Rightarrow> string option" and fpath :: "'w \<Rightarrow> int \<Rightarrow> string option" +
  fixes hash :: "'w \<Rightarrow> string \<Rightarrow> string" and tool :: "'w \<Rightarrow> string list \<Rightarrow> completed_process res"
    and same :: "'w \<Rightarrow> 'w \<Rightarrow> bool" and unread :: "'w \<Rightarrow> int \<Rightarrow> string option"
  assumes same_parts: "same w w' \<Longrightarrow> rx w' = rx w \<and> tx w' = tx w \<and> ftext w' = ftext w \<and>
        fpath w' = fpath w \<and> hash w' = hash w \<and> tool w' = tool w"
    and same_refl: "same w w"
    and same_trans: "same w w1 \<Longrightarrow> same w1 w2 \<Longrightarrow> same w w2"
    and is_file_same: "os_is_file os p w = (rb, w') \<Longrightarrow> same w w'"
    and is_dir_same: "os_is_dir os p w = (rb, w') \<Longrightarrow> same w w'"
    and exists_same: "os_exists os p w = (rb, w') \<Longrightarrow> same w w'"
    and exists_file: "os_exists os p w = (Inr False, w') \<Longrightarrow> ftext w p = None"
    and bopen_same: "os_bopen os p w = (ri, w') \<Longrightarrow> same w w'"
    and bread_same: "os_bread os k n w = (rs, w') \<Longrightarrow> same w w'"
    and bclose_same: "os_bclose os k w = (ru, w') \<Longrightarrow> same w w'"
    and bopen_ok: "os_bopen os p w = (Inr k, w') \<Longrightarrow> ftext w p \<noteq> None \<and> unread w' k = ftext w p"
    and bread_ok: "os_bread os k n w = (Inr b, w') \<Longrightarrow> unread w k = Some s \<Longrightarrow> 0 < n \<Longrightarrow>
        s = b @ drop (length b) s \<and> unread w' k = Some (drop (length b) s) \<and> (b = [] \<longleftrightarrow> s = [])"
    and sha256_ok: "os_sha256 os t w = (d, w') \<Longrightarrow> same w w' \<and> d = hash w t"
    and run_same: "os_run os c w = (rc, w') \<Longrightarrow> same w w'"
    and run_ok: "os_run os c w = (rc, w') \<Longrightarrow> rc = tool w c"

text \<open>What the build evidence of a world is.\<close>

definition elf_path :: "string \<Rightarrow> string" where
  "elf_path repo = path_div (path_div repo ''build'') ''sentry-cell-uno.elf''"

definition evidence ::
  "(string \<Rightarrow> string option) \<Rightarrow> (string \<Rightarrow> string) \<Rightarrow> (string list \<Rightarrow> completed_process res) \<Rightarrow>
     string \<Rightarrow> build_evidence \<Rightarrow> bool" where
  "evidence fs hash tool repo b \<longleftrightarrow>
     (\<exists>c e x m.
        tool [''avr-size'', elf_path repo] = Inr c \<and> returncode c = 0 \<and>
        parse_avr_size (proc_stdout c) =
          Inr (text_bytes b, data_bytes b, bss_bytes b, dec_bytes b) \<and>
        flash_bytes b = text_bytes b + data_bytes b \<and>
        static_sram_bytes b = data_bytes b + bss_bytes b \<and>
        fs (elf_path repo) = Some e \<and> elf_sha256 b = hash e \<and>
        fs (path_div (path_div repo ''build'') ''sentry-cell-uno.hex'') = Some x \<and>
        hex_sha256 b = hash x \<and>
        fs (path_div (path_div repo ''build'') ''sentry-cell-uno.map'') = Some m \<and>
        map_sha256 b = hash m)"

context tool_env
begin

lemma wp_same:
  assumes "\<And>r w'. m (world h) = (r, w') \<Longrightarrow> same (world h) w'"
    and "\<And>x w'. m (world h) = (Inr x, w') \<Longrightarrow> same (world h) w' \<Longrightarrow> Q x (h\<lparr>world := w'\<rparr>)"
    and "\<And>e w'. m (world h) = (Inl e, w') \<Longrightarrow> same (world h) w' \<Longrightarrow> E e (h\<lparr>world := w'\<rparr>)"
  shows "wp (call m) Q E h"
  using assms by (cases "m (world h)") (auto split: sum.split)

lemma wp_require_artifacts:
  assumes "\<And>w'. same (world h) w' \<Longrightarrow> Q () (h\<lparr>world := w'\<rparr>)"
    and "\<And>e w'. same (world h) w' \<Longrightarrow> E e (h\<lparr>world := w'\<rparr>)"
  shows "wp (require_artifacts os ps) Q E h"
  using assms
proof (induction ps arbitrary: h)
  case Nil
  with same_refl [of "world h"] show ?case by force
next
  case (Cons p ps)
  show ?case
    unfolding require_artifacts.simps wp_bind
  proof (rule wp_same [OF is_file_same], assumption, goal_cases)
    case (1 there w')
    have "wp (require_artifacts os ps) Q E (h\<lparr>world := w'\<rparr>)"
      by (rule Cons.IH) (use Cons.prems 1(2) in \<open>auto dest: same_trans\<close>)
    with 1 Cons.prems(2) show ?case by simp
  qed (use Cons.prems in simp)
qed

lemma hash_chunks_same:
  assumes "hash_chunks os k fed w = Some (r, w')"
  shows "same w w'"
proof -
  have "same w (snd (r, w'))"
  proof (rule hash_chunks.raw_induct
      [where P = "\<lambda>os' k fed w x. os' = os \<longrightarrow> same w (snd x)", OF _ assms, THEN mp])
    fix rec os' k fed w x
    assume IH: "\<And>os' k fed w x. rec os' k fed w = Some x \<Longrightarrow> os' = os \<longrightarrow> same w (snd x)"
      and eq: "(case os_bread os' k 65536 w of
        (Inl e, w1) \<Rightarrow> Some (Inl e, w1)
      | (Inr chunk, w1) \<Rightarrow>
          if chunk = [] then Some (Inr fed, w1) else rec os' k (fed @ chunk) w1) = Some x"
    show "os' = os \<longrightarrow> same w (snd x)"
    proof
      assume o: "os' = os"
      obtain rb w1 where b: "os_bread os k 65536 w = (rb, w1)" by fastforce
      have "same w1 (snd x)" if "rec os k f w1 = Some x" for f using IH [OF that] by simp
      then show "same w (snd x)"
        using eq bread_same [OF b] by (auto simp: o b intro: same_trans split: sum.splits if_splits)
    qed
  qed simp
  then show ?thesis by simp
qed

lemma hash_chunks_ok:
  "unread w k = Some s \<Longrightarrow> \<exists>r w'. hash_chunks os k fed w = Some (r, w') \<and> (r = Inr d \<longrightarrow> d = fed @ s)"
proof (induction s arbitrary: fed w rule: length_induct)
  case (1 s)
  obtain rb w1 where b: "os_bread os k 65536 w = (rb, w1)" by fastforce
  show ?case
  proof (cases rb)
    case (Inl e)
    with b show ?thesis by (subst hash_chunks.simps) simp
  next
    case (Inr c)
    note ok = bread_ok [OF b [unfolded Inr] 1(2)]
    show ?thesis
    proof (cases "c = []")
      case True
      with b Inr ok show ?thesis by (subst hash_chunks.simps) simp
    next
      case False
      then have "length (drop (length c) s) < length s" using ok by (cases c; cases s) auto
      with 1(1) ok obtain r w' where r: "hash_chunks os k (fed @ c) w1 = Some (r, w')"
        "r = Inr d \<longrightarrow> d = (fed @ c) @ drop (length c) s" by fastforce
      have "fed @ s = (fed @ c) @ drop (length c) s" using ok by simp
      with b Inr False r show ?thesis by (subst hash_chunks.simps) simp
    qed
  qed
qed

lemma returns_sha256_file [returns_intros]: "returns (sha256_file os p) h"
proof -
  have "returns (\<lambda>h. case hash_chunks os k [] (world h) of
      None \<Rightarrow> None | Some (r, w) \<Rightarrow> Some (r, h\<lparr>world := w\<rparr>)) g"
    if "call (os_bopen os p) h = Some (Inr k, g)" for k g
  proof -
    from that have "os_bopen os p (world h) = (Inr k, world g)"
      by (auto simp: call_def split: prod.splits)
    from bopen_ok [OF this] obtain s where "unread (world g) k = Some s" by auto
    from hash_chunks_ok [OF this, of "[]"] obtain r w' where
      "hash_chunks os k [] (world g) = Some (r, w')" by blast
    then show ?thesis by (simp add: returns_def)
  qed
  then show ?thesis unfolding sha256_file_def by (intro returns_intros) auto
qed

lemma wp_sha256_file:
  assumes "\<And>c w'. ftext (world h) p = Some c \<Longrightarrow> same (world h) w' \<Longrightarrow>
      Q (hash (world h) c) (h\<lparr>world := w'\<rparr>)"
    and "\<And>e w'. same (world h) w' \<Longrightarrow> E e (h\<lparr>world := w'\<rparr>)"
  shows "wp (sha256_file os p) Q E h"
proof -
  obtain rk w1 where o: "os_bopen os p (world h) = (rk, w1)" by fastforce
  note s1 = bopen_same [OF o]
  show ?thesis
  proof (cases rk)
    case (Inl e)
    with o s1 assms(2) show ?thesis by (simp add: sha256_file_def)
  next
    case (Inr k)
    from bopen_ok [OF o [unfolded Inr]] obtain c where
      c: "ftext (world h) p = Some c" "unread w1 k = Some c" by auto
    have chunks: "wp (\<lambda>h. case hash_chunks os k [] (world h) of
        None \<Rightarrow> None | Some (r, w) \<Rightarrow> Some (r, h\<lparr>world := w\<rparr>))
      (\<lambda>d g. d = c \<and> (\<exists>w. same (world h) w \<and> g = h\<lparr>world := w\<rparr>))
      (\<lambda>e g. \<exists>w. same (world h) w \<and> g = h\<lparr>world := w\<rparr>) (h\<lparr>world := w1\<rparr>)"
    proof (rule wp_I)
      fix d g
      assume "(case hash_chunks os k [] (world (h\<lparr>world := w1\<rparr>)) of
        None \<Rightarrow> None | Some (r, w) \<Rightarrow> Some (r, h\<lparr>world := w1, world := w\<rparr>)) = Some (Inr d, g)"
      then obtain w where w: "hash_chunks os k [] w1 = Some (Inr d, w)" "g = h\<lparr>world := w\<rparr>"
        by (auto split: option.splits)
      with hash_chunks_ok [OF c(2), of "[]" d] hash_chunks_same [OF w(1)] s1
      show "d = c \<and> (\<exists>w. same (world h) w \<and> g = h\<lparr>world := w\<rparr>)" by (auto dest: same_trans)
    next
      fix e g
      assume "(case hash_chunks os k [] (world (h\<lparr>world := w1\<rparr>)) of
        None \<Rightarrow> None | Some (r, w) \<Rightarrow> Some (r, h\<lparr>world := w1, world := w\<rparr>)) = Some (Inl e, g)"
      then obtain w where w: "hash_chunks os k [] w1 = Some (Inl e, w)" "g = h\<lparr>world := w\<rparr>"
        by (auto split: option.splits)
      with hash_chunks_same [OF w(1)] s1
      show "\<exists>w. same (world h) w \<and> g = h\<lparr>world := w\<rparr>" by (auto dest: same_trans)
    qed
    have close: "wp (call (os_bclose os k)) Q' E (h\<lparr>world := w\<rparr>)"
      if "same (world h) w" "\<And>w'. same (world h) w' \<Longrightarrow> Q' () (h\<lparr>world := w'\<rparr>)" for w Q'
    proof -
      obtain r w' where "os_bclose os k w = (r, w')" by fastforce
      with bclose_same [OF this] that assms(2) show ?thesis by (cases r) (auto dest: same_trans)
    qed
    have digest: "wp (call_total (os_sha256 os c)) Q E (h\<lparr>world := w\<rparr>)" if "same (world h) w" for w
    proof -
      obtain s w' where "os_sha256 os c w = (s, w')" by fastforce
      with sha256_ok [OF this] that same_parts [OF that] c(1) assms(1) show ?thesis
        by (auto dest: same_trans)
    qed
    show ?thesis
      using o Inr unfolding sha256_file_def wp_bind
      by (simp del: wp_call wp_call_total add: wp_call [of "os_bopen os p"])
        (rule wp_mono [OF chunks]; auto intro!: close digest assms(2) simp del: wp_call wp_call_total)
  qed
qed

lemma wp_collect_build_evidence:
  assumes "\<And>b w'. evidence (ftext (world h)) (hash (world h)) (tool (world h)) repo b \<Longrightarrow>
      same (world h) w' \<Longrightarrow> Q b (h\<lparr>world := w'\<rparr>)"
    and "\<And>e w'. same (world h) w' \<Longrightarrow> E e (h\<lparr>world := w'\<rparr>)"
  shows "wp (collect_build_evidence os repo ''avr-size'') Q E h"
  unfolding collect_build_evidence_def Let_def wp_bind elf_path_def [symmetric]
proof (rule wp_require_artifacts, goal_cases)
  case (1 w1)
  have sha: "wp (sha256_file os p) Q' E (h\<lparr>world := w\<rparr>)"
    if "same (world h) w"
      "\<And>c w'. ftext (world h) p = Some c \<Longrightarrow> same (world h) w' \<Longrightarrow>
         Q' (hash (world h) c) (h\<lparr>world := w'\<rparr>)" for p w Q'
    by (rule wp_sha256_file) (use that same_parts [OF that(1)] assms(2) in \<open>auto dest: same_trans\<close>)
  show ?case
    unfolding wp_try_except
  proof (rule wp_same [OF run_same], assumption, goal_cases)
    case (1 c w2)
    have w2: "same (world h) w2" using 1 \<open>same (world h) w1\<close> by (auto dest: same_trans)
    have c: "tool (world h) [''avr-size'', elf_path repo] = Inr c"
      using run_ok 1 same_parts [OF \<open>same (world h) w1\<close>] by fastforce
    show ?case
    proof (cases "returncode c \<noteq> 0 \<or> (\<exists>e. parse_avr_size (proc_stdout c) = Inl e)")
      case True
      with w2 assms(2) show ?thesis by auto
    next
      case False
      then obtain t d b x where p: "returncode c = 0" "parse_avr_size (proc_stdout c) = Inr (t, d, b, x)"
        by (cases "parse_avr_size (proc_stdout c)") auto
      show ?thesis
        using p w2 c
        by (simp del: wp_call)
          (intro sha; (assumption | rule assms(1)); simp add: evidence_def p(2))
    qed
  next
    case (2 e w2)
    with \<open>same (world h) w1\<close> assms(2) show ?case by (auto dest: same_trans)
  qed
qed (use assms(2) in simp)

lemma wp_first_free_report:
  assumes "\<And>i w'. i < j + n \<Longrightarrow> ftext (world h) (report_candidate repo ts i) = None \<Longrightarrow>
      same (world h) w' \<Longrightarrow> Q (report_candidate repo ts i) (h\<lparr>world := w'\<rparr>)"
    and "\<And>e w'. same (world h) w' \<Longrightarrow> E e (h\<lparr>world := w'\<rparr>)"
  shows "wp (first_free_report os repo ts j n) Q E h"
  using assms
proof (induction n arbitrary: j h)
  case 0
  with same_refl [of "world h"] show ?case by force
next
  case (Suc n)
  show ?case
    unfolding first_free_report.simps wp_bind
  proof (rule wp_same [OF exists_same], assumption, goal_cases)
    case (1 there w')
    note part = same_parts [OF 1(2)]
    show ?case
    proof (cases there)
      case True
      have "wp (first_free_report os repo ts (Suc j) n) Q E (h\<lparr>world := w'\<rparr>)"
        by (rule Suc.IH) (use Suc.prems part 1(2) in \<open>auto dest: same_trans\<close>)
      with True show ?thesis by simp
    next
      case False
      with 1 exists_file Suc.prems(1) [of j w'] show ?thesis by auto
    qed
  qed (use Suc.prems in simp)
qed

text \<open>
  Writing the report creates a file that did not exist, or fails with at most a part of
  the report in such a file.
\<close>

lemma wp_write_measurement_report:
  assumes "\<And>w'. ftext (world h) p = None \<Longrightarrow> ftext w' = (ftext (world h))(p \<mapsto> report) \<Longrightarrow>
      rx w' = rx (world h) \<Longrightarrow> tx w' = tx (world h) \<Longrightarrow> Q () (h\<lparr>world := w'\<rparr>)"
    and "\<And>e w'. ftext w' = ftext (world h) \<or>
        (\<exists>n. ftext (world h) p = None \<and> ftext w' = (ftext (world h))(p \<mapsto> take n report)) \<Longrightarrow>
      E e (h\<lparr>world := w'\<rparr>)"
  shows "wp (write_measurement_report os p report) Q E h"
  unfolding write_measurement_report_def wp_bind
proof (rule wp_same [OF is_dir_same], assumption, goal_cases)
  case (1 dir w1)
  note part = same_parts [OF 1(2)]
  obtain rk w2 where o: "os_fopen os p ModeX w1 = (rk, w2)" by fastforce
  note io2 = fil.u_fopen [OF o]
  show ?case
  proof (cases "dir \<and> is_ok rk")
    case False
    with 1 part o fopen_err [of p ModeX w1 _ w2] assms(2) [of w1] assms(2) [of w2] show ?thesis
      by (cases rk) auto
  next
    case True
    then obtain k where k: "rk = Inr k" by (cases rk) auto
    obtain rw w3 where w: "os_fwrite os k report w2 = (rw, w3)" by fastforce
    obtain rc w4 where c: "os_fclose os k w3 = (rc, w4)" by fastforce
    have new: "ftext (world h) p = None" using fopen_x o k part by fastforce
    have f2: "ftext w2 = (ftext (world h))(p \<mapsto> [])" "fpath w2 k = Some p"
      using fopen_ok o k part by auto
    have f4: "ftext w4 = ftext w3" using fclose_files [OF c] by simp
    have io: "rx w4 = rx (world h)" "tx w4 = tx (world h)"
      using io2 fil.u_fwrite [OF w] fil.u_fclose [OF c] part by simp_all
    have f3: "ftext w3 = (ftext (world h))(p \<mapsto> report)" if "rw = Inr u" for u
      using fwrite_ok [of k report w2 u w3 p "[]"] w that f2 by simp
    have f3': "\<exists>n. ftext w3 = (ftext (world h))(p \<mapsto> take n report)"
    proof (cases rw)
      case (Inl e)
      with fwrite_err [of k report w2 e w3 p "[]"] w f2 show ?thesis by simp
    next
      case (Inr u)
      with f3 [of u] show ?thesis by (auto intro: exI [of _ "length report"])
    qed
    then have bad: "E e (h\<lparr>world := w4\<rparr>)" for e
      using assms(2) [of w4 e] f4 new by auto
    show ?thesis
      using True o k w c f4 io new f3 bad assms(1) [of w4]
      by (cases rw; cases rc) simp_all
  qed
next
  case (2 e w')
  with same_parts assms(2) show ?case by simp
qed

end

section \<open>Parsing the size table\<close>

text \<open>What \<open>avr-size\<close> prints: a header and one row of sizes, in Berkeley format.\<close>

definition size_row :: "nat \<Rightarrow> nat \<Rightarrow> nat \<Rightarrow> string list \<Rightarrow> string" where
  "size_row t d b extra = unwords (map dec_nat [t, d, b, t + d + b] @ extra)"

definition size_table :: "string list \<Rightarrow> string \<Rightarrow> string" where
  "size_table extra row = concat (map (\<lambda>l. l @ nl) [unwords (size_header @ extra), row])"

lemma parse_size_values_iff:
  "parse_size_values vs = Inr (t, d, b, x) \<longleftrightarrow>
     py_int (vs ! 0) = Some t \<and> py_int (vs ! 1) = Some d \<and> py_int (vs ! 2) = Some b \<and>
     py_int (vs ! 3) = Some x \<and> x = t + d + b"
  by (auto simp: parse_size_values_def split: option.split if_splits)

lemma parse_size_values_Inl:
  "parse_size_values vs = Inl e \<Longrightarrow> exc_class e = ValidationCampaignError"
  by (auto simp: parse_size_values_def split: option.splits if_splits)

lemma parse_size_rows_iff:
  "parse_size_rows rows = Inr r \<longleftrightarrow>
     (\<exists>pre hd vs rest. rows = pre @ hd # vs # rest \<and> size_header \<notin> take 4 ` set pre \<and>
        take 4 hd = size_header \<and> 4 \<le> length vs \<and> parse_size_values vs = Inr r)"
proof (induction rows rule: parse_size_rows.induct)
  case (2 row rest)
  show ?case
  proof (cases "take 4 row = size_header")
    case True
    have "(\<exists>pre hd vs rs. row # rest = pre @ hd # vs # rs \<and> size_header \<notin> take 4 ` set pre \<and>
        take 4 hd = size_header \<and> 4 \<le> length vs \<and> parse_size_values vs = Inr r) \<longleftrightarrow>
      (\<exists>vs rs. rest = vs # rs \<and> 4 \<le> length vs \<and> parse_size_values vs = Inr r)"
    proof (intro iffI; elim exE conjE)
      fix pre hd vs rs
      assume "row # rest = pre @ hd # vs # rs" "size_header \<notin> take 4 ` set pre"
        "4 \<le> length vs" "parse_size_values vs = Inr r"
      with True show "\<exists>vs rs. rest = vs # rs \<and> 4 \<le> length vs \<and> parse_size_values vs = Inr r"
        by (cases pre) auto
    next
      fix vs rs
      assume "rest = vs # rs" "4 \<le> length vs" "parse_size_values vs = Inr r"
      with True show "\<exists>pre hd vs rs. row # rest = pre @ hd # vs # rs \<and>
          size_header \<notin> take 4 ` set pre \<and> take 4 hd = size_header \<and> 4 \<le> length vs \<and>
          parse_size_values vs = Inr r"
        by (intro exI [of _ "[]"] exI [of _ row] exI [of _ vs] exI [of _ rs]) simp
    qed
    with True show ?thesis by (cases rest) (auto simp: unable_to_parse_def)
  next
    case False
    have "(\<exists>pre hd vs rs. row # rest = pre @ hd # vs # rs \<and> size_header \<notin> take 4 ` set pre \<and>
        take 4 hd = size_header \<and> 4 \<le> length vs \<and> parse_size_values vs = Inr r) \<longleftrightarrow>
      (\<exists>pre hd vs rs. rest = pre @ hd # vs # rs \<and> size_header \<notin> take 4 ` set pre \<and>
        take 4 hd = size_header \<and> 4 \<le> length vs \<and> parse_size_values vs = Inr r)"
    proof (intro iffI; elim exE conjE)
      fix pre hd vs rs
      assume a: "row # rest = pre @ hd # vs # rs" "size_header \<notin> take 4 ` set pre"
        "take 4 hd = size_header" "4 \<le> length vs" "parse_size_values vs = Inr r"
      then obtain pre' where "pre = row # pre'" using False by (cases pre) auto
      with a show "\<exists>pre hd vs rs. rest = pre @ hd # vs # rs \<and> size_header \<notin> take 4 ` set pre \<and>
          take 4 hd = size_header \<and> 4 \<le> length vs \<and> parse_size_values vs = Inr r"
        by (intro exI [of _ pre'] exI [of _ hd] exI [of _ vs] exI [of _ rs]) simp
    next
      fix pre hd vs rs
      assume a: "rest = pre @ hd # vs # rs" "size_header \<notin> take 4 ` set pre"
        "take 4 hd = size_header" "4 \<le> length vs" "parse_size_values vs = Inr r"
      then show "\<exists>pre hd vs rs. row # rest = pre @ hd # vs # rs \<and>
          size_header \<notin> take 4 ` set pre \<and> take 4 hd = size_header \<and> 4 \<le> length vs \<and>
          parse_size_values vs = Inr r"
        using False
        by (intro exI [of _ "row # pre"] exI [of _ hd] exI [of _ vs] exI [of _ rs]) auto
    qed
    with False 2 show ?thesis by simp
  qed
qed (simp add: unable_to_parse_def)

lemma parse_size_rows_Inl:
  "parse_size_rows rows = Inl e \<Longrightarrow> exc_class e = ValidationCampaignError"
  by (induction rows rule: parse_size_rows.induct)
    (auto simp: unable_to_parse_def split: if_splits list.splits dest: parse_size_values_Inl)

definition size_rows :: "string \<Rightarrow> string list list" where
  "size_rows s = map py_split (filter (\<lambda>l. py_strip l \<noteq> []) (py_splitlines s))"

text \<open>
  C24: \<open>_parse_avr_size\<close> returns four sizes exactly when the first header row of the
  output is followed by a row with four decimal fields of which the last is the sum of
  the others, and they are these fields; on every other text it raises
  \<open>ValidationCampaignError\<close>.
\<close>

theorem avr_size_parsing:
  "case parse_avr_size s of
     Inr (t, d, b, x) \<Rightarrow> x = t + d + b \<and>
       (\<exists>pre hd vs rest. size_rows s = pre @ hd # vs # rest \<and> size_header \<notin> take 4 ` set pre \<and>
          take 4 hd = size_header \<and> map py_int (take 4 vs) = [Some t, Some d, Some b, Some x])
   | Inl e \<Rightarrow> exc_class e = ValidationCampaignError \<and>
       (\<nexists>t d b pre hd vs rest. size_rows s = pre @ hd # vs # rest \<and> size_header \<notin> take 4 ` set pre \<and>
          take 4 hd = size_header \<and>
          map py_int (take 4 vs) = [Some t, Some d, Some b, Some (t + d + b)])"
proof -
  have four: "map py_int (take 4 vs) = [Some t, Some d, Some b, Some x] \<longleftrightarrow>
      4 \<le> length vs \<and> py_int (vs ! 0) = Some t \<and> py_int (vs ! 1) = Some d \<and>
      py_int (vs ! 2) = Some b \<and> py_int (vs ! 3) = Some x" for vs t d b x
    by (cases vs rule: list.exhaust; cases "tl vs"; cases "tl (tl vs)"; cases "tl (tl (tl vs))")
      (auto simp: numeral_eq_Suc)
  have iff: "parse_avr_size s = Inr (t, d, b, x) \<longleftrightarrow> x = t + d + b \<and>
      (\<exists>pre hd vs rest. size_rows s = pre @ hd # vs # rest \<and> size_header \<notin> take 4 ` set pre \<and>
         take 4 hd = size_header \<and> map py_int (take 4 vs) = [Some t, Some d, Some b, Some x])"
    for t d b x
    unfolding four
    by (auto simp: parse_avr_size_def size_rows_def parse_size_rows_iff parse_size_values_iff)
  show ?thesis
  proof (cases "parse_avr_size s")
    case (Inl e)
    then have "exc_class e = ValidationCampaignError"
      using parse_size_rows_Inl by (auto simp: parse_avr_size_def)
    moreover have "\<not> (\<exists>pre hd vs rest. size_rows s = pre @ hd # vs # rest \<and>
        size_header \<notin> take 4 ` set pre \<and> take 4 hd = size_header \<and>
        map py_int (take 4 vs) = [Some t, Some d, Some b, Some (t + d + b)])" for t d b
      using iff [of t d b "t + d + b"] by (simp only: Inl sum.distinct simp_thms refl if_False)
    ultimately show ?thesis unfolding Inl sum.case by metis
  next
    case (Inr r)
    obtain t d b x where r: "r = (t, d, b, x)" by (cases r) auto
    with Inr have eq: "parse_avr_size s = Inr (t, d, b, x)" by simp
    from iffD1 [OF iff this] show ?thesis unfolding eq sum.case prod.case .
  qed
qed

text \<open>
  C25: the sizes are read back from the table that \<open>avr-size\<close> prints, whatever further
  columns it has.
\<close>

theorem avr_size_round_trip:
  assumes "list_all (\<lambda>n. length (dec_nat n) \<le> 4300) [t, d, b, t + d + b]"
    and "list_all (\<lambda>w. w \<noteq> [] \<and> list_all plain w) (hs @ vs)"
  shows "parse_avr_size (size_table hs (size_row t d b vs)) =
    Inr (int t, int d, int b, int (t + d + b))"
proof -
  let ?word = "\<lambda>w. w \<noteq> [] \<and> list_all plain w"
  define ns ss where "ns = size_header @ hs" and "ss = map dec_nat [t, d, b, t + d + b] @ vs"
  have words: "list_all ?word ns" "list_all ?word ss" "ns \<noteq> []" "ss \<noteq> []"
    using assms(2) by (simp_all add: ns_def ss_def size_header_def plain_def dec_nat_word)
  have lines: "py_splitlines (size_table hs (size_row t d b vs)) = [unwords ns, unwords ss]"
    unfolding size_table_def size_row_def ns_def [symmetric] ss_def [symmetric]
    using words by (intro py_splitlines_lines) (simp add: unwords_line)
  have "take 4 ns = size_header" "4 \<le> length ss" by (simp_all add: ns_def ss_def size_header_def)
  then have "parse_avr_size (size_table hs (size_row t d b vs)) = parse_size_values ss"
    by (simp add: parse_avr_size_def lines words py_strip_unwords py_split_unwords)
  also have "\<dots> = Inr (int t, int d, int b, int (t + d + b))"
    using assms(1)
    by (simp add: parse_size_values_iff py_int_dec_nat INT_MAX_STR_DIGITS_def ss_def)
  finally show ?thesis .
qed

theorem avr_size_round_trip_witness:
  "parse_avr_size (size_table [''hex'', ''filename''] (size_row 13284 92 1069 [''386d'', ''a.elf''])) =
    Inr (13284, 92, 1069, 14445)"
proof -
  have "list_all (\<lambda>n. length (dec_nat n) \<le> 4300) [13284, 92, 1069, 13284 + 92 + 1069]"
    by (simp add: dec_nat_def nat_in_base.simps)
  moreover have "list_all (\<lambda>w. w \<noteq> [] \<and> list_all plain w)
      ([''hex'', ''filename''] @ [''386d'', ''a.elf''])"
    by (simp add: plain_def)
  ultimately show ?thesis
    using avr_size_round_trip [of 13284 92 1069 "[''hex'', ''filename'']" "[''386d'', ''a.elf'']"]
    by simp
qed

section \<open>The whole campaign\<close>

definition validation_requests :: "frame list" where
  "validation_requests =
     [mk_frame TYPE_GET_TIMING_STATUS 0x80 [], mk_frame TYPE_GET_JITTER_STATUS 0x81 [],
      mk_frame TYPE_GET_RUNTIME_MEMORY_STATUS 0x82 [], mk_frame TYPE_GET_CPU_LOAD_STATUS 0x83 [],
      mk_frame TYPE_GET_OVERRUN_STATUS 0x84 []]"

text \<open>What the program makes of the five answers.\<close>

definition measured :: "frame list \<Rightarrow> runtime_evidence \<Rightarrow> bool" where
  "measured fs = (\<lambda>(timing, jitter, mem, cpu, ov).
     (\<exists>a b c d e. fs = [a, b, c, d, e] \<and> decode_timing_status a = Inr timing \<and>
        decode_jitter_status b = Inr jitter \<and> decode_runtime_memory_status c = Inr mem \<and>
        decode_cpu_load_status d = Inr cpu \<and> decode_overrun_status e = Inr ov))"

definition validation_prompts :: "string list" where
  "validation_prompts =
     [''Keep system in IDLE'', ''Press D2 once now to enter ACTIVE'',
      ''Introduce obstacle now to enter SAFE_STATE'']"

context host_env
begin

lemma talks_collect_validation_runtime:
  "talks rx tx (collect_validation_runtime os) validation_requests (\<lambda>fs ls x. ls = [] \<and> measured fs x)"
  unfolding collect_validation_runtime_def
  by (rule talks_mono [OF talks_bind [OF talks_request_status talks_bind [OF talks_request_status
        talks_bind [OF talks_request_status talks_bind [OF talks_request_status
          talks_bind [OF talks_request_status talks_ret]]]]]])
    ((erule (2) decoder_answers) |
      (auto simp: valid_request type_defs validation_requests_def measured_def)[1])+

lemma talks_validation_session:
  "talks rx tx (validation_session os) validation_requests
     (\<lambda>fs ls x. ls = validation_prompts \<and> measured fs x)"
  unfolding validation_session_def settle_board_def
  by (rule talks_mono [OF talks_bind [OF talks_sleep talks_bind [OF talks_print(1) talks_bind
        [OF talks_sleep talks_bind [OF talks_print(1) talks_bind [OF talks_sleep talks_bind
          [OF talks_print(1) talks_bind [OF talks_sleep talks_collect_validation_runtime]]]]]]]])
    (auto simp: validation_prompts_def)

lemma validation_session_files:
  "keeps (\<lambda>h. (ftext (world h), fpath (world h))) (with_link os port (validation_session os))"
  unfolding with_link_def validation_session_def collect_validation_runtime_def settle_board_def
  by (intro keeps_intros ser.v_transactions ser.v_serial_open ser.v_serial_close ser.v_link_upd
      ser.v_py_sleep keeps_of_world)

lemma wp_validation_link:
  "wp (with_link os port (validation_session os))
     (\<lambda>x h'. link_fd h' = None \<and> ftext (world h') = ftext (world h) \<and>
        (\<exists>fs. list_all2 answers validation_requests fs \<and> measured fs x \<and>
           tx (world h') = tx (world h) @ concat (map wire validation_requests) \<and>
           rx (world h') = rx (world h) @ concat (map wire fs) \<and>
           out h' = out h @ validation_prompts))
     (\<lambda>_ h'. link_fd h' = None \<and> ftext (world h') = ftext (world h)) h"
  by (rule wp_mono [OF wp_conj [OF talks_wp [OF talks_with_link [OF talks_validation_session]]
        wp_conj [OF keeps_wp [OF validation_session_files] wp_with_link_closed]]])
    auto

end

text \<open>What a failed campaign may leave: nothing, or a new file with a part of a report.\<close>

definition only_new_file ::
  "(string \<Rightarrow> string option) \<Rightarrow> (string \<Rightarrow> string option) \<Rightarrow> bool" where
  "only_new_file fs fs' \<longleftrightarrow> fs' = fs \<or> (\<exists>p t. fs p = None \<and> fs' = fs(p \<mapsto> t))"

definition campaign_lines ::
  "string \<Rightarrow> datetime \<Rightarrow> build_evidence \<Rightarrow> runtime_evidence \<Rightarrow> string \<Rightarrow> string list" where
  "campaign_lines port ts b = (\<lambda>(timing, jitter, mem, cpu, ov) path.
     validation_intro port @ validation_prompts @ [[]]
       @ butlast (report_lines ts b timing jitter mem cpu ov)
       @ [''Measurement report written: '' @ path])"

definition campaign_report :: "datetime \<Rightarrow> build_evidence \<Rightarrow> runtime_evidence \<Rightarrow> string" where
  "campaign_report ts b = (\<lambda>(timing, jitter, mem, cpu, ov).
     format_validation_report ts b timing jitter mem cpu ov)"

context tool_env
begin

lemma wp_run_validation_profile:
  "wp (run_validation_profile os repo port)
     (\<lambda>_ h'. link_fd h' = None \<and>
        (\<exists>fs b x ts i. list_all2 answers validation_requests fs \<and> measured fs x \<and>
           evidence (ftext (world h)) (hash (world h)) (tool (world h)) repo b \<and>
           tx (world h') = tx (world h) @ concat (map wire validation_requests) \<and>
           rx (world h') = rx (world h) @ concat (map wire fs) \<and>
           i < 10000 \<and> ftext (world h) (report_candidate repo ts i) = None \<and>
           ftext (world h') =
             (ftext (world h))(report_candidate repo ts i \<mapsto> campaign_report ts b x) \<and>
           out h' = out h @ campaign_lines port ts b x (report_candidate repo ts i)))
     (\<lambda>_ h'. only_new_file (ftext (world h)) (ftext (world h')) \<and>
        (link_fd h' = None \<or> tx (world h') = tx (world h) \<and> out h' = out h)) h"
  (is "wp _ ?Q ?E h")
  unfolding run_validation_profile_def wp_bind wp_print_lines
proof (rule wp_collect_build_evidence, goal_cases)
  case (1 b w1)
  note p1 = same_parts [OF 1(2)]
  show ?case
  proof (rule wp_mono [OF wp_validation_link], goal_cases)
    case (1 x g)
    then obtain fs where g: "link_fd g = None" "ftext (world g) = ftext (world h)"
      "list_all2 answers validation_requests fs" "measured fs x"
      "tx (world g) = tx (world h) @ concat (map wire validation_requests)"
      "rx (world g) = rx (world h) @ concat (map wire fs)"
      "out g = out h @ validation_intro port @ validation_prompts"
      using p1 by auto
    obtain timing jitter mem cpu ov where x: "x = (timing, jitter, mem, cpu, ov)" by (cases x) auto
    obtain ts w2 where n: "os_now os (world g) = (ts, w2)" by fastforce
    note io2 = ser.v_now [OF n] fil.u_now [OF n]
    have stay: "?E e (g\<lparr>world := w\<rparr>)" if "only_new_file (ftext w2) (ftext w)" for e :: exc and w
      using that io2 g(1,2) by simp
    have "wp (measurement_report_path os ts repo)
        (\<lambda>p. wp (write_measurement_report os p (campaign_report ts b x))
           (\<lambda>_ t. ?Q () (t\<lparr>out := out t @ [[]] @ butlast (report_lines ts b timing jitter mem cpu ov)
              @ [''Measurement report written: '' @ p]\<rparr>)) ?E) ?E (g\<lparr>world := w2\<rparr>)"
      unfolding measurement_report_path_def
    proof (rule wp_first_free_report, goal_cases)
      case (1 i w3)
      note p3 = same_parts [OF 1(3)]
      show ?case
      proof (rule wp_write_measurement_report, goal_cases)
        case (1 w4)
        show ?case
          by (intro conjI exI [of _ fs] exI [of _ b] exI [of _ x] exI [of _ ts] exI [of _ i])
            (use 1 p3 io2 g \<open>i < 0 + 10000\<close> \<open>evidence _ _ _ _ b\<close> in
              \<open>simp_all add: campaign_lines_def x\<close>)
      next
        case (2 e w4)
        have "only_new_file (ftext w2) (ftext w4)"
          using 2 p3 unfolding only_new_file_def by auto
        with stay [of w4] show ?case by simp
      qed
    next
      case (2 e w3)
      with same_parts [of w2 w3] stay [of w3] show ?case by (simp add: only_new_file_def)
    qed
    then show ?case
      unfolding x prod.case wp_bind wp_print_lines
      by (simp add: n campaign_report_def)
  next
    case (2 e g)
    with p1 show ?case by (simp add: only_new_file_def)
  qed
next
  case (2 e w')
  with same_parts show ?case by (simp add: only_new_file_def)
qed

lemma returns_run_validation_profile [returns_intros]: "returns (run_validation_profile os repo port) h"
proof -
  have "returns (require_artifacts os ps) g" for ps and g :: "('w, 'z) host_scheme"
    by (induction ps arbitrary: g) (auto intro!: returns_intros)
  moreover have "returns (first_free_report os repo ts i n) g" for ts i n and g :: "('w, 'z) host_scheme"
    by (induction n arbitrary: i g) (auto intro!: returns_intros)
  ultimately show ?thesis
    unfolding run_validation_profile_def collect_build_evidence_def validation_session_def
      collect_validation_runtime_def settle_board_def measurement_report_path_def
      write_measurement_report_def Let_def
    by (intro returns_intros)
qed

end

text \<open>Reading a file moves only its reader.\<close>

definition line_same :: "'d line_world \<Rightarrow> 'd line_world \<Rightarrow> bool" where
  "line_same w w' \<longleftrightarrow> w'\<lparr>readers := [], next_handle := 0\<rparr> = w\<lparr>readers := [], next_handle := 0\<rparr>"

definition lw_unread :: "'d line_world \<Rightarrow> int \<Rightarrow> string option" where
  "lw_unread w k = map_of (readers w) k"

lemma line_same_parts:
  "line_same w w' \<Longrightarrow> rx_seen w' = rx_seen w \<and> tx_sent w' = tx_sent w \<and> lw_text w' = lw_text w \<and>
     lw_path w' = lw_path w \<and> hash_fun w' = hash_fun w \<and> tools w' = tools w \<and> line_fds w' = line_fds w"
  by (cases w; cases w') (simp add: line_same_def lw_text_def lw_path_def line_fds_def fun_eq_iff)

interpretation line_tools:
  tool_env "line_os d" rx_seen tx_sent clk clock_tick lw_text lw_path hash_fun tools line_same
    lw_unread for d
  by (unfold_locales, (drule line_same_parts, simp)[1])
    (auto simp: line_os_def lw_bopen_def lw_bread_def lw_bclose_def lw_text_def
      lw_unread_def line_same_def update_conv min_def split: option.splits)


end
