(* ===== verification/Dashboard_Http.thy ===== *)
theory Dashboard_Http
  imports Dashboard_Poller Validation_Campaign
begin

text \<open>
  The HTTP handler of \<open>supervisor/dashboard.py\<close>: from the path of a request to its
  reply. \<open>urlsplit\<close> and \<open>unquote\<close> of the standard library are modelled on UTF-8 text;
  the check of the authority of an absolute URL, which no route uses, is an argument.
  Status line, \<open>Server\<close>, \<open>Date\<close> and the error page are the library's and not part of a
  reply.
\<close>

section \<open>The path of a URL\<close>

definition ascii :: "char \<Rightarrow> bool" where
  "ascii c \<longleftrightarrow> (of_char c :: nat) < 128"

definition is_alpha :: "char \<Rightarrow> bool" where
  "is_alpha c \<longleftrightarrow> (let k = of_char c :: nat in 65 \<le> k \<and> k \<le> 90 \<or> 97 \<le> k \<and> k \<le> 122)"

definition scheme_char :: "char \<Rightarrow> bool" where
  "scheme_char c \<longleftrightarrow>
     is_alpha c \<or> (let k = of_char c :: nat in 48 \<le> k \<and> k \<le> 57) \<or> c \<in> set ''+-.''"

definition url_path :: "(string \<Rightarrow> unit res) \<Rightarrow> string \<Rightarrow> string res" where
  "url_path check_netloc url =
     (let u = filter (\<lambda>c. c \<notin> {CHR 0x09, CHR 0x0D, CHR 0x0A})
                (dropWhile (\<lambda>c. (of_char c :: nat) \<le> 32) url);
          pre = takeWhile (\<lambda>c. c \<noteq> CHR '':'') u;
          v = (if pre \<noteq> [] \<and> length pre < length u \<and> is_alpha (hd pre) \<and> list_all scheme_char pre
               then drop (Suc (length pre)) u else u);
          netloc = (\<lambda>c. c \<notin> set ''/?#'');
          path = takeWhile (\<lambda>c. c \<noteq> CHR ''#'' \<and> c \<noteq> CHR ''?'')
      in if take 2 v = ''//'' then
           bind_res (check_netloc (takeWhile netloc (drop 2 v))) (\<lambda>_.
           Inr (path (dropWhile netloc (drop 2 v))))
         else Inr (path v))"

section \<open>Percent escapes\<close>

definition hex_value :: "char \<Rightarrow> nat option" where
  "hex_value c =
     (let k = of_char c :: nat in
      if 48 \<le> k \<and> k \<le> 57 then Some (k - 48)
      else if 65 \<le> k \<and> k \<le> 70 then Some (k - 55)
      else if 97 \<le> k \<and> k \<le> 102 then Some (k - 87)
      else None)"

fun pct_decode :: "string \<Rightarrow> string" where
  "pct_decode (p # a # b # cs) =
     (case (p = CHR ''%'', hex_value a, hex_value b) of
        (True, Some x, Some y) \<Rightarrow> char_of (16 * x + y) # pct_decode cs
      | _ \<Rightarrow> p # pct_decode (a # b # cs))"
| "pct_decode cs = cs"

text \<open>
  \<open>bytes.decode("utf-8", "replace")\<close>: the number of continuation bytes after a lead byte
  with the range of the first of them, and the number of them that follow.
\<close>

definition utf8_lead :: "nat \<Rightarrow> (nat \<times> nat \<times> nat) option" where
  "utf8_lead k =
     (if k < 0x80 then Some (0, 0x80, 0xBF)
      else if 0xC2 \<le> k \<and> k \<le> 0xDF then Some (1, 0x80, 0xBF)
      else if k = 0xE0 then Some (2, 0xA0, 0xBF)
      else if k = 0xED then Some (2, 0x80, 0x9F)
      else if 0xE1 \<le> k \<and> k \<le> 0xEF then Some (2, 0x80, 0xBF)
      else if k = 0xF0 then Some (3, 0x90, 0xBF)
      else if 0xF1 \<le> k \<and> k \<le> 0xF3 then Some (3, 0x80, 0xBF)
      else if k = 0xF4 then Some (3, 0x80, 0x8F)
      else None)"

fun utf8_tail :: "nat \<Rightarrow> nat \<Rightarrow> nat \<Rightarrow> string \<Rightarrow> nat" where
  "utf8_tail n lo hi [] = 0"
| "utf8_tail n lo hi (c # cs) =
     (if n \<noteq> 0 \<and> lo \<le> of_char c \<and> of_char c \<le> hi
      then Suc (utf8_tail (n - 1) 0x80 0xBF cs) else 0)"

definition replacement :: string where
  "replacement = map char_of [0xEF :: nat, 0xBF, 0xBD]"

function utf8_replace :: "string \<Rightarrow> string" where
  "utf8_replace [] = []"
| "utf8_replace (c # cs) =
     (case utf8_lead (of_char c) of
        None \<Rightarrow> replacement @ utf8_replace cs
      | Some (n, lo, hi) \<Rightarrow>
          let k = utf8_tail n lo hi cs in
          (if k = n then c # take n cs else replacement) @ utf8_replace (drop k cs))"
  by pat_completeness auto
termination
  by (relation "measure length") auto

text \<open>The escapes are decoded in the runs of ASCII characters only.\<close>

function unquote_runs :: "string \<Rightarrow> string" where
  "unquote_runs s =
     (if s = [] then []
      else
        (let rest = dropWhile ascii s
         in utf8_replace (pct_decode (takeWhile ascii s))
              @ takeWhile (\<lambda>c. \<not> ascii c) rest
              @ unquote_runs (dropWhile (\<lambda>c. \<not> ascii c) rest)))"
  by auto
termination
proof (relation "measure length", simp)
  fix s rest :: string
  assume "s \<noteq> []" "rest = dropWhile ascii s"
  then show "(dropWhile (\<lambda>c. \<not> ascii c) rest, s) \<in> measure length"
    by (cases s) (auto intro: le_less_trans [OF length_dropWhile_le] le_less_trans [OF order_trans [OF length_dropWhile_le length_dropWhile_le]])
qed

declare unquote_runs.simps [simp del]

definition unquote :: "string \<Rightarrow> string" where
  "unquote s = (if CHR ''%'' \<notin> set s then s else unquote_runs s)"

section \<open>Replies\<close>

datatype http_reply =
    Reply nat "(string \<times> string) list" string
  | SendError nat string

definition csp :: string where
  "csp = ''default-src 'self'; script-src 'self'; style-src 'self'; ''
     @ ''connect-src 'self'; img-src 'self' data:; object-src 'none'; ''
     @ ''base-uri 'none'; frame-ancestors 'none'' @ [CHR 0x27]"

definition send_headers :: "string \<Rightarrow> nat \<Rightarrow> (string \<times> string) list" where
  "send_headers content_type content_length =
     [(''Content-Type'', content_type),
      (''Content-Length'', dec (int content_length)),
      (''Cache-Control'', ''no-store''),
      (''X-Content-Type-Options'', ''nosniff''),
      (''Content-Security-Policy'', csp)]"

definition send_json :: "json \<Rightarrow> bool \<Rightarrow> http_reply" where
  "send_json p send_body =
     (let body = json_text p in
      Reply 200 (send_headers ''application/json; charset=utf-8'' (length body))
        (if send_body then body else []))"

definition static_routes :: "(string \<times> string \<times> string) list" where
  "static_routes =
     [(''/'', ''index.html'', ''text/html; charset=utf-8''),
      (''/index.html'', ''index.html'', ''text/html; charset=utf-8''),
      (''/dashboard.css'', ''dashboard.css'', ''text/css; charset=utf-8''),
      (''/dashboard.js'', ''dashboard.js'', ''text/javascript; charset=utf-8'')]"

definition not_found :: http_reply where
  "not_found = SendError 404 ''Not found''"

definition send_static ::
  "'w os \<Rightarrow> string \<Rightarrow> string \<Rightarrow> bool \<Rightarrow> (('w, 'z) host_scheme, http_reply) prog" where
  "send_static os static_directory route send_body =
     (case map_of static_routes route of
        None \<Rightarrow> ret not_found
      | Some (filename, content_type) \<Rightarrow>
          bind_prog
            (try_except
              (bind_prog (call (os_read_bytes os (path_div static_directory filename)))
                (\<lambda>body. ret (Some body)))
              [OSError] (\<lambda>_. ret None))
            (\<lambda>r. case r of
               None \<Rightarrow> ret not_found
             | Some body \<Rightarrow>
                 ret (Reply 200 (send_headers content_type (length body))
                   (if send_body then body else []))))"

definition dispatch ::
  "'w os \<Rightarrow> (string \<Rightarrow> unit res) \<Rightarrow> string \<Rightarrow> string \<Rightarrow> bool \<Rightarrow>
     (('w, 'z) dashboard_host_scheme, http_reply) prog" where
  "dispatch os check_netloc static_directory path send_body =
     bind_prog (lift_res (url_path check_netloc path)) (\<lambda>p.
     let route = unquote p in
     if ''..'' \<in> set (split_on CHR ''/'' route) then ret not_found
     else if route = ''/api/status'' then
       bind_prog (status_payload os None) (\<lambda>j. ret (send_json j send_body))
     else if route = ''/api/history'' then
       bind_prog (with_store history_payload) (\<lambda>j. ret (send_json j send_body))
     else send_static os static_directory route send_body)"

definition do_GET where
  "do_GET os check_netloc static_directory path = dispatch os check_netloc static_directory path True"

definition do_HEAD where
  "do_HEAD os check_netloc static_directory path = dispatch os check_netloc static_directory path False"

section \<open>What a request can do\<close>

locale file_env = poll_env os rx tx clock tick ftext fpath stop ev
  for os :: "'w os" and rx tx :: "'w \<Rightarrow> bytes" and clock :: "'w \<Rightarrow> rat" and tick
    and ftext :: "'w \<Rightarrow> string \<Rightarrow> string option" and fpath :: "'w \<Rightarrow> int \<Rightarrow> string option"
    and stop :: "'w \<Rightarrow> rat option" and ev :: "'w stop_event" +
  assumes read_bytes_io: "os_read_bytes os p w = (rb, w') \<Longrightarrow> rx w' = rx w \<and> tx w' = tx w \<and>
        ftext w' = ftext w \<and> stop w' = stop w \<and> clock w \<le> clock w'"
    and read_bytes_ok: "os_read_bytes os p w = (Inr c, w') \<Longrightarrow> ftext w p = Some c"

text \<open>The bodies that a request can get.\<close>

definition asset_names :: "string list" where
  "asset_names = [''index.html'', ''dashboard.css'', ''dashboard.js'']"

definition served ::
  "(string \<Rightarrow> string option) \<Rightarrow> string \<Rightarrow> dashboard_store \<Rightarrow> string \<Rightarrow> bool" where
  "served fs static_directory s body \<longleftrightarrow>
     (\<exists>t p. status_payload_at t s = Some (Inr p, s) \<and> body = json_text p) \<or>
     (\<exists>p. history_payload s = Some (Inr p, s) \<and> body = json_text p) \<or>
     (\<exists>name \<in> set asset_names. fs (path_div static_directory name) = Some body)"

definition proper_reply ::
  "(string \<Rightarrow> string option) \<Rightarrow> string \<Rightarrow> dashboard_store \<Rightarrow> bool \<Rightarrow> http_reply \<Rightarrow> bool" where
  "proper_reply fs static_directory s send_body r \<longleftrightarrow>
     r = not_found \<or>
     (\<exists>content_type body. served fs static_directory s body \<and>
        r = Reply 200 (send_headers content_type (length body)) (if send_body then body else []))"

lemma status_payload_at_store: "\<exists>r. status_payload_at t s = Some (r, s)"
  by (simp add: status_payload_at_def run_bind ret_def split: sum.split)

lemma proper_reply_iff:
  "proper_reply fs d s b r \<longleftrightarrow>
     r = SendError 404 ''Not found'' \<or>
     (\<exists>content_type body.
        r = Reply 200 (send_headers content_type (length body)) (if b then body else []) \<and>
        ((\<exists>t p. status_payload_at t s = Some (Inr p, s) \<and> body = json_text p) \<or>
         (\<exists>p. history_payload s = Some (Inr p, s) \<and> body = json_text p) \<or>
         (\<exists>name. name \<in> {''index.html'', ''dashboard.css'', ''dashboard.js''} \<and>
            fs (path_div d name) = Some body)))"
  unfolding proper_reply_def served_def not_found_def asset_names_def list.set by blast

lemma proper_json:
  "served fs d s (json_text p) \<Longrightarrow> proper_reply fs d s b (send_json p b)"
  unfolding proper_reply_def send_json_def Let_def by blast

lemma static_routes_assets:
  "map_of static_routes route = Some (name, ct) \<Longrightarrow> name \<in> set asset_names"
  by (auto simp: static_routes_def asset_names_def split: if_splits)

context file_env
begin

lemma wp_send_static:
  assumes "\<And>r w'. proper_reply (ftext (world h)) d (store h) b r \<Longrightarrow> rx w' = rx (world h) \<Longrightarrow>
      tx w' = tx (world h) \<Longrightarrow> ftext w' = ftext (world h) \<Longrightarrow> Q r (h\<lparr>world := w'\<rparr>)"
    and "\<And>e w'. \<not> catches [OSError] e \<Longrightarrow> rx w' = rx (world h) \<Longrightarrow> tx w' = tx (world h) \<Longrightarrow>
      ftext w' = ftext (world h) \<Longrightarrow> E e (h\<lparr>world := w'\<rparr>)"
  shows "wp (send_static os d route b) Q E h"
proof (cases "map_of static_routes route")
  case None
  with assms(1) [of not_found "world h"] show ?thesis
    by (simp add: send_static_def proper_reply_def)
next
  case (Some nc)
  obtain name ct where nc: "nc = (name, ct)" by (cases nc)
  obtain r w' where r: "os_read_bytes os (path_div d name) (world h) = (r, w')" by fastforce
  note io = read_bytes_io [OF r]
  show ?thesis
  proof (cases r)
    case (Inl e)
    with Some nc r io assms(1) [of not_found w'] assms(2) [of e w'] show ?thesis
      by (simp add: send_static_def proper_reply_def)
  next
    case (Inr body)
    have "ftext (world h) (path_div d name) = Some body" using read_bytes_ok r Inr by simp
    then have "served (ftext (world h)) d (store h) body"
      using static_routes_assets Some nc unfolding served_def by blast
    then have "proper_reply (ftext (world h)) d (store h) b
        (Reply 200 (send_headers ct (length body)) (if b then body else []))"
      unfolding proper_reply_def by blast
    with Some nc r Inr io assms(1) show ?thesis by (simp add: send_static_def)
  qed
qed

lemma wp_dispatch:
  "wp (dispatch os check d path b)
     (\<lambda>r h'. (\<exists>w'. h' = h\<lparr>world := w'\<rparr> \<and> rx w' = rx (world h) \<and> tx w' = tx (world h) \<and>
        ftext w' = ftext (world h)) \<and> proper_reply (ftext (world h)) d (store h) b r)
     (\<lambda>e h'. (\<exists>w'. h' = h\<lparr>world := w'\<rparr> \<and> rx w' = rx (world h) \<and> tx w' = tx (world h) \<and>
        ftext w' = ftext (world h))) h"
  (is "wp _ ?Q ?E h")
proof (cases "url_path check path")
  case (Inl e)
  then show ?thesis by (auto simp: dispatch_def intro!: exI [of _ "world h"])
next
  case (Inr p)
  have status: "wp (bind_prog (status_payload os None) (\<lambda>j. ret (send_json j b))) ?Q ?E h"
  proof -
    obtain t w' where t: "os_time os (world h) = (t, w')" by fastforce
    obtain r where r: "status_payload_at t (store h) = Some (r, store h)"
      using status_payload_at_store by blast
    have w: "wp (status_payload_at t) Q E (store h) = (case r of Inl e \<Rightarrow> E e (store h) | Inr x \<Rightarrow> Q x (store h))"
      for Q :: "json \<Rightarrow> dashboard_store \<Rightarrow> bool" and E
      by (simp add: wp_def r split: sum.split)
    have ok: "proper_reply (ftext (world h)) d (store h) b (send_json j b)" if "r = Inr j" for j
      by (rule proper_json) (use r that in \<open>auto simp: served_def\<close>)
    show ?thesis
      using t time_io [OF t] ok
      by (cases r) (auto simp: status_payload_def now_or_def wp_with_store w)
  qed
  have history: "wp (bind_prog (with_store history_payload) (\<lambda>j. ret (send_json j b))) ?Q ?E h"
  proof -
    obtain j where j: "history_payload (store h) = Some (Inr j, store h)"
      by (simp add: history_payload_def get_st_def)
    have "proper_reply (ftext (world h)) d (store h) b (send_json j b)"
      by (rule proper_json) (use j in \<open>auto simp: served_def\<close>)
    then show ?thesis
      by (auto simp: wp_with_store wp_def [of history_payload] j intro!: exI [of _ "world h"])
  qed
  have static: "wp (send_static os d route b) ?Q ?E h" for route
    by (rule wp_send_static) blast+
  have none: "?Q not_found h" by (auto simp: proper_reply_def intro!: exI [of _ "world h"])
  from status history static none show ?thesis
    unfolding dispatch_def Let_def by (simp del: wp_bind add: wp_bind [of "lift_res _"] Inr)
qed

lemma returns_dispatch: "returns (dispatch os check d path b) h"
proof -
  have "returns (status_payload_at t) s" "returns history_payload s" for t s
    unfolding status_payload_at_def history_payload_def by (intro returns_intros; simp)+
  then show ?thesis
    unfolding dispatch_def send_static_def status_payload_def now_or_def Let_def
    by (intro returns_intros returns_with_store returns_case_prod)
qed

end

interpretation line_http:
  file_env "line_os d" rx_seen tx_sent clk clock_tick lw_text lw_path stop_time line_event for d
  by unfold_locales (auto simp: line_os_def lw_read_bytes_def lw_text_def split: option.splits)

text \<open>
  C20: the HTTP interface is read-only and serves nothing but its own data. Every request,
  whatever its path, is answered (or fails) without changing the store, the files or the
  link and without a byte to the device; the answer is 404 or one of the status, the
  history and the three files of the dashboard, with its length and the security headers,
  and without the body for HEAD.
\<close>

theorem http_requests_safe:
  "returns (dispatch (line_os d) check static path send_body) h \<and>
   wp (dispatch (line_os d) check static path send_body)
     (\<lambda>r h'. (\<exists>w'. h' = h\<lparr>world := w'\<rparr> \<and> rx_seen w' = rx_seen (world h) \<and>
           tx_sent w' = tx_sent (world h) \<and> lw_text w' = lw_text (world h)) \<and>
        (r = SendError 404 ''Not found'' \<or>
         (\<exists>content_type body.
            r = Reply 200 (send_headers content_type (length body)) (if send_body then body else []) \<and>
            ((\<exists>t p. status_payload_at t (store h) = Some (Inr p, store h) \<and> body = json_text p) \<or>
             (\<exists>p. history_payload (store h) = Some (Inr p, store h) \<and> body = json_text p) \<or>
             (\<exists>name. name \<in> {''index.html'', ''dashboard.css'', ''dashboard.js''} \<and>
                lw_text (world h) (path_div static name) = Some body)))))
     (\<lambda>_ h'. \<exists>w'. h' = h\<lparr>world := w'\<rparr> \<and> rx_seen w' = rx_seen (world h) \<and>
           tx_sent w' = tx_sent (world h) \<and> lw_text w' = lw_text (world h)) h"
  by (rule conjI [OF line_http.returns_dispatch
        line_http.wp_dispatch [where h = h, unfolded proper_reply_iff]])

end
