(* ===== verification/Dashboard_App.thy ===== *)
theory Dashboard_App
  imports Dashboard_Http
begin

text \<open>
  The dashboard mode of \<open>supervisor/dashboard.py\<close>: the options, the server and
  \<open>run_dashboard\<close>. The threads of a session are steps of one sequence: a round of the
  poller's loop, or one request of a browser. Which steps run while the main thread serves
  and while it joins the poller, and which exception ends the serving, is an argument.
\<close>

section \<open>Sockets and threads\<close>

record 'w net =
  srv_bind :: "string \<Rightarrow> int \<Rightarrow> 'w \<Rightarrow> int res \<times> 'w"
  srv_close :: "int \<Rightarrow> 'w \<Rightarrow> unit res \<times> 'w"
  th_start :: "'w \<Rightarrow> unit res \<times> 'w"
  ev_new :: "'w \<Rightarrow> unit \<times> 'w"
  ev_set :: "'w \<Rightarrow> unit \<times> 'w"

text \<open>
  The thread object: not started, started, in its loop with the time of the next poll, or
  ended. The answers to the requests are collected; an exception of a handler ends its
  request only.
\<close>

datatype poller_thread = NotStarted | Started | Pacing rat | Ended

record 'w dash_session = "'w dashboard_host" +
  poller :: poller_thread
  replies :: "(exc + http_reply) list"

datatype dash_event = PollerRuns | HttpGet string | HttpHead string

definition set_poller :: "poller_thread \<Rightarrow> (('w, 'z) dash_session_scheme, unit) prog" where
  "set_poller p = modify (\<lambda>h. h\<lparr>poller := p\<rparr>)"

definition poller_step ::
  "'w os \<Rightarrow> 'w stop_event \<Rightarrow> (rat \<Rightarrow> (('w, 'z) dash_session_scheme, frame) prog) \<Rightarrow>
     (('w, 'z) dash_session_scheme, unit) prog" where
  "poller_step os ev rf =
     bind_prog (get_st poller) (\<lambda>p.
     case p of
       NotStarted \<Rightarrow> ret ()
     | Ended \<Rightarrow> ret ()
     | Started \<Rightarrow> bind_prog (call_total (os_monotonic os)) (\<lambda>t. set_poller (Pacing t))
     | Pacing t \<Rightarrow>
         bind_prog
           (try_except
             (poll_cycle os ev (poll_once os rf DEFAULT_RESPONSE_TIMEOUT_SECONDS)
               DEFAULT_POLL_INTERVAL_SECONDS t)
             [BaseException] (\<lambda>_. ret None))
           (\<lambda>r. set_poller (case r of None \<Rightarrow> Ended | Some n \<Rightarrow> Pacing n)))"

definition answer_request ::
  "(('w, 'z) dash_session_scheme, http_reply) prog \<Rightarrow> (('w, 'z) dash_session_scheme, unit) prog" where
  "answer_request m =
     bind_prog (try_except (bind_prog m (\<lambda>r. ret (Inr r))) [BaseException] (\<lambda>e. ret (Inl e))) (\<lambda>r.
     modify (\<lambda>h. h\<lparr>replies := replies h @ [r]\<rparr>))"

fun run_event ::
  "'w os \<Rightarrow> 'w stop_event \<Rightarrow> (string \<Rightarrow> unit res) \<Rightarrow> string \<Rightarrow>
     (rat \<Rightarrow> (('w, 'z) dash_session_scheme, frame) prog) \<Rightarrow> dash_event \<Rightarrow>
     (('w, 'z) dash_session_scheme, unit) prog" where
  "run_event os ev chk static rf PollerRuns = poller_step os ev rf"
| "run_event os ev chk static rf (HttpGet path) = answer_request (do_GET os chk static path)"
| "run_event os ev chk static rf (HttpHead path) = answer_request (do_HEAD os chk static path)"

fun run_events ::
  "'w os \<Rightarrow> 'w stop_event \<Rightarrow> (string \<Rightarrow> unit res) \<Rightarrow> string \<Rightarrow>
     (rat \<Rightarrow> (('w, 'z) dash_session_scheme, frame) prog) \<Rightarrow> dash_event list \<Rightarrow>
     (('w, 'z) dash_session_scheme, unit) prog" where
  "run_events os ev chk static rf [] = ret ()"
| "run_events os ev chk static rf (e # es) =
     bind_prog (run_event os ev chk static rf e) (\<lambda>_. run_events os ev chk static rf es)"

section \<open>The mode\<close>

definition validate_dashboard_options :: "string \<Rightarrow> int \<Rightarrow> unit res" where
  "validate_dashboard_options host port =
     (if host = [] then Inl (Exc ValueError ''--dashboard-host must not be empty'')
      else if \<not> (1 \<le> port \<and> port \<le> 65535) then
        Inl (Exc ValueError ''--dashboard-port must be in range 1..65535'')
      else Inr ())"

definition open_serial_session ::
  "'w os \<Rightarrow> string \<Rightarrow> (('w, 'z) host_scheme, 'a) prog \<Rightarrow> (('w, 'z) host_scheme, 'a) prog" where
  "open_serial_session os port body =
     bind_prog (modify (\<lambda>h. h\<lparr>link_fd := None\<rparr>)) (\<lambda>_.
     bind_prog (serial_open os port) (\<lambda>_.
     try_finally body (serial_close os)))"

text \<open>The server's socket; its store and its static directory are arguments of its steps.\<close>

definition create_http_server :: "'w net \<Rightarrow> string \<Rightarrow> int \<Rightarrow> (('w, 'z) host_scheme, int) prog" where
  "create_http_server net host port = call (srv_bind net host port)"

definition poller_stop :: "'w net \<Rightarrow> (('w, 'z) host_scheme, unit) prog" where
  "poller_stop net = call_total (ev_set net)"

text \<open>The server serves until an exception, \<open>serve_ends\<close>, reaches the main thread.\<close>

definition serve_forever ::
  "(dash_event list \<Rightarrow> (('w, 'z) dash_session_scheme, unit) prog) \<Rightarrow> dash_event list \<Rightarrow> exc \<Rightarrow>
     (('w, 'z) dash_session_scheme, unit) prog" where
  "serve_forever run serving serve_ends = bind_prog (run serving) (\<lambda>_. lift_res (Inl serve_ends))"

definition dashboard_banner :: "string \<Rightarrow> string \<Rightarrow> int \<Rightarrow> string list" where
  "dashboard_banner serial_port host http_port =
     [''SENTRY-CELL UNO Dashboard'',
      ''Serial: '' @ serial_port,
      ''Dashboard: http://'' @ host @ '':'' @ dec http_port,
      [],
      ''Press Ctrl+C to stop.'']"

definition run_dashboard ::
  "'w os \<Rightarrow> 'w net \<Rightarrow> 'w stop_event \<Rightarrow> (string \<Rightarrow> unit res) \<Rightarrow> string \<Rightarrow> string \<Rightarrow> string \<Rightarrow> int \<Rightarrow>
     (rat \<Rightarrow> (('w, 'z) dash_session_scheme, frame) prog) \<Rightarrow>
     dash_event list \<Rightarrow> exc \<Rightarrow> dash_event list \<Rightarrow> (('w, 'z) dash_session_scheme, unit) prog" where
  "run_dashboard os net ev chk static serial_port host http_port rf serving serve_ends joining =
     (let run = run_events os ev chk static rf in
      bind_prog (lift_res (validate_dashboard_options host http_port)) (\<lambda>_.
      bind_prog (lift_res (new_store DASHBOARD_HISTORY_LIMIT DASHBOARD_EVENT_LIMIT
        DEFAULT_STALE_AFTER_SECONDS)) (\<lambda>s.
      bind_prog (modify (\<lambda>h. h\<lparr>store := s, poller := NotStarted\<rparr>)) (\<lambda>_.
      bind_prog (create_http_server net host http_port) (\<lambda>http_server.
      try_finally
        (open_serial_session os serial_port
          (bind_prog (py_sleep os (Fin (22 / 10))) (\<lambda>_.
           bind_prog (new_poller DEFAULT_POLL_INTERVAL_SECONDS DEFAULT_RESPONSE_TIMEOUT_SECONDS) (\<lambda>_.
           bind_prog (call_total (ev_new net)) (\<lambda>_.
           bind_prog (print_lines (dashboard_banner serial_port host http_port)) (\<lambda>_.
           bind_prog (call (th_start net)) (\<lambda>_.
           bind_prog (set_poller Started) (\<lambda>_.
           try_finally
             (try_except (serve_forever run serving serve_ends) [KeyboardInterrupt] (\<lambda>_. ret ()))
             (bind_prog (poller_stop net) (\<lambda>_. run joining))))))))))
        (call (srv_close net http_server)))))))"


section \<open>What the steps of a session observe\<close>

text \<open>
  A quantity that the requests of the poller, the clock, the stop event and the reading of
  a file do not lower is not lowered by any sequence of steps.
\<close>

lemma rises_with_store_any: "(\<And>h s. f (h\<lparr>store := s\<rparr>) = f h) \<Longrightarrow> rises f (with_store m)"
  by (intro rises_keeps keeps_intros)

lemma rises_dispatch:
  assumes "rises f (call_total (os_time os))" "\<And>p. rises f (call (os_read_bytes os p))"
    and "\<And>h s. f (h\<lparr>store := s\<rparr>) = f h"
  shows "rises f (dispatch os chk static path b)"
  unfolding dispatch_def send_static_def status_payload_def now_or_def Let_def option.case
  by (intro rises_intros rises_case_option assms rises_with_store_any)
    (auto intro!: rises_intros rises_case_option assms split: prod.split)

lemma rises_poll_cycle:
  assumes "rises f poll" "rises f (call_total (os_monotonic os))"
    and "rises f (call_total (ev_is_set ev))" "\<And>t. rises f (call_total (ev_wait ev t))"
  shows "rises f (poll_cycle os ev poll interval t)"
  unfolding poll_cycle_def Let_def by (intro rises_intros assms)

lemma rises_run_events:
  fixes f :: "('w, 'z) dash_session_scheme \<Rightarrow> bool"
  assumes "rises f (poll_once os rf DEFAULT_RESPONSE_TIMEOUT_SECONDS)"
    and "rises f (call_total (os_monotonic os))" "rises f (call_total (os_time os))"
    and "rises f (call_total (ev_is_set ev))" "\<And>t. rises f (call_total (ev_wait ev t))"
    and "\<And>p. rises f (call (os_read_bytes os p))"
    and "\<And>h s. f (h\<lparr>store := s\<rparr>) = f h" "\<And>h p. f (h\<lparr>poller := p\<rparr>) = f h"
    and "\<And>h r. f (h\<lparr>replies := r\<rparr>) = f h"
  shows "rises f (run_events os ev chk static rf es)"
proof -
  have set_poller: "rises f (set_poller p)" for p
    unfolding set_poller_def by (intro rises_keeps keeps_intros assms)
  have answer: "rises f m \<Longrightarrow> rises f (answer_request m)" for m
    unfolding answer_request_def
    by (intro rises_intros rises_keeps [OF keeps_modify] assms) auto
  have step: "rises f (poller_step os ev rf)"
    unfolding poller_step_def
    by (intro rises_intros)
      (auto split: poller_thread.split intro!: rises_intros set_poller rises_poll_cycle assms)
  have event: "rises f (run_event os ev chk static rf e)" for e
    by (cases e) (simp_all add: step do_GET_def do_HEAD_def answer rises_dispatch assms)
  show ?thesis by (induction es) (auto intro!: rises_intros event)
qed

section \<open>The device sees nothing but the seven requests\<close>

text \<open>A request of a poll, or what of it was written when the write failed.\<close>

definition poll_piece :: "bytes \<Rightarrow> bool" where
  "poll_piece p \<longleftrightarrow> (\<exists>ty s n. ty \<in> set poll_types \<and> p = take n (wire (mk_frame ty s [])))"

definition poll_traffic :: "bytes \<Rightarrow> bytes \<Rightarrow> bool" where
  "poll_traffic t0 t \<longleftrightarrow> (\<exists>ps. t = t0 @ concat ps \<and> list_all poll_piece ps)"

lemma poll_traffic_refl: "poll_traffic t t"
  unfolding poll_traffic_def by (rule exI [of _ "[]"]) simp

lemma poll_traffic_append: "poll_traffic t0 t \<Longrightarrow> poll_piece p \<Longrightarrow> poll_traffic t0 (t @ p)"
  unfolding poll_traffic_def by (elim exE, rule_tac x = "ps @ [p]" in exI) simp

context poll_env
begin

lemma tx_calls [keeps_intros]:
  "keeps (\<lambda>h. tx (world h)) (call_total (os_monotonic os))"
  "keeps (\<lambda>h. tx (world h)) (call_total (os_time os))"
  "keeps (\<lambda>h. tx (world h)) (call (os_tcflush_in os fd))"
  by (rule keeps_call keeps_call_total; use monotonic_io time_io flush_io in blast)+

lemma tx_read_exact [keeps_intros]: "keeps (\<lambda>h. tx (world h)) (read_exact os n t)"
proof -
  have "tx w' = tx w" if "read_loop os fd k dl acc w = Some (r, w')" for fd k dl acc w r w'
  proof (rule read_loop_rel [where R = "\<lambda>w w'. tx w' = tx w", OF that])
    show "tx w' = tx w" if "os_read os fd n w = (x, w')" for fd n w x w'
      using that read_ok read_err by (cases x) blast+
  qed (use monotonic_io select_io in auto)
  then have "keeps (\<lambda>h. tx (world h)) (\<lambda>h. case read_loop os fd k dl acc (world h) of
      None \<Rightarrow> None | Some (r, w) \<Rightarrow> Some (r, h\<lparr>world := w\<rparr>))" for fd k dl acc
    by (auto simp: keeps_def split: option.splits prod.splits)
  then show ?thesis unfolding read_exact_def by (intro keeps_intros)
qed

lemma tx_recover [keeps_intros]: "keeps (\<lambda>h. tx (world h)) (recover_rx_after_timeout os)"
  unfolding recover_rx_after_timeout_def py_sleep_def
  by (intro keeps_intros) (auto intro!: keeps_intros simp: sleep_io split: pyfloat.split)

lemma traffic_send:
  assumes "ty \<in> set poll_types"
  shows "rises (\<lambda>h. poll_traffic t0 (tx (world h))) (send_frame os (mk_frame ty s []))"
proof -
  have "poll_traffic t0 (tx (world h'))"
    if "poll_traffic t0 (tx (world h))" "send_frame os (mk_frame ty s []) h = Some (r, h')" for h r h'
  proof -
    have piece: "poll_traffic t0 (tx (world h) @ take k bs)"
      if "encode_frame (mk_frame ty s []) = Inr bs" for k bs
      using that assms \<open>poll_traffic t0 (tx (world h))\<close>
      unfolding encode_frame_iff by (blast intro: poll_traffic_append poll_piece_def [THEN iffD2])
    have "wp (send_frame os (mk_frame ty s []))
        (\<lambda>_ h'. poll_traffic t0 (tx (world h'))) (\<lambda>_ h'. poll_traffic t0 (tx (world h'))) h"
    proof (cases "encode_frame (mk_frame ty s [])")
      case (Inl e)
      with that(1) show ?thesis by (simp add: send_frame_def)
    next
      case (Inr bs)
      then show ?thesis
        unfolding send_frame_def wp_bind
        by simp (rule wp_serial_write; use piece [OF Inr] piece [OF Inr, of "length bs"] in simp)
    qed
    with that(2) show ?thesis by (cases r) (auto dest: wp_resultD)
  qed
  then show ?thesis by (auto simp: rises_def)
qed

lemma traffic_poll_once:
  "rises (\<lambda>h. poll_traffic t0 (tx (world h))) (poll_once os (read_protocol_frame os) timeout)"
proof -
  let ?f = "\<lambda>h. poll_traffic t0 (tx (world h))"
  have k: "rises ?f m" if "keeps (\<lambda>h. tx (world h)) m" for m
    using that by (auto simp: rises_def keeps_def)
  have rd: "rises ?f (read_protocol_frame os t)" for t
    unfolding read_protocol_frame_def Let_def by (intro k keeps_intros)
  have sq: "rises ?f poll_next_sequence"
    unfolding poll_next_sequence_def by (intro k keeps_intros) simp
  have rq: "rises ?f (poll_request os (read_protocol_frame os) timeout ty rty dcd)"
    if "ty \<in> set poll_types" for ty rty dcd
    unfolding poll_request_def by (intro rises_intros sq rd traffic_send that)
  have st: "rises ?f (poll_statuses os (read_protocol_frame os) timeout)"
    unfolding poll_statuses_def by (intro rises_intros rq) (simp_all add: poll_types_def)
  have now: "rises ?f (now_or os None)"
    unfolding now_or_def option.case by (intro k keeps_intros)
  show ?thesis
    unfolding poll_once_def poll_failed_def record_failure_def record_success_def
    by (intro rises_intros rises_case_option st now k [OF tx_recover] rises_with_store_any) simp_all
qed

end


section \<open>A session cleans up\<close>

context port_frame
begin

lemma v_poll_once:
  assumes "\<And>w t w'. os_time os w = (t, w') \<Longrightarrow> v w' = v w"
  shows "keeps (\<lambda>h. v (world h)) (poll_once os (read_protocol_frame os) timeout)"
proof -
  have t: "keeps (\<lambda>h. v (world h)) (now_or os None)"
    unfolding now_or_def option.case by (rule keeps_call_total) (use assms in blast)
  show ?thesis
    unfolding poll_once_def poll_failed_def record_failure_def record_success_def
      poll_statuses_def poll_request_def poll_next_sequence_def
    by (intro keeps_intros v_transactions v_recover t; simp)
qed

end

text \<open>
  Sockets are descriptors of their own: \<open>bound w\<close> are the open server sockets. The clock,
  the stop event and the start of a thread touch neither kind, nor the files.
\<close>

locale session_env = file_env os rx tx clock tick ftext fpath stop ev + fd_table os open_fds +
  fds: port_frame os open_fds + bnd: io_frame os bound
  for os :: "'w os" and rx tx :: "'w \<Rightarrow> bytes" and clock :: "'w \<Rightarrow> rat" and tick
    and ftext :: "'w \<Rightarrow> string \<Rightarrow> string option" and fpath :: "'w \<Rightarrow> int \<Rightarrow> string option"
    and stop :: "'w \<Rightarrow> rat option" and ev :: "'w stop_event"
    and open_fds :: "'w \<Rightarrow> int set" and bound :: "'w \<Rightarrow> int set" +
  fixes net :: "'w net"
  assumes time_own: "os_time os w = (t, w') \<Longrightarrow>
        fpath w' = fpath w \<and> open_fds w' = open_fds w \<and> bound w' = bound w"
    and is_set_own: "ev_is_set ev w = (b, w') \<Longrightarrow> open_fds w' = open_fds w \<and> bound w' = bound w"
    and wait_own: "ev_wait ev d w = (b, w') \<Longrightarrow> open_fds w' = open_fds w \<and> bound w' = bound w"
    and read_own: "os_read_bytes os p w = (rb, w') \<Longrightarrow> open_fds w' = open_fds w \<and> bound w' = bound w"
    and bind_io: "srv_bind net a q w = (ri, w') \<Longrightarrow>
        tx w' = tx w \<and> ftext w' = ftext w \<and> open_fds w' = open_fds w"
    and bind_ok: "srv_bind net a q w = (Inr s, w') \<Longrightarrow> s \<notin> bound w \<and> bound w' = insert s (bound w)"
    and bind_err: "srv_bind net a q w = (Inl e, w') \<Longrightarrow> bound w' = bound w"
    and unbind_io: "srv_close net s w = (ru, w') \<Longrightarrow> tx w' = tx w \<and> ftext w' = ftext w \<and>
        open_fds w' = open_fds w \<and> bound w' = bound w - {s}"
    and thread_io: "th_start net w = (ru, w') \<Longrightarrow> tx w' = tx w \<and> ftext w' = ftext w \<and>
        open_fds w' = open_fds w \<and> bound w' = bound w"
    and new_io: "ev_new net w = (u, w') \<Longrightarrow> tx w' = tx w \<and> ftext w' = ftext w \<and>
        open_fds w' = open_fds w \<and> bound w' = bound w"
    and set_io: "ev_set net w = (u, w') \<Longrightarrow> tx w' = tx w \<and> ftext w' = ftext w \<and>
        open_fds w' = open_fds w \<and> bound w' = bound w"

text \<open>The state of a session: its files, descriptors, sockets, its link and what it sent.\<close>

definition in_session ::
  "('w \<Rightarrow> 'f) \<Rightarrow> ('w \<Rightarrow> int set) \<Rightarrow> ('w \<Rightarrow> int set) \<Rightarrow> ('w \<Rightarrow> bytes) \<Rightarrow>
     'f \<Rightarrow> int set \<Rightarrow> int set \<Rightarrow> int option \<Rightarrow> bytes \<Rightarrow> ('w, 'z) host_scheme \<Rightarrow> bool" where
  "in_session tf fds socks sent fs d s l t0 h \<longleftrightarrow>
     tf (world h) = fs \<and> fds (world h) = d \<and> socks (world h) = s \<and> link_fd h = l \<and>
     poll_traffic t0 (sent (world h))"

context session_env
begin

lemma session_call:
  "(\<And>w r w'. m w = (r, w') \<Longrightarrow> ftext w' = ftext w \<and> open_fds w' = open_fds w \<and>
      bound w' = bound w \<and> tx w' = tx w) \<Longrightarrow> rises (in_session ftext open_fds bound tx fs b c l t0) (call m)"
  "(\<And>w r w'. n w = (r, w') \<Longrightarrow> ftext w' = ftext w \<and> open_fds w' = open_fds w \<and>
      bound w' = bound w \<and> tx w' = tx w) \<Longrightarrow> rises (in_session ftext open_fds bound tx fs b c l t0) (call_total n)"
  by (rule rises_keeps; fastforce simp: keeps_def in_session_def call_def call_total_def split: prod.splits)+

lemma session_calls:
  "rises (in_session ftext open_fds bound tx fs b c l t0) (call_total (os_monotonic os))"
  "rises (in_session ftext open_fds bound tx fs b c l t0) (call_total (os_time os))"
  "rises (in_session ftext open_fds bound tx fs b c l t0) (call_total (ev_is_set ev))"
  "rises (in_session ftext open_fds bound tx fs b c l t0) (call_total (ev_wait ev d))"
  "rises (in_session ftext open_fds bound tx fs b c l t0) (call (os_read_bytes os p))"
  "rises (in_session ftext open_fds bound tx fs b c l t0) (call (th_start net))"
  "rises (in_session ftext open_fds bound tx fs b c l t0) (call_total (ev_new net))"
  "rises (in_session ftext open_fds bound tx fs b c l t0) (call_total (ev_set net))"
  by (rule session_call; use monotonic_io ser.v_monotonic fds.v_monotonic bnd.v_monotonic time_io time_own
      is_set_io is_set_own wait_io wait_own read_bytes_io read_own thread_io new_io set_io in auto)+

lemma session_poll_once:
  "rises (in_session ftext open_fds bound tx fs b c l t0) (poll_once os (read_protocol_frame os) timeout)"
proof -
  have "keeps (\<lambda>h. (ftext (world h), fpath (world h))) (poll_once os (read_protocol_frame os) timeout)"
    "keeps (\<lambda>h. open_fds (world h)) (poll_once os (read_protocol_frame os) timeout)"
    "keeps (\<lambda>h. bound (world h)) (poll_once os (read_protocol_frame os) timeout)"
    by (rule ser.v_poll_once fds.v_poll_once bnd.v_poll_once; use time_io time_own in auto)+
  moreover have "keeps own_part (poll_once os (read_protocol_frame os) timeout)"
    by (rule keeps_own_poll_once [OF keeps_local_transactions(1)])
  ultimately show ?thesis
    using traffic_poll_once [of t0 timeout]
    by (fastforce simp: rises_def keeps_def in_session_def own_part_def)
qed


lemma session_events:
  "rises (in_session ftext open_fds bound tx fs b c l t0)
     (run_events os ev chk static (read_protocol_frame os) es)"
  by (rule rises_run_events [OF session_poll_once session_calls(1-5)]) (simp_all add: in_session_def)

lemma session_modify:
  "(\<And>h. world (g h) = world h) \<Longrightarrow> (\<And>h. link_fd (g h) = link_fd h) \<Longrightarrow>
     rises (in_session ftext open_fds bound tx fs b c l t0) (modify g)"
  by (simp add: rises_def in_session_def modify_def)

lemma session_print: "rises (in_session ftext open_fds bound tx fs b c l t0) (print_lines ls)"
  by (induction ls) (auto intro!: rises_intros session_modify simp: print_line_def)

lemma session_sleep: "rises (in_session ftext open_fds bound tx fs b c l t0) (py_sleep os x)"
proof -
  have m: "rises (in_session ftext open_fds bound tx fs b c l t0)
      (modify (\<lambda>h. h\<lparr>world := os_sleep os r (world h)\<rparr>))" for r
    using ser.v_sleep [of r]
    by (simp add: rises_def in_session_def modify_def sleep_io fds.v_sleep bnd.v_sleep)
  show ?thesis
    unfolding py_sleep_def by (cases x) (simp_all only: pyfloat.case, (intro rises_intros m)+)
qed

lemma session_new_poller: "rises (in_session ftext open_fds bound tx fs b c l t0) (new_poller i t)"
  unfolding new_poller_def by (intro rises_intros session_modify) simp_all

lemma session_set_poller: "rises (in_session ftext open_fds bound tx fs b c l t0) (set_poller p)"
  unfolding set_poller_def by (intro session_modify) simp_all

lemmas session_rules = session_events session_print session_sleep session_new_poller
  session_set_poller session_calls(6-8)

lemma tx_serial_open: "keeps (\<lambda>h. tx (world h)) (serial_open os p)"
proof -
  have c: "keeps (\<lambda>h. tx (world h)) (call (os_open os p))"
    "keeps (\<lambda>h. tx (world h)) (call (os_close os fd))"
    "keeps (\<lambda>h. tx (world h)) (call (os_tcgetattr os fd))"
    "keeps (\<lambda>h. tx (world h)) (call (os_tcsetattr os fd a))" for fd a
    by (rule keeps_call; use open_io close_io getattr_io setattr_io in blast)+
  show ?thesis unfolding serial_open_def by (intro keeps_intros c) simp
qed

lemma wp_open_session:
  fixes body :: "(('w, 'z) host_scheme, 'x) prog"
  assumes h: "in_session ftext open_fds bound tx fs b c l t0 h"
    and body: "\<And>fd. rises (in_session ftext open_fds bound tx fs (insert fd b) c (Some fd) t0) body"
  shows "wp (open_serial_session os p body)
     (\<lambda>_. in_session ftext open_fds bound tx fs b c None t0)
     (\<lambda>_. in_session ftext open_fds bound tx fs b c None t0) h" (is "wp _ (\<lambda>_. ?P) (\<lambda>_. ?P) h")
proof -
  let ?h = "h\<lparr>link_fd := None\<rparr>"
  let ?S = "\<lambda>fd. in_session ftext open_fds bound tx fs (insert fd b) c (Some fd) t0"
  have fd: "wp (serial_open os p)
      (\<lambda>_ g. \<exists>fd. fd \<notin> b \<and> open_fds (world g) = insert fd b \<and> link_fd g = Some fd)
      (\<lambda>_ g. open_fds (world g) = b \<and> link_fd g = None) ?h"
    by (rule wp_serial_open) (use h in \<open>auto simp: in_session_def\<close>)
  have opn: "wp (serial_open os p) (\<lambda>_ g. \<exists>fd. fd \<notin> b \<and> ?S fd g) (\<lambda>_. ?P) ?h"
    by (rule wp_mono [OF wp_conj [OF fd wp_conj [OF keeps_wp [OF ser.v_serial_open]
          wp_conj [OF keeps_wp [OF bnd.v_serial_open] keeps_wp [OF tx_serial_open]]]]])
      (use h in \<open>auto simp: in_session_def\<close>)
  have close: "wp (serial_close os) (\<lambda>_. ?P) (\<lambda>_. ?P) g" if "?S fd g" "fd \<notin> b" for fd g
  proof -
    obtain r w where c: "os_close os fd (world g) = (r, w)" by fastforce
    from close_fds [OF c] close_io [OF c] ser.v_close [OF c] bnd.v_close [OF c] that
    have "?P (g\<lparr>link_fd := None, world := w\<rparr>)" by (auto simp: in_session_def)
    with that(1) c show ?thesis
      by (cases r) (simp_all add: serial_close_def in_session_def)
  qed
  show ?thesis
    unfolding open_serial_session_def wp_bind wp_modify
  proof (rule wp_mono [OF opn])
    fix x and g :: "('w, 'z) host_scheme"
    assume "\<exists>fd. fd \<notin> b \<and> ?S fd g"
    then obtain fd where g: "fd \<notin> b" "?S fd g" by blast
    have "wp body (\<lambda>_ t. ?S fd t) (\<lambda>_ t. ?S fd t) g"
      by (rule wp_mono [OF rises_wp [OF body [of fd]]]) (use g in \<open>simp_all add: le_bool_def\<close>)
    then show "wp (try_finally body (serial_close os)) (\<lambda>_. ?P) (\<lambda>_. ?P) g"
      unfolding wp_try_finally by (rule wp_mono) (use close g(1) in blast)+
  qed
qed

lemma wp_run_dashboard:
  fixes h :: "('w, 'z) dash_session_scheme"
  shows "wp (run_dashboard os net ev chk static p a q (read_protocol_frame os) es e js)
     (\<lambda>_ h'. \<exists>l. in_session ftext open_fds bound tx (ftext (world h)) (open_fds (world h))
        (bound (world h)) l (tx (world h)) h')
     (\<lambda>_ h'. \<exists>l. in_session ftext open_fds bound tx (ftext (world h)) (open_fds (world h))
        (bound (world h)) l (tx (world h)) h') h" (is "wp _ (\<lambda>_. ?P) (\<lambda>_. ?P) h")
proof -
  let ?in = "in_session ftext open_fds bound tx (ftext (world h)) (open_fds (world h))"
  have here: "?P (h\<lparr>store := s, poller := t\<rparr>)" "?P h" for s t
    by (auto simp: in_session_def poll_traffic_refl)
  have stay: "?P (h\<lparr>store := s, poller := t, world := w\<rparr>)"
    if "srv_bind net a q (world h) = (Inl e, w)" for e s t w
    using bind_io [OF that] bind_err [OF that] by (auto simp: in_session_def poll_traffic_refl)
  have session: "wp (try_finally (open_serial_session os p body) (call (srv_close net s)))
      (\<lambda>_. ?P) (\<lambda>_. ?P) (h\<lparr>store := st, poller := t, world := w\<rparr>)"
    if "srv_bind net a q (world h) = (Inr s, w)"
      "\<And>l c t0. rises (in_session ftext open_fds bound tx (ftext (world h)) c (insert s (bound (world h))) l t0) body"
    for s st t w and body :: "(('w, 'z) dash_session_scheme, unit) prog"
  proof -
    let ?h = "h\<lparr>store := st, poller := t, world := w\<rparr>"
    have h: "?in (insert s (bound (world h))) (link_fd h) (tx (world h)) ?h"
      using bind_io [OF that(1)] bind_ok [OF that(1)] by (auto simp: in_session_def poll_traffic_refl)
    have close: "wp (call (srv_close net s)) (\<lambda>_. ?P) (\<lambda>_. ?P) g"
      if "?in (insert s (bound (world h))) None (tx (world h)) g" for g
    proof -
      obtain r w' where c: "srv_close net s (world g) = (r, w')" by fastforce
      from unbind_io [OF c] bind_ok [OF \<open>srv_bind _ _ _ _ = _\<close>] that
      have "?P (g\<lparr>world := w'\<rparr>)" by (auto simp: in_session_def)
      with c show ?thesis by (cases r) simp_all
    qed
    show ?thesis
      unfolding wp_try_finally
      by (rule wp_mono [OF wp_open_session [OF h that(2)]]) (rule close; assumption)+
  qed
  show ?thesis
    unfolding run_dashboard_def create_http_server_def poller_stop_def Let_def
    by (auto simp del: wp_try_finally simp: here stay serve_forever_def split: sum.split prod.split
        intro!: session rises_intros session_rules)
qed


lemma returns_run_events: "returns (run_events os ev chk static (read_protocol_frame os) es) h"
proof -
  have set_poller: "returns (set_poller p) h" for p and h :: "('w, 'z) dash_session_scheme"
    by (simp add: set_poller_def)
  have answer: "(\<And>g. returns m g) \<Longrightarrow> returns (answer_request m) h"
    for m and h :: "('w, 'z) dash_session_scheme"
    unfolding answer_request_def by (intro returns_intros)
  have step: "returns (poller_step os ev (read_protocol_frame os)) h" for h :: "('w, 'z) dash_session_scheme"
    unfolding poller_step_def
    by (rule returns_bind, simp, split poller_thread.split)
      (intro conjI allI impI returns_intros set_poller returns_poll_cycle)
  have event: "returns (run_event os ev chk static (read_protocol_frame os) e) h"
    for e and h :: "('w, 'z) dash_session_scheme"
    by (cases e) (simp_all add: step do_GET_def do_HEAD_def answer returns_dispatch)
  show ?thesis by (induction es arbitrary: h) (auto intro!: returns_intros event)
qed

lemma returns_run_dashboard:
  "returns (run_dashboard os net ev chk static p a q (read_protocol_frame os) es e js) h"
  unfolding run_dashboard_def create_http_server_def poller_stop_def Let_def open_serial_session_def new_poller_def set_poller_def
    serve_forever_def
  by (intro returns_intros returns_run_events)

end

lemma interrupt_only: "KeyboardInterrupt \<in> set (mro c) \<longleftrightarrow> c = KeyboardInterrupt"
  by (cases c) simp_all

text \<open>A normal end is an interrupt of a session whose options were accepted.\<close>

lemma wp_bind_final:
  "(\<And>x s. wp (f x) (\<lambda>_ _. P) (\<lambda>_ _. True) s) \<Longrightarrow> wp (bind_prog m f) (\<lambda>_ _. P) (\<lambda>_ _. True) s"
  unfolding wp_bind by (rule wp_mono [OF wp_True]) simp_all

lemma wp_finally_final:
  "(\<And>s. wp m (\<lambda>_ _. P) (\<lambda>_ _. True) s) \<Longrightarrow> wp (try_finally m c) (\<lambda>_ _. P) (\<lambda>_ _. True) s"
  unfolding wp_try_finally
  by (rule wp_mono, assumption) (auto simp: wp_def split: option.split prod.split sum.split)

lemma BaseException_all [simp]: "BaseException \<in> set (mro c)"
  by (cases c) simp_all

lemma wp_run_events: "wp (run_events os ev chk static rf es) (\<lambda>_ _. True) (\<lambda>_ _. False) s"
proof -
  have catch: "wp (try_except m [BaseException] (\<lambda>x. ret (g x))) (\<lambda>_ _. True) (\<lambda>_ _. False) s" for m g s
    unfolding wp_try_except by (rule wp_mono [OF wp_True]) simp_all
  have all: "wp m (\<lambda>_ _. True) (\<lambda>_ _. False) s \<Longrightarrow> (\<And>x t. wp (k x) (\<lambda>_ _. True) (\<lambda>_ _. False) t) \<Longrightarrow>
      wp (bind_prog m k) (\<lambda>_ _. True) (\<lambda>_ _. False) s" for m k s
    unfolding wp_bind by (rule wp_mono) simp_all
  have "wp (poller_step os ev rf) (\<lambda>_ _. True) (\<lambda>_ _. False) s" for s
    unfolding poller_step_def
    by (rule all, simp, split poller_thread.split)
      (auto simp del: wp_bind wp_bind_eta wp_try_except simp: set_poller_def split: prod.split
        intro!: all catch)
  moreover have "wp (answer_request m) (\<lambda>_ _. True) (\<lambda>_ _. False) s" for m s
    unfolding answer_request_def by (rule all [OF catch]) simp
  ultimately have "wp (run_event os ev chk static rf e) (\<lambda>_ _. True) (\<lambda>_ _. False) s" for e s
    by (cases e) (simp_all add: do_GET_def do_HEAD_def)
  then show ?thesis by (induction es arbitrary: s) (auto simp del: wp_bind wp_bind_eta intro!: all)
qed

lemma wp_run_dashboard_ends:
  "wp (run_dashboard os net ev chk static p a q rf es e js)
     (\<lambda>_ _. validate_dashboard_options a q = Inr () \<and> catches [KeyboardInterrupt] e)
     (\<lambda>_ _. True) h"
proof (cases "validate_dashboard_options a q")
  case (Inr u)
  have s: "wp (try_except (serve_forever (run_events os ev chk static rf) es e) [KeyboardInterrupt]
      (\<lambda>_. ret ())) (\<lambda>_ _. catches [KeyboardInterrupt] e) (\<lambda>_ _. True) s" for s
    unfolding serve_forever_def wp_try_except wp_bind
    by (rule wp_mono [OF wp_run_events]) simp_all
  have "wp (run_dashboard os net ev chk static p a q rf es e js)
      (\<lambda>_ _. catches [KeyboardInterrupt] e) (\<lambda>_ _. True) h"
    unfolding run_dashboard_def create_http_server_def poller_stop_def Let_def open_serial_session_def
    by (intro wp_bind_final wp_finally_final s)
  then show ?thesis by (rule wp_mono) (use Inr in auto)
qed (simp add: run_dashboard_def create_http_server_def poller_stop_def Let_def)

section \<open>Sessions on a serial line\<close>

definition line_net :: "'d line_world net" where
  "line_net =
     \<lparr>srv_bind = (\<lambda>a p w.
        if p \<in> set (listening w) then (Inl (Exc OSError ''[Errno 98] Address already in use''), w)
        else (Inr p, w\<lparr>listening := p # listening w\<rparr>)),
      srv_close = (\<lambda>p w. (Inr (), w\<lparr>listening := removeAll p (listening w)\<rparr>)),
      th_start = (\<lambda>w. (Inr (), w)),
      ev_new = (\<lambda>w. ((), w\<lparr>stop_time := None\<rparr>)),
      ev_set = (\<lambda>w. ((), w\<lparr>stop_time := Some (clk w)\<rparr>))\<rparr>"

definition server_ports :: "'d line_world \<Rightarrow> int set" where
  "server_ports w = set (listening w)"

interpretation line_session:
  session_env "line_os d" rx_seen tx_sent clk clock_tick lw_text lw_path stop_time line_event
    line_fds server_ports line_net for d
  by unfold_locales
    (auto simp: line_os_defs line_event_def lw_wait_def lw_text_def lw_path_def line_fds_def
      server_ports_def line_net_def Let_def split: list.splits if_splits prod.splits option.splits)

text \<open>What a session leaves of the world it started in.\<close>

definition clean_after :: "'d line_world \<Rightarrow> 'd line_world \<Rightarrow> bool" where
  "clean_after w w' \<longleftrightarrow>
     lw_text w' = lw_text w \<and> line_fds w' = line_fds w \<and> server_ports w' = server_ports w \<and>
     (\<exists>ps. tx_sent w' = tx_sent w @ concat ps \<and> list_all poll_piece ps)"


end
