(* ===== verification/Comm_Monitor.thy ===== *)
theory Comm_Monitor
  imports Supervisor
begin

text \<open>
  \<open>run_monitor\<close> of \<open>supervisor/main.py\<close>: a paced sequence of communication status
  requests, each logged as one CSV row and printed as one line.
\<close>

section \<open>Definitions\<close>

definition monitor_line :: "int \<Rightarrow> nat \<Rightarrow> comm_health_sample \<Rightarrow> string" where
  "monitor_line samples sample_index sample =
     ''['' @ dec (int sample_index + 1) @ ''/'' @ dec samples @ ''] seq=0x''
       @ hex02 (smp_sequence sample) @ '' overflow='' @ dec (smp_uart_rx_overflow sample)
       @ '' timeout='' @ dec (smp_parser_timeouts sample)
       @ '' crc='' @ dec (smp_crc_errors sample)"

text \<open>The wait before every sample but the first; it returns the new due time.\<close>

definition monitor_pace ::
  "'w os \<Rightarrow> pyfloat \<Rightarrow> nat \<Rightarrow> pyfloat \<Rightarrow> (('w, 'z) host_scheme, pyfloat) prog" where
  "monitor_pace os interval_s sample_index next_acquisition =
     (if sample_index > 0 then
        let due = fl_add next_acquisition interval_s in
        bind_prog (call_total (os_monotonic os)) (\<lambda>now.
        let remaining = fl_sub due (Fin now) in
        bind_prog (when_prog (fl_less (Fin 0) remaining) (py_sleep os remaining)) (\<lambda>_.
        ret due))
      else ret next_acquisition)"

definition monitor_sample ::
  "'w os \<Rightarrow> int \<Rightarrow> pyfloat \<Rightarrow> nat \<Rightarrow> int \<Rightarrow> pyfloat \<Rightarrow>
     (('w, 'z) host_scheme, int \<times> pyfloat) prog" where
  "monitor_sample os samples interval_s sample_index seq next_acquisition =
     bind_prog (monitor_pace os interval_s sample_index next_acquisition) (\<lambda>due.
     bind_prog (request_status os TYPE_GET_COMM_STATUS seq ''COMM_STATUS'' decode_comm_status)
       (\<lambda>status.
     bind_prog (call_total (os_now os)) (\<lambda>now.
     let sample =
       \<lparr>smp_timestamp = dt_iso now, smp_sequence = seq,
        smp_uart_rx_overflow = uart_rx_overflow status,
        smp_parser_timeouts = parser_timeouts status, smp_crc_errors = crc_errors status\<rparr> in
     bind_prog (comm_csv_write os sample) (\<lambda>_.
     bind_prog (print_line (monitor_line samples sample_index sample)) (\<lambda>_.
     bind_prog (lift_res (next_sequence seq)) (\<lambda>seq'.
     ret (seq', due)))))))"

text \<open>\<open>for sample_index in range(samples)\<close>, with the number of samples left.\<close>

fun monitor_loop ::
  "'w os \<Rightarrow> int \<Rightarrow> pyfloat \<Rightarrow> nat \<Rightarrow> nat \<Rightarrow> int \<times> pyfloat \<Rightarrow>
     (('w, 'z) host_scheme, unit) prog" where
  "monitor_loop os samples interval_s i 0 st = ret ()"
| "monitor_loop os samples interval_s i (Suc n) st =
     bind_prog (monitor_sample os samples interval_s i (fst st) (snd st))
       (monitor_loop os samples interval_s (Suc i) n)"

definition run_monitor ::
  "'w os \<Rightarrow> string \<Rightarrow> int \<Rightarrow> pyfloat \<Rightarrow> string \<Rightarrow> (('w, 'z) host_scheme, unit) prog" where
  "run_monitor os port samples interval_s csv_path =
     bind_prog (lift_res (validate_monitor_options samples interval_s)) (\<lambda>_.
     bind_prog
       (print_lines
         [''SENTRY-CELL UNO Communication Monitor'', ''Port: '' @ port,
          ''Samples: '' @ dec samples, ''Interval: '' @ fmt_repr interval_s @ '' s'',
          ''CSV: '' @ csv_path, []]) (\<lambda>_.
     bind_prog
       (with_link os port
         (bind_prog (settle_board os) (\<lambda>_.
          with_comm_csv os csv_path
            (bind_prog (call_total (os_monotonic os)) (\<lambda>t0.
             monitor_loop os samples interval_s 0 (nat samples) (0x40, Fin t0)))))) (\<lambda>_.
     print_lines
       [[], ''Communication monitoring: PASS'', ''CSV written: '' @ csv_path])))"

section \<open>One sample\<close>

definition comm_request :: "int \<Rightarrow> frame" where
  "comm_request s = mk_frame TYPE_GET_COMM_STATUS s []"

text \<open>The sample that belongs to a time stamp and a received frame.\<close>

definition sample_of :: "string \<times> frame \<Rightarrow> comm_health_sample" where
  "sample_of = (\<lambda>(t, f).
     \<lparr>smp_timestamp = t, smp_sequence = sequence f, smp_uart_rx_overflow = uint (payload f ! 0),
      smp_parser_timeouts = uint (payload f ! 1), smp_crc_errors = uint (payload f ! 2)\<rparr>)"

definition sample_row :: "string \<times> frame \<Rightarrow> string" where
  "sample_row p = csv_row (sample_fields (sample_of p))"

lemma seqs_Cons:
  "0 \<le> s \<Longrightarrow> s \<le> 255 \<Longrightarrow> seqs s (Suc n) = s # seqs ((s + 1) mod 256) n"
proof -
  assume "0 \<le> s" "s \<le> 255"
  have "seqs s (Suc n) = (s mod 256) # map (\<lambda>i. (s + int (Suc i)) mod 256) [0..<n]"
    by (simp add: seqs_def upt_conv_Cons map_Suc_upt [symmetric] del: upt_Suc)
  moreover have "(s + int (Suc i)) mod 256 = ((s + 1) mod 256 + int i) mod 256" for i
    by (simp add: mod_simps add.assoc)
  ultimately show ?thesis using \<open>0 \<le> s\<close> \<open>s \<le> 255\<close> by (simp add: seqs_def)
qed

context host_env
begin

lemma wp_monitor_pace:
  assumes "\<And>due w'. rx w' = rx (world h) \<Longrightarrow> tx w' = tx (world h) \<Longrightarrow> ftext w' = ftext (world h) \<Longrightarrow>
      fpath w' = fpath (world h) \<Longrightarrow> Q due (h\<lparr>world := w'\<rparr>)"
    and "\<And>e w'. ftext w' = ftext (world h) \<Longrightarrow> fpath w' = fpath (world h) \<Longrightarrow> E e (h\<lparr>world := w'\<rparr>)"
  shows "wp (monitor_pace os x i nx) Q E h"
proof (cases "i > 0")
  case True
  obtain now w1 where m: "os_monotonic os (world h) = (now, w1)" by fastforce
  note io = monotonic_io [OF m] ser.v_monotonic [OF m]
  have "wp (py_sleep os r) (\<lambda>_. Q due) E (h\<lparr>world := w1\<rparr>)" for r due
    by (rule wp_py_sleep_env) (use io assms in auto)
  with True m io assms(1) [of w1] show ?thesis by (simp add: monitor_pace_def Let_def)
next
  case False
  with assms(1) [of "world h"] show ?thesis by (simp add: monitor_pace_def)
qed

lemma wp_monitor_sample:
  assumes "csv_file h = Some k" "fpath (world h) k = Some p" "ftext (world h) p = Some c"
    and s: "0 \<le> s" "s \<le> 255"
    and "\<And>f ts due w'. answers (comm_request s) f \<Longrightarrow> rx w' = rx (world h) @ wire f \<Longrightarrow>
        tx w' = tx (world h) @ wire (comm_request s) \<Longrightarrow>
        ftext w' = (ftext (world h))(p \<mapsto> c @ sample_row (ts, f)) \<Longrightarrow> fpath w' = fpath (world h) \<Longrightarrow>
        Q ((s + 1) mod 256, due)
          (h\<lparr>world := w', out := out h @ [monitor_line N i (sample_of (ts, f))]\<rparr>)"
    and "\<And>e n q w'. ftext w' = (ftext (world h))(p \<mapsto> c @ take n (sample_row q)) \<Longrightarrow>
        fpath w' = fpath (world h) \<Longrightarrow> E e (h\<lparr>world := w'\<rparr>)"
  shows "wp (monitor_sample os N x i s nx) Q E h"
  unfolding monitor_sample_def wp_bind
proof (rule wp_monitor_pace, goal_cases)
  case (1 due w1)
  show ?case
  proof (rule wp_request_status_env, goal_cases)
    case 1
    show ?case using s by (simp add: valid_request type_defs)
  next
    case (2 f st w2)
    have a: "answers (comm_request s) f"
      using 2(1-3) by (simp add: comm_request_def decoder_answers)
    have st: "st = \<lparr>uart_rx_overflow = uint (payload f ! 0), parser_timeouts = uint (payload f ! 1),
        crc_errors = uint (payload f ! 2)\<rparr>"
      using 2(3) by (auto simp: decode_comm_status_def bind_res_Inr_iff expect_status_iff)
    obtain dt w3 where n: "os_now os w2 = (dt, w3)" by fastforce
    note io = ser.v_now [OF n] fil.u_now [OF n]
    have e: "ftext w3 = ftext (world h)" "fpath w3 = fpath (world h)"
      "rx w3 = rx (world h) @ wire f" "tx w3 = tx (world h) @ wire (comm_request s)"
      using io 1 2 by (simp_all add: comm_request_def)
    let ?row = "sample_fields (sample_of (dt_iso dt, f))"
    have q: "sequence f = s" using 2(2) .
    have smp: "\<lparr>smp_timestamp = dt_iso dt, smp_sequence = s,
        smp_uart_rx_overflow = uart_rx_overflow st, smp_parser_timeouts = parser_timeouts st,
        smp_crc_errors = crc_errors st\<rparr> = sample_of (dt_iso dt, f)"
      using q st by (simp add: sample_of_def)
    have "wp (csv_logger_write os ''CSV'' ?row)
        (\<lambda>_ t. Q ((s + 1) mod 256, due)
           (t\<lparr>out := out t @ [monitor_line N i (sample_of (dt_iso dt, f))]\<rparr>)) E (h\<lparr>world := w3\<rparr>)"
    proof (rule wp_csv_write_env [of _ k p c], goal_cases)
      case (4 w4)
      then show ?case using e a assms(6) [of f w4 "dt_iso dt" due] by (simp add: sample_row_def)
    next
      case (5 err n w4)
      then show ?case using e assms(7) [of w4 n "(dt_iso dt, f)" err] by (simp add: sample_row_def)
    qed (use assms(1-3) e in simp_all)
    then show ?case
      using n s by (simp add: Let_def smp comm_csv_write_def next_sequence_eq)
  next
    case (3 err w')
    then show ?case using 1 assms(7) [of w' 0 _ err] assms(3) by (simp add: map_upd_triv)
  qed
next
  case (2 err w')
  then show ?case using assms(7) [of w' 0 _ err] assms(3) by (simp add: map_upd_triv)
qed

end

section \<open>The whole run\<close>

fun monitor_lines :: "int \<Rightarrow> nat \<Rightarrow> (string \<times> frame) list \<Rightarrow> string list" where
  "monitor_lines N i [] = []"
| "monitor_lines N i (q # qs) = monitor_line N i (sample_of q) # monitor_lines N (Suc i) qs"

text \<open>
  \<open>log_of ob\<close>: the rows of the samples \<open>ob\<close>; \<open>requests s n\<close>: the \<open>n\<close> requests from
  sequence number \<open>s\<close> on.
\<close>

definition log_of :: "(string \<times> frame) list \<Rightarrow> string" where
  "log_of ob = concat (map sample_row ob)"

definition requests :: "int \<Rightarrow> nat \<Rightarrow> frame list" where
  "requests s n = map comm_request (seqs s n)"

lemma requests_Suc:
  "0 \<le> s \<Longrightarrow> s \<le> 255 \<Longrightarrow> requests s (Suc n) = comm_request s # requests ((s + 1) mod 256) n"
  by (simp add: requests_def seqs_Cons)

text \<open>What a failed run may leave in its log file.\<close>

definition partial_log :: "nat \<Rightarrow> string \<Rightarrow> bool" where
  "partial_log n t \<longleftrightarrow>
     (\<exists>k. t = take k (csv_row comm_csv_columns)) \<or>
     (\<exists>ob k q. length ob \<le> n \<and> t = csv_row comm_csv_columns @ log_of ob @ take k (sample_row q))"

context host_env
begin

lemma wp_monitor_loop:
  assumes "csv_file h = Some k" "fpath (world h) k = Some p" "ftext (world h) p = Some c"
    and "0 \<le> fst st" "fst st \<le> 255"
    and "\<And>ob w'. list_all2 answers (requests (fst st) n) (map snd ob) \<Longrightarrow>
        rx w' = rx (world h) @ concat (map wire (map snd ob)) \<Longrightarrow>
        tx w' = tx (world h) @ concat (map wire (requests (fst st) n)) \<Longrightarrow>
        ftext w' = (ftext (world h))(p \<mapsto> c @ log_of ob) \<Longrightarrow>
        Q () (h\<lparr>world := w', out := out h @ monitor_lines N i ob\<rparr>)"
    and "\<And>e ob m q w'. length ob < n \<Longrightarrow>
        ftext w' = (ftext (world h))(p \<mapsto> c @ log_of ob @ take m (sample_row q)) \<Longrightarrow>
        E e (h\<lparr>world := w', out := out h @ monitor_lines N i ob\<rparr>)"
  shows "wp (monitor_loop os N x i n st) Q E h"
  using assms
proof (induction n arbitrary: h c i st)
  case 0
  have "h\<lparr>world := world h, out := out h\<rparr> = h" by (cases h) simp
  with 0(6) [of "[]" "world h"] 0(3) show ?case
    by (simp add: requests_def log_of_def map_upd_triv)
next
  case (Suc n)
  note ans = Suc.prems(6) and fail = Suc.prems(7)
  show ?case
    unfolding monitor_loop.simps wp_bind
  proof (rule wp_monitor_sample [OF Suc.prems(1-5)], goal_cases)
    case (1 f ts due w1)
    let ?h = "h\<lparr>world := w1, out := out h @ [monitor_line N i (sample_of (ts, f))]\<rparr>"
    show ?case
    proof (rule Suc.IH [of ?h "c @ sample_row (ts, f)"], goal_cases)
      case (6 ob w')
      have "list_all2 answers (requests (fst st) (Suc n)) (map snd ((ts, f) # ob))"
        using 6 1 Suc.prems(4,5) by (simp add: requests_Suc)
      moreover have "ftext w' = (ftext (world h))(p \<mapsto> c @ log_of ((ts, f) # ob))"
        using 6(4) 1(4) by (auto simp: fun_eq_iff log_of_def)
      ultimately show ?case
        using ans [of "(ts, f) # ob" w'] 6(2,3) 1(2,3) Suc.prems(4,5) by (simp add: requests_Suc)
    next
      case (7 ob w' m q e)
      have "ftext w' = (ftext (world h))(p \<mapsto> c @ log_of ((ts, f) # ob) @ take m (sample_row q))"
        using 7(2) 1(4) by (auto simp: fun_eq_iff log_of_def)
      with fail [of "(ts, f) # ob" w' m q e] 7(1) show ?case by simp
    qed (use 1 Suc.prems in simp_all)
  next
    case (2 e m q w')
    have "h\<lparr>world := w', out := out h\<rparr> = h\<lparr>world := w'\<rparr>" by (cases h) simp
    with fail [of "[]" w' m q e] 2 show ?case by (simp add: log_of_def)
  qed
qed

text \<open>
  A monitoring run that passes has sent exactly the requests, consumed one answer to
  each, and left a log with one row per answer under the header; one that fails leaves
  its log untouched or with complete rows and at most a cut-off row after them.
\<close>

lemma wp_run_monitor:
  "wp (run_monitor os port N x csv)
     (\<lambda>_ h'. validate_monitor_options N x = Inr () \<and>
        (\<exists>ob. list_all2 answers (requests 0x40 (nat N)) (map snd ob) \<and>
        rx (world h') = rx (world h) @ concat (map wire (map snd ob)) \<and>
        tx (world h') = tx (world h) @ concat (map wire (requests 0x40 (nat N))) \<and>
        ftext (world h') = (ftext (world h))
          (path_str csv \<mapsto> csv_row comm_csv_columns @ log_of ob) \<and>
        out h' = out h @ [''SENTRY-CELL UNO Communication Monitor'', ''Port: '' @ port,
            ''Samples: '' @ dec N, ''Interval: '' @ fmt_repr x @ '' s'', ''CSV: '' @ csv, []]
          @ monitor_lines N 0 ob
          @ [[], ''Communication monitoring: PASS'', ''CSV written: '' @ csv]))
     (\<lambda>_ h'. ftext (world h') = ftext (world h) \<or>
        (\<exists>t. ftext (world h') = (ftext (world h))(path_str csv \<mapsto> t) \<and> partial_log (nat N) t)) h"
  (is "wp _ ?Q ?E h")
proof (cases "validate_monitor_options N x")
  case (Inl e)
  then show ?thesis by (simp add: run_monitor_def)
next
  case (Inr u)
  let ?p = "path_str csv" and ?hdr = "csv_row comm_csv_columns"
  let ?h = "h\<lparr>out := out h @ [''SENTRY-CELL UNO Communication Monitor'', ''Port: '' @ port,
            ''Samples: '' @ dec N, ''Interval: '' @ fmt_repr x @ '' s'', ''CSV: '' @ csv, []]\<rparr>"
  let ?bad = "\<lambda>g. ftext g = ftext (world h) \<or>
      (\<exists>t. ftext g = (ftext (world h))(?p \<mapsto> t) \<and> partial_log (nat N) t)"
  let ?good = "\<lambda>ob g. list_all2 answers (requests 0x40 (nat N)) (map snd ob) \<and>
      rx (world g) = rx (world h) @ concat (map wire (map snd ob)) \<and>
      tx (world g) = tx (world h) @ concat (map wire (requests 0x40 (nat N))) \<and>
      ftext (world g) = (ftext (world h))(?p \<mapsto> ?hdr @ log_of ob) \<and>
      out g = out ?h @ monitor_lines N 0 ob"
  have part: "partial_log (nat N) (?hdr @ log_of ob @ take k (sample_row q))" if "length ob \<le> nat N"
    for ob k q unfolding partial_log_def using that by blast
  have full: "?bad g" if "?good ob g'" "ftext g = ftext (world g')" for ob g g'
  proof -
    have "length ob \<le> nat N"
      using that(1) by (auto dest!: list_all2_lengthD simp: requests_def)
    from part [OF this, of 0 undefined] that show ?thesis by auto
  qed
  have sess: "wp (with_link os port
         (bind_prog (settle_board os) (\<lambda>_.
          with_comm_csv os csv
            (bind_prog (call_total (os_monotonic os)) (\<lambda>t0.
             monitor_loop os N x 0 (nat N) (0x40, Fin t0))))))
      (\<lambda>_ g. \<exists>ob. ?good ob g) (\<lambda>_ g. ?bad (world g)) ?h"
  proof (rule wp_with_link_env, goal_cases)
    case (1 fd w1)
    note io1 = this
    have log: "wp (with_comm_csv os csv
            (bind_prog (call_total (os_monotonic os)) (\<lambda>t0.
             monitor_loop os N x 0 (nat N) (0x40, Fin t0))))
        (\<lambda>_ g. \<exists>ob. ?good ob g) (\<lambda>_ g. ?bad (world g)) g"
      if g: "rx (world g) = rx (world h)" "tx (world g) = tx (world h)"
        "ftext (world g) = ftext (world h)" "out g = out ?h" for g
      unfolding with_comm_csv_def
    proof (rule wp_with_csv_env, goal_cases)
      case (1 k w3)
      obtain t0 w4 where m: "os_monotonic os w3 = (t0, w4)" by fastforce
      note io = monotonic_io [OF m] ser.v_monotonic [OF m]
      have "wp (monitor_loop os N x 0 (nat N) (0x40, Fin t0))
          (\<lambda>_ g. \<exists>ob. ?good ob g) (\<lambda>_ g. ?bad (world g)) (g\<lparr>csv_file := Some k, world := w4\<rparr>)"
      proof (rule wp_monitor_loop [of _ k ?p ?hdr], goal_cases)
        case (6 ob w')
        then show ?case using 1 io g by (auto intro!: exI [of _ ob] simp: fun_eq_iff)
      next
        case (7 e ob n q w')
        then show ?case using 1 io g part [of ob n q]
          by (auto simp: fun_eq_iff intro!: exI [of _ "?hdr @ log_of ob @ take n (sample_row q)"])
      qed (use 1 io in simp_all)
      then have "wp (bind_prog (call_total (os_monotonic os)) (\<lambda>t0.
             monitor_loop os N x 0 (nat N) (0x40, Fin t0)))
          (\<lambda>_ g. \<exists>ob. ?good ob g) (\<lambda>_ g. ?bad (world g)) (g\<lparr>csv_file := Some k, world := w3\<rparr>)"
        using m by simp
      then show ?case
        by (rule wp_mono) (use full in auto)
    next
      case (2 e k w')
      then show ?case using g by (auto simp: partial_log_def)
    qed
    show ?case
      unfolding settle_board_def wp_bind
    proof (rule wp_py_sleep_env, goal_cases)
      case (1 w2)
      show ?case
        by (rule wp_mono [OF log]) (use 1 io1 full in auto)
    qed (use io1 in simp)
  qed simp
  show ?thesis
    unfolding run_monitor_def wp_bind wp_print_lines wp_lift_res Inr sum.case
    by (rule wp_mono [OF sess]) auto
qed

lemma returns_run_monitor [returns_intros]: "returns (run_monitor os port N x csv) h"
proof -
  have sample: "returns (monitor_sample os N x i s nx) g" for i s nx and g :: "('w, 'z) host_scheme"
    unfolding monitor_sample_def monitor_pace_def comm_csv_write_def Let_def
    by (intro returns_intros)
  have "returns (monitor_loop os N x i n st) g" for i n st and g :: "('w, 'z) host_scheme"
    by (induction n arbitrary: i st g) (auto intro!: returns_intros sample)
  then show ?thesis
    unfolding run_monitor_def settle_board_def with_comm_csv_def
    by (intro returns_intros)
qed

end

text \<open>
  C4: the monitor always returns. When it passes, it has sent exactly the \<open>samples\<close>
  requests, with consecutive sequence numbers from 0x40 that wrap at 256, consumed
  exactly one protocol answer to each, and its CSV file is the header with one row per
  answer, in order, with the answer's own sequence number and counters, as the printed
  lines are. When it fails, the file is untouched or holds complete rows and at most a
  cut-off row, and no other file has changed.
\<close>

theorem monitor_run:
  "returns (run_monitor (line_os d) port N x csv) h \<and>
   wp (run_monitor (line_os d) port N x csv)
     (\<lambda>_ h'. validate_monitor_options N x = Inr () \<and>
        (\<exists>ob. list_all2 answers (requests 0x40 (nat N)) (map snd ob) \<and>
        rx_seen (world h') = rx_seen (world h) @ concat (map wire (map snd ob)) \<and>
        tx_sent (world h') = tx_sent (world h) @ concat (map wire (requests 0x40 (nat N))) \<and>
        lw_text (world h') = (lw_text (world h))
          (path_str csv \<mapsto> csv_row comm_csv_columns @ log_of ob) \<and>
        out h' = out h @ [''SENTRY-CELL UNO Communication Monitor'', ''Port: '' @ port,
            ''Samples: '' @ dec N, ''Interval: '' @ fmt_repr x @ '' s'', ''CSV: '' @ csv, []]
          @ monitor_lines N 0 ob
          @ [[], ''Communication monitoring: PASS'', ''CSV written: '' @ csv]))
     (\<lambda>_ h'. lw_text (world h') = lw_text (world h) \<or>
        (\<exists>t. lw_text (world h') = (lw_text (world h))(path_str csv \<mapsto> t) \<and>
           partial_log (nat N) t)) h"
  by (rule conjI [OF line_env.returns_run_monitor line_env.wp_run_monitor])


end
