(* ===== verification/Fault_Injection.thy ===== *)
theory Fault_Injection
  imports Csv_Log
begin

text \<open>
  \<open>supervisor/fault_injection.py\<close>: the verdict of one injected fault, the guard
  against a saturated counter, and the CSV logger of the campaign.
\<close>

definition fault_csv_columns :: "string list" where
  "fault_csv_columns =
     [''timestamp'', ''fault_id'', ''counter_name'', ''before'', ''after'',
      ''counter_incremented'', ''recovery_ping'', ''result'']"

record fault_injection_result =
  fault_id :: string
  counter_name :: string
  before :: int
  after :: int
  counter_incremented :: bool
  recovery_ping :: bool

definition passed :: "fault_injection_result \<Rightarrow> bool" where
  "passed r \<longleftrightarrow> counter_incremented r \<and> recovery_ping r"

definition require_counter_increment_capacity :: "string \<Rightarrow> int \<Rightarrow> unit res" where
  "require_counter_increment_capacity name before_value =
     (if before_value = 0xFF then
        Inl (Exc SaturatedCounterError
          (name @ '' counter is saturated at 255; an increment cannot be demonstrated''))
      else Inr ())"

definition build_fault_result ::
  "string \<Rightarrow> string \<Rightarrow> int \<Rightarrow> int \<Rightarrow> bool \<Rightarrow> fault_injection_result" where
  "build_fault_result fid name before_value after_value recovery =
     \<lparr>fault_id = fid, counter_name = name, before = before_value, after = after_value,
      counter_incremented = (after_value > before_value), recovery_ping = recovery\<rparr>"

text \<open>\<open>str(b).lower()\<close> and \<open>"PASS" if b else "FAIL"\<close>.\<close>

definition lower_bool :: "bool \<Rightarrow> string" where
  "lower_bool b = (if b then ''true'' else ''false'')"

definition pass_fail :: "bool \<Rightarrow> string" where
  "pass_fail b = (if b then ''PASS'' else ''FAIL'')"

definition fault_fields :: "string \<Rightarrow> fault_injection_result \<Rightarrow> string list" where
  "fault_fields timestamp r =
     [timestamp, fault_id r, counter_name r, dec (before r), dec (after r),
      lower_bool (counter_incremented r), lower_bool (recovery_ping r), pass_fail (passed r)]"

definition fault_csv_open :: "'w os \<Rightarrow> string \<Rightarrow> (('w, 'z) host_scheme, unit) prog" where
  "fault_csv_open os path = csv_logger_open os ''fault-injection CSV'' fault_csv_columns path"

definition fault_csv_write ::
  "'w os \<Rightarrow> string \<Rightarrow> fault_injection_result \<Rightarrow> (('w, 'z) host_scheme, unit) prog" where
  "fault_csv_write os timestamp r =
     csv_logger_write os ''fault-injection CSV'' (fault_fields timestamp r)"

definition with_fault_csv ::
  "'w os \<Rightarrow> string \<Rightarrow> (('w, 'z) host_scheme, 'a) prog \<Rightarrow> (('w, 'z) host_scheme, 'a) prog" where
  "with_fault_csv os path body =
     with_csv_logger os ''fault-injection CSV'' fault_csv_columns path body"

section \<open>Lemmas\<close>

lemma passed_build [simp]:
  "passed (build_fault_result i n b a r) \<longleftrightarrow> b < a \<and> r"
  by (simp add: passed_def build_fault_result_def)

text \<open>
  A uint8 counter that is not saturated can still show one more event; a saturated
  one cannot, whatever it reports next.
\<close>

lemma capacity_iff:
  assumes "0 \<le> b" "b \<le> 255"
  shows "require_counter_increment_capacity n b = Inr () \<longleftrightarrow>
    (\<exists>a. 0 \<le> a \<and> a \<le> 255 \<and> passed (build_fault_result i c b a True))"
  using assms by (auto simp: require_counter_increment_capacity_def intro: exI [of _ "b + 1"])

end
