(* ===== verification/Fault_Campaign.thy ===== *)
theory Fault_Campaign
  imports Supervisor Fault_Injection
begin

text \<open>
  The two fault modes of \<open>supervisor/main.py\<close>: the communication fault campaign, which
  sends a frame with a wrong CRC and an unfinished frame and expects exactly the
  matching counters to move, and the watchdog test, which blocks the firmware and
  expects it back with its marker set.
\<close>

section \<open>Definitions\<close>

text \<open>\<open>bad_crc_frame[-1] ^= 0xFF\<close>.\<close>

definition corrupt_last :: "bytes \<Rightarrow> bytes" where
  "corrupt_last bs = butlast bs @ [last bs XOR 0xFF]"

definition send_bad_crc :: "'w os \<Rightarrow> (('w, 'z) host_scheme, unit) prog" where
  "send_bad_crc os =
     bind_prog (lift_res (encode_frame (mk_frame TYPE_PING 0x51 []))) (\<lambda>bad_crc_frame.
     serial_write os (corrupt_last bad_crc_frame))"

definition partial_frame :: bytes where
  "partial_frame = [0xA5, 0x01, 0x01]"

definition print_fault_result ::
  "string \<Rightarrow> string \<Rightarrow> fault_injection_result \<Rightarrow> (('w, 'z) host_scheme, unit) prog" where
  "print_fault_result title counter_label result =
     print_lines
       [title, counter_label @ '': '' @ dec (before result) @ '' -> '' @ dec (after result),
        ''Recovery PING/PONG: '' @ pass_fail (recovery_ping result),
        ''Result: '' @ pass_fail (passed result), []]"

text \<open>The two experiments of the campaign, each from its first status request on.\<close>

definition bad_crc_experiment ::
  "'w os \<Rightarrow> (('w, 'z) host_scheme, fault_injection_result) prog" where
  "bad_crc_experiment os =
     bind_prog (request_comm_status os 0x50) (\<lambda>crc_before_status.
     let crc_before = crc_errors crc_before_status in
     bind_prog (lift_res (require_counter_increment_capacity ''CRC errors'' crc_before)) (\<lambda>_.
     bind_prog (send_bad_crc os) (\<lambda>_.
     bind_prog (require_no_bad_crc_response os) (\<lambda>_.
     bind_prog (request_comm_status os 0x52) (\<lambda>crc_after_status.
     bind_prog (verify_recovery_ping os 0x53) (\<lambda>crc_recovery.
     let crc_result =
       build_fault_result ''FI-COM-001'' ''crc_errors'' crc_before
         (crc_errors crc_after_status) crc_recovery in
     bind_prog (call_total (os_now os)) (\<lambda>now.
     bind_prog (fault_csv_write os (dt_iso now) crc_result) (\<lambda>_.
     bind_prog (print_fault_result ''FI-COM-001 BAD_CRC'' ''CRC errors'' crc_result) (\<lambda>_.
     ret crc_result)))))))))"

definition timeout_experiment ::
  "'w os \<Rightarrow> (('w, 'z) host_scheme, fault_injection_result) prog" where
  "timeout_experiment os =
     bind_prog (request_comm_status os 0x60) (\<lambda>timeout_before_status.
     let timeout_before = parser_timeouts timeout_before_status in
     bind_prog (lift_res (require_counter_increment_capacity ''Parser timeouts'' timeout_before))
       (\<lambda>_.
     bind_prog (serial_write os partial_frame) (\<lambda>_.
     bind_prog (py_sleep os (Fin (20 / 100))) (\<lambda>_.
     bind_prog (request_comm_status os 0x61) (\<lambda>timeout_after_status.
     bind_prog (verify_recovery_ping os 0x62) (\<lambda>timeout_recovery.
     let timeout_result =
       build_fault_result ''FI-COM-002'' ''parser_timeouts'' timeout_before
         (parser_timeouts timeout_after_status) timeout_recovery in
     bind_prog (call_total (os_now os)) (\<lambda>now.
     bind_prog (fault_csv_write os (dt_iso now) timeout_result) (\<lambda>_.
     bind_prog
       (print_fault_result ''FI-COM-002 PARTIAL_FRAME_TIMEOUT'' ''Parser timeouts''
         timeout_result) (\<lambda>_.
     ret timeout_result)))))))))"

definition campaign_passed :: "fault_injection_result list \<Rightarrow> bool" where
  "campaign_passed results \<longleftrightarrow> length results = 2 \<and> list_all passed results"

definition run_fault_injection_comm ::
  "'w os \<Rightarrow> string \<Rightarrow> string \<Rightarrow> (('w, 'z) host_scheme, unit) prog" where
  "run_fault_injection_comm os port csv_path =
     bind_prog
       (print_lines
         [''SENTRY-CELL UNO Communication Fault Injection'', ''Port: '' @ port,
          ''CSV: '' @ csv_path, []]) (\<lambda>_.
     bind_prog
       (with_link os port
         (bind_prog (settle_board os) (\<lambda>_.
          with_fault_csv os csv_path
            (bind_prog (bad_crc_experiment os) (\<lambda>crc_result.
             bind_prog (timeout_experiment os) (\<lambda>timeout_result.
             ret [crc_result, timeout_result])))))) (\<lambda>results.
     bind_prog
       (print_line
         (''Communication fault campaign: '' @ pass_fail (campaign_passed results))) (\<lambda>_.
     if \<not> campaign_passed results then
       raise SupervisorError ''communication fault campaign failed''
     else ret ())))"

text \<open>The session returns the recovery flag, the marker and the reset cause.\<close>

definition watchdog_session ::
  "'w os \<Rightarrow> (('w, 'z) host_scheme, bool \<times> int \<times> int) prog" where
  "watchdog_session os =
     bind_prog (settle_board os) (\<lambda>_.
     bind_prog (request_watchdog_status os 0x70) (\<lambda>initial_status.
     bind_prog
       (print_lines
         [''Initial watchdog marker : '' @ dec (timeout_marker initial_status),
          ''Injecting controlled firmware block...'']) (\<lambda>_.
     bind_prog (send_frame os (mk_frame TYPE_INJECT_WATCHDOG_BLOCK 0x71 [])) (\<lambda>_.
     bind_prog (py_sleep os (Fin 4)) (\<lambda>_.
     bind_prog (verify_recovery_ping os 0x72) (\<lambda>recovered.
     if recovered then
       bind_prog (request_watchdog_status os 0x73) (\<lambda>ws.
       bind_prog (request_reset_cause os 0x74) (\<lambda>rs.
       ret (True, timeout_marker ws, reset_cause rs)))
     else ret (False, 0, 0)))))))"

definition run_watchdog_test :: "'w os \<Rightarrow> string \<Rightarrow> (('w, 'z) host_scheme, unit) prog" where
  "run_watchdog_test os port =
     bind_prog (print_lines [''Watchdog fault injection'', ''Port: '' @ port, []]) (\<lambda>_.
     bind_prog (with_link os port (watchdog_session os)) (\<lambda>(recovered, marker, cause).
     let ok = watchdog_test_passed recovered recovered marker in
     bind_prog
       (print_lines
         [[], ''MCU recovered            : '' @ pass_fail recovered,
          ''PING after reset         : '' @ pass_fail recovered,
          ''Watchdog timeout marker  : '' @ pass_fail (marker = 1),
          ''Raw boot reset cause     : 0x'' @ hex02 cause @ '' [informational]'', [],
          ''Watchdog test            : '' @ pass_fail ok]) (\<lambda>_.
     if \<not> ok then
       raise SupervisorError
         ''watchdog test requires recovered communication, PING, and timeout marker 1''
     else ret ())))"

section \<open>The injected bytes\<close>

text \<open>
  A frame with a corrupted CRC byte is refused for its CRC and for nothing else.
\<close>

lemma decode_corrupt_last:
  assumes "valid_frame f"
  shows "\<exists>m. decode_frame (corrupt_last (wire f)) = Inl (Exc CRCError m)"
proof -
  let ?c = "crc_word (wire_body f) XOR 0xFF"
  have bs: "corrupt_last (wire f) = 0xA5 # wire_body f @ [?c]"
    by (simp add: corrupt_last_def wire_def butlast_append)
  have n: "(0xA5 # wire_body f @ [?c]) ! 0 = 0xA5" "(0xA5 # wire_body f @ [?c]) ! 1 = 1"
    "(0xA5 # wire_body f @ [?c]) ! 4 = of_nat (length (payload f))"
    by (simp_all add: wire_body_def nth_Cons')
  have u: "unat (of_nat (length (payload f)) :: byte) = length (payload f)"
    using assms by (simp add: valid_frame_def MAX_PAYLOAD_def unat_octet)
  have sl: "slice (Suc 0) (length (wire_body f) + 1) (0xA5 # wire_body f @ [?c]) = wire_body f"
    by (simp add: slice_def)
  have "?c \<noteq> crc_word (wire_body f)"
  proof
    assume "?c = crc_word (wire_body f)"
    then have "crc_word (wire_body f) XOR ?c = 0" by simp
    then show False by (simp flip: xor.assoc)
  qed
  then have c: "uint ?c \<noteq> crc8_atm (wire_body f)"
    by (simp add: crc8_atm_word word_uint_eq_iff)
  have l: "length (wire_body f) = 4 + length (payload f)" by (simp add: wire_body_def)
  show ?thesis
    unfolding bs using assms n u sl c l
    by (simp add: decode_frame_def SOF_def VERSION_def MAX_PAYLOAD_def valid_frame_def Let_def)
qed

section \<open>The pieces of the two modes\<close>

context host_env
begin

lemma wp_serial_write_env:
  assumes "\<And>w'. rx w' = rx (world h) \<Longrightarrow> tx w' = tx (world h) @ bs \<Longrightarrow> ftext w' = ftext (world h) \<Longrightarrow>
        fpath w' = fpath (world h) \<Longrightarrow> Q () (h\<lparr>world := w'\<rparr>)"
    and "\<And>e w'. ftext w' = ftext (world h) \<Longrightarrow> fpath w' = fpath (world h) \<Longrightarrow> E e (h\<lparr>world := w'\<rparr>)"
  shows "wp (serial_write os bs) Q E h"
  by (rule wp_files_frame [where R = "\<lambda>_ _. True" and
        P = "\<lambda>_ w'. rx w' = rx (world h) \<and> tx w' = tx (world h) @ bs"])
    (auto intro!: wp_serial_write ser.v_serial_write assms)

lemma wp_ping_env:
  assumes s: "0 \<le> s" "s \<le> 255"
    and "\<And>w'. rx w' = rx (world h) @ wire (mk_frame TYPE_PONG s []) \<Longrightarrow>
        tx w' = tx (world h) @ wire (mk_frame TYPE_PING s []) \<Longrightarrow> ftext w' = ftext (world h) \<Longrightarrow>
        fpath w' = fpath (world h) \<Longrightarrow> Q True (h\<lparr>world := w'\<rparr>)"
    and "\<And>w'. ftext w' = ftext (world h) \<Longrightarrow> fpath w' = fpath (world h) \<Longrightarrow> Q False (h\<lparr>world := w'\<rparr>)"
    and "\<And>e w'. ftext w' = ftext (world h) \<Longrightarrow> fpath w' = fpath (world h) \<Longrightarrow> E e (h\<lparr>world := w'\<rparr>)"
  shows "wp (verify_recovery_ping os s) Q E h"
  unfolding verify_recovery_ping_def wp_try_except wp_bind
proof (rule wp_transact_env, goal_cases)
  case 1
  show ?case using s by (simp add: valid_request type_defs)
next
  case (2 f w')
  then show ?case
    using assms(3) [of w'] assms(4) [of w'] assms(5) [of w'] require_response_iff [of f TYPE_PONG s "[]"]
    by (auto split: sum.split)
next
  case (3 e w')
  then show ?case using assms(4,5) by simp
qed

text \<open>The silence after a corrupted frame: on success not one byte has come.\<close>

lemma wp_silence_env:
  assumes "\<And>w'. rx w' = rx (world h) \<Longrightarrow> tx w' = tx (world h) \<Longrightarrow> ftext w' = ftext (world h) \<Longrightarrow>
        fpath w' = fpath (world h) \<Longrightarrow> Q () (h\<lparr>world := w'\<rparr>)"
    and "\<And>e w'. ftext w' = ftext (world h) \<Longrightarrow> fpath w' = fpath (world h) \<Longrightarrow> E e (h\<lparr>world := w'\<rparr>)"
  shows "wp (require_no_bad_crc_response os) Q E h"
proof (rule wp_files_frame [where R = "\<lambda>_ _. True" and
      P = "\<lambda>_ w'. rx w' = rx (world h) \<and> tx w' = tx (world h)"], goal_cases)
  case 1
  show ?case
    unfolding require_no_bad_crc_response_def wp_bind wp_try_except
    by (rule wp_read_exact) auto
qed (use assms in \<open>auto intro: ser.v_transactions\<close>)

lemma wp_status_env:
  assumes "valid_frame (mk_frame ty s [])"
    and "\<And>f x. valid_frame f \<Longrightarrow> sequence f = s \<Longrightarrow> dcd f = Inr x \<Longrightarrow> answers (mk_frame ty s []) f"
    and "\<And>f x w'. answers (mk_frame ty s []) f \<Longrightarrow> dcd f = Inr x \<Longrightarrow>
        rx w' = rx (world h) @ wire f \<Longrightarrow> tx w' = tx (world h) @ wire (mk_frame ty s []) \<Longrightarrow>
        ftext w' = ftext (world h) \<Longrightarrow> fpath w' = fpath (world h) \<Longrightarrow> Q x (h\<lparr>world := w'\<rparr>)"
    and "\<And>e w'. ftext w' = ftext (world h) \<Longrightarrow> fpath w' = fpath (world h) \<Longrightarrow> E e (h\<lparr>world := w'\<rparr>)"
  shows "wp (request_status os ty s name dcd) Q E h"
  by (rule wp_request_status_env [OF assms(1)], rule assms(3), rule assms(2)) (use assms(4) in auto)

end

section \<open>The campaign\<close>

text \<open>
  The evidence of one experiment: what was sent and received around the injected bytes,
  and the row that it leaves.
\<close>

definition comm_query :: "int \<Rightarrow> frame" where
  "comm_query s = mk_frame TYPE_GET_COMM_STATUS s []"

definition ping_query :: "int \<Rightarrow> frame" where
  "ping_query s = mk_frame TYPE_PING s []"

definition pong_reply :: "int \<Rightarrow> frame" where
  "pong_reply s = mk_frame TYPE_PONG s []"

definition crc_result :: "frame \<Rightarrow> frame \<Rightarrow> bool \<Rightarrow> fault_injection_result" where
  "crc_result f g r =
     build_fault_result ''FI-COM-001'' ''crc_errors'' (uint (payload f ! 2)) (uint (payload g ! 2)) r"

definition timeout_result :: "frame \<Rightarrow> frame \<Rightarrow> bool \<Rightarrow> fault_injection_result" where
  "timeout_result f g r =
     build_fault_result ''FI-COM-002'' ''parser_timeouts'' (uint (payload f ! 1))
       (uint (payload g ! 1)) r"

definition fault_row :: "string \<Rightarrow> fault_injection_result \<Rightarrow> string" where
  "fault_row ts r = csv_row (fault_fields ts r)"

definition fault_lines :: "string \<Rightarrow> string \<Rightarrow> fault_injection_result \<Rightarrow> string list" where
  "fault_lines title label r =
     [title, label @ '': '' @ dec (before r) @ '' -> '' @ dec (after r),
      ''Recovery PING/PONG: '' @ pass_fail (recovery_ping r), ''Result: '' @ pass_fail (passed r), []]"

lemma campaign_passed_iff:
  "campaign_passed [crc_result f f' r, timeout_result g g' r'] \<longleftrightarrow>
     uint (payload f ! 2) < uint (payload f' ! 2) \<and> r \<and>
     uint (payload g ! 1) < uint (payload g' ! 1) \<and> r'"
  by (auto simp: campaign_passed_def crc_result_def timeout_result_def)

lemma wp_print_fault [simp]:
  "wp (print_fault_result title label r) Q E = (\<lambda>h. Q () (h\<lparr>out := out h @ fault_lines title label r\<rparr>))"
  by (rule ext) (simp add: print_fault_result_def fault_lines_def)

lemma comm_fields:
  "decode_comm_status f = Inr st \<Longrightarrow>
     parser_timeouts st = uint (payload f ! 1) \<and> crc_errors st = uint (payload f ! 2)"
  by (auto simp: decode_comm_status_def bind_res_Inr_iff expect_status_iff)

lemma valid_query [simp]:
  "0 \<le> s \<Longrightarrow> s \<le> 255 \<Longrightarrow> valid_frame (comm_query s)"
  "0 \<le> s \<Longrightarrow> s \<le> 255 \<Longrightarrow> valid_frame (ping_query s)"
  by (simp_all add: comm_query_def ping_query_def valid_request type_defs)

context host_env
begin

lemma wp_comm_env:
  assumes "0 \<le> s" "s \<le> 255"
    and "\<And>f x w'. answers (comm_query s) f \<Longrightarrow> parser_timeouts x = uint (payload f ! 1) \<Longrightarrow>
        crc_errors x = uint (payload f ! 2) \<Longrightarrow>
        rx w' = rx (world h) @ wire f \<Longrightarrow> tx w' = tx (world h) @ wire (comm_query s) \<Longrightarrow>
        ftext w' = ftext (world h) \<Longrightarrow> fpath w' = fpath (world h) \<Longrightarrow> Q x (h\<lparr>world := w'\<rparr>)"
    and "\<And>e w'. ftext w' = ftext (world h) \<Longrightarrow> fpath w' = fpath (world h) \<Longrightarrow> E e (h\<lparr>world := w'\<rparr>)"
  shows "wp (request_comm_status os s) Q E h"
  unfolding request_comm_status_def
proof (rule wp_status_env, goal_cases)
  case 1
  show ?case using assms(1,2) by (simp add: valid_request type_defs)
next
  case (3 f x w')
  then show ?case using assms(3) [of f x w'] comm_fields [of f x] by (simp add: comm_query_def)
qed (use assms(4) in \<open>auto simp: decoder_answers\<close>)

text \<open>The logging and printing end of an experiment.\<close>

lemma wp_fault_report:
  assumes "csv_file h = Some k" "fpath (world h) k = Some p" "ftext (world h) p = Some c"
    and "\<And>ts w'. ftext w' = (ftext (world h))(p \<mapsto> c @ fault_row ts r) \<Longrightarrow> fpath w' = fpath (world h) \<Longrightarrow>
        rx w' = rx (world h) \<Longrightarrow> tx w' = tx (world h) \<Longrightarrow>
        Q r (h\<lparr>world := w', out := out h @ fault_lines title label r\<rparr>)"
    and "\<And>e t w'. ftext w' = (ftext (world h))(p \<mapsto> t) \<Longrightarrow> E e (h\<lparr>world := w'\<rparr>)"
  shows "wp (bind_prog (call_total (os_now os)) (\<lambda>now.
      bind_prog (fault_csv_write os (dt_iso now) r) (\<lambda>_.
      bind_prog (print_fault_result title label r) (\<lambda>_. ret r)))) Q E h"
proof -
  obtain dt w1 where n: "os_now os (world h) = (dt, w1)" by fastforce
  note io = ser.v_now [OF n] fil.u_now [OF n]
  have "wp (fault_csv_write os (dt_iso dt) r)
      (\<lambda>_ t. Q r (t\<lparr>out := out t @ fault_lines title label r\<rparr>)) E (h\<lparr>world := w1\<rparr>)"
    unfolding fault_csv_write_def
    by (rule wp_csv_write_env [of _ k p c])
      (use assms io in \<open>auto simp: fault_row_def\<close>)
  with n show ?thesis by simp
qed

lemma wp_bad_crc_experiment:
  assumes "csv_file h = Some k" "fpath (world h) k = Some p" "ftext (world h) p = Some c"
    and Q: "\<And>f g r ts w'. answers (comm_query 0x50) f \<Longrightarrow> answers (comm_query 0x52) g \<Longrightarrow>
        (r \<Longrightarrow> rx w' = rx (world h) @ wire f @ wire g @ wire (pong_reply 0x53)) \<Longrightarrow>
        (r \<Longrightarrow> tx w' = tx (world h) @ wire (comm_query 0x50) @ corrupt_last (wire (ping_query 0x51))
           @ wire (comm_query 0x52) @ wire (ping_query 0x53)) \<Longrightarrow>
        ftext w' = (ftext (world h))(p \<mapsto> c @ fault_row ts (crc_result f g r)) \<Longrightarrow>
        fpath w' = fpath (world h) \<Longrightarrow>
        Q (crc_result f g r)
          (h\<lparr>world := w',
             out := out h @ fault_lines ''FI-COM-001 BAD_CRC'' ''CRC errors'' (crc_result f g r)\<rparr>)"
    and E: "\<And>e t w'. ftext w' = (ftext (world h))(p \<mapsto> t) \<Longrightarrow> E e (h\<lparr>world := w'\<rparr>)"
  shows "wp (bad_crc_experiment os) Q E h"
proof -
  have same: "E e (h\<lparr>world := w'\<rparr>)" if "ftext w' = ftext (world h)" for e w'
    using E [of w' c e] that assms(3) by (simp add: map_upd_triv)
  show ?thesis
    unfolding bad_crc_experiment_def wp_bind
  proof (rule wp_comm_env, goal_cases)
    case s1: (3 f x w1)
    show ?case
    proof (cases "require_counter_increment_capacity ''CRC errors'' (crc_errors x)")
      case (Inl e)
      with s1 same [of w1 e] show ?thesis by simp
    next
      case cap: (Inr u)
      have "wp (serial_write os (corrupt_last (wire (ping_query 0x51))))
         (\<lambda>_. wp (require_no_bad_crc_response os) (\<lambda>_. wp (request_comm_status os 0x52) (\<lambda>y.
            wp (verify_recovery_ping os 0x53) (\<lambda>r.
             wp (bind_prog (call_total (os_now os)) (\<lambda>now.
               bind_prog (fault_csv_write os (dt_iso now) (build_fault_result ''FI-COM-001''
                   ''crc_errors'' (crc_errors x) (crc_errors y) r)) (\<lambda>_.
               bind_prog (print_fault_result ''FI-COM-001 BAD_CRC'' ''CRC errors''
                   (build_fault_result ''FI-COM-001'' ''crc_errors'' (crc_errors x) (crc_errors y) r))
                 (\<lambda>_. ret (build_fault_result ''FI-COM-001'' ''crc_errors'' (crc_errors x)
                   (crc_errors y) r))))) Q E) E) E) E) E (h\<lparr>world := w1\<rparr>)"
      proof (rule wp_serial_write_env, goal_cases)
        case s2: (1 w2)
        show ?case
        proof (rule wp_silence_env, goal_cases)
          case s3: (1 w3)
          show ?case
          proof (rule wp_comm_env, goal_cases)
            case s4: (3 g y w4)
            have res: "build_fault_result ''FI-COM-001'' ''crc_errors'' (crc_errors x) (crc_errors y) r
                = crc_result f g r" for r
              using s1(3) s4(3) by (simp add: crc_result_def)
            show ?case
              unfolding res
            proof (rule wp_ping_env, goal_cases)
              case s5: (3 w5)
              show ?case
                by (rule wp_fault_report [of _ k p c])
                  (use s1 s2 s3 s4 s5 assms(1-3) E Q [of f g True] in
                    \<open>simp_all add: ping_query_def pong_reply_def\<close>)
            next
              case s5: (4 w5)
              show ?case
                by (rule wp_fault_report [of _ k p c])
                  (use s1 s2 s3 s4 s5 assms(1-3) E Q [of f g False] in simp_all)
            qed (use s1 s2 s3 s4 same in simp_all)
          qed (use s1 s2 s3 same in simp_all)
        qed (use s1 s2 same in simp_all)
      qed (use s1 same in simp_all)
      then show ?thesis
        using cap by (simp add: Let_def send_bad_crc_def encode_frame_wire flip: ping_query_def)
    qed
  qed (use same in simp_all)
qed

lemma wp_timeout_experiment:
  assumes "csv_file h = Some k" "fpath (world h) k = Some p" "ftext (world h) p = Some c"
    and Q: "\<And>f g r ts w'. answers (comm_query 0x60) f \<Longrightarrow> answers (comm_query 0x61) g \<Longrightarrow>
        (r \<Longrightarrow> rx w' = rx (world h) @ wire f @ wire g @ wire (pong_reply 0x62)) \<Longrightarrow>
        (r \<Longrightarrow> tx w' = tx (world h) @ wire (comm_query 0x60) @ partial_frame
           @ wire (comm_query 0x61) @ wire (ping_query 0x62)) \<Longrightarrow>
        ftext w' = (ftext (world h))(p \<mapsto> c @ fault_row ts (timeout_result f g r)) \<Longrightarrow>
        fpath w' = fpath (world h) \<Longrightarrow>
        Q (timeout_result f g r)
          (h\<lparr>world := w', out := out h @ fault_lines ''FI-COM-002 PARTIAL_FRAME_TIMEOUT''
               ''Parser timeouts'' (timeout_result f g r)\<rparr>)"
    and E: "\<And>e t w'. ftext w' = (ftext (world h))(p \<mapsto> t) \<Longrightarrow> E e (h\<lparr>world := w'\<rparr>)"
  shows "wp (timeout_experiment os) Q E h"
proof -
  have same: "E e (h\<lparr>world := w'\<rparr>)" if "ftext w' = ftext (world h)" for e w'
    using E [of w' c e] that assms(3) by (simp add: map_upd_triv)
  show ?thesis
    unfolding timeout_experiment_def wp_bind
  proof (rule wp_comm_env, goal_cases)
    case s1: (3 f x w1)
    show ?case
    proof (cases "require_counter_increment_capacity ''Parser timeouts'' (parser_timeouts x)")
      case (Inl e)
      with s1 same [of w1 e] show ?thesis by simp
    next
      case cap: (Inr u)
      let ?res = "\<lambda>y. build_fault_result ''FI-COM-002'' ''parser_timeouts'' (parser_timeouts x)
            (parser_timeouts y)"
      have "wp (serial_write os partial_frame)
         (\<lambda>_. wp (py_sleep os (Fin (20 / 100))) (\<lambda>_. wp (request_comm_status os 0x61) (\<lambda>y.
            wp (verify_recovery_ping os 0x62) (\<lambda>r.
             wp (bind_prog (call_total (os_now os)) (\<lambda>now.
               bind_prog (fault_csv_write os (dt_iso now) (?res y r)) (\<lambda>_.
               bind_prog (print_fault_result ''FI-COM-002 PARTIAL_FRAME_TIMEOUT'' ''Parser timeouts''
                   (?res y r)) (\<lambda>_. ret (?res y r))))) Q E) E) E) E) E (h\<lparr>world := w1\<rparr>)"
      proof (rule wp_serial_write_env, goal_cases)
        case s2: (1 w2)
        show ?case
        proof (rule wp_py_sleep_env, goal_cases)
          case s3: (1 w3)
          show ?case
          proof (rule wp_comm_env, goal_cases)
            case s4: (3 g y w4)
            have res: "?res y r = timeout_result f g r" for r
              using s1(2) s4(2) by (simp add: timeout_result_def)
            show ?case
              unfolding res
            proof (rule wp_ping_env, goal_cases)
              case s5: (3 w5)
              show ?case
                by (rule wp_fault_report [of _ k p c])
                  (use s1 s2 s3 s4 s5 assms(1-3) E Q [of f g True] in
                    \<open>simp_all add: ping_query_def pong_reply_def\<close>)
            next
              case s5: (4 w5)
              show ?case
                by (rule wp_fault_report [of _ k p c])
                  (use s1 s2 s3 s4 s5 assms(1-3) E Q [of f g False] in simp_all)
            qed (use s1 s2 s3 s4 same in simp_all)
          qed (use s1 s2 s3 same in simp_all)
        qed (use s1 s2 same in simp_all)
      qed (use s1 same in simp_all)
      then show ?thesis
        using cap by (simp add: Let_def del: wp_py_sleep_Fin)
    qed
  qed (use same in simp_all)
qed

lemma ex_upd_same [simp]: "\<exists>t. f = f(p := t)"
  by (rule exI [of _ "f p"]) simp

lemma wp_run_fault_injection_comm:
  "wp (run_fault_injection_comm os port csv)
     (\<lambda>_ h'. \<exists>f f' g g' ts ts'.
        answers (comm_query 0x50) f \<and> answers (comm_query 0x52) f' \<and>
        answers (comm_query 0x60) g \<and> answers (comm_query 0x61) g' \<and>
        uint (payload f ! 2) < uint (payload f' ! 2) \<and> uint (payload g ! 1) < uint (payload g' ! 1) \<and>
        rx (world h') = rx (world h) @ wire f @ wire f' @ wire (pong_reply 0x53)
          @ wire g @ wire g' @ wire (pong_reply 0x62) \<and>
        tx (world h') = tx (world h) @ wire (comm_query 0x50) @ corrupt_last (wire (ping_query 0x51))
          @ wire (comm_query 0x52) @ wire (ping_query 0x53)
          @ wire (comm_query 0x60) @ partial_frame @ wire (comm_query 0x61) @ wire (ping_query 0x62) \<and>
        ftext (world h') = (ftext (world h))(path_str csv \<mapsto>
          csv_row fault_csv_columns @ fault_row ts (crc_result f f' True)
            @ fault_row ts' (timeout_result g g' True)))
     (\<lambda>_ h'. \<exists>t. ftext (world h') = (ftext (world h))(path_str csv := t)) h"
  (is "wp _ ?Q ?E h")
proof -
  let ?p = "path_str csv" and ?hdr = "csv_row fault_csv_columns"
  let ?h = "h\<lparr>out := out h @ [''SENTRY-CELL UNO Communication Fault Injection'', ''Port: '' @ port,
          ''CSV: '' @ csv, []]\<rparr>"
  let ?bad = "\<lambda>w. \<exists>t. ftext w = (ftext (world h))(?p := t)"
  let ?good = "\<lambda>rs w. \<exists>f f' g g' r r' ts ts'.
      rs = [crc_result f f' r, timeout_result g g' r'] \<and>
      answers (comm_query 0x50) f \<and> answers (comm_query 0x52) f' \<and>
      answers (comm_query 0x60) g \<and> answers (comm_query 0x61) g' \<and>
      (r \<and> r' \<longrightarrow> rx w = rx (world h) @ wire f @ wire f' @ wire (pong_reply 0x53)
          @ wire g @ wire g' @ wire (pong_reply 0x62) \<and>
        tx w = tx (world h) @ wire (comm_query 0x50) @ corrupt_last (wire (ping_query 0x51))
          @ wire (comm_query 0x52) @ wire (ping_query 0x53)
          @ wire (comm_query 0x60) @ partial_frame @ wire (comm_query 0x61) @ wire (ping_query 0x62)) \<and>
      ftext w = (ftext (world h))(?p \<mapsto> ?hdr @ fault_row ts (crc_result f f' r)
            @ fault_row ts' (timeout_result g g' r'))"
  have log: "wp (with_fault_csv os csv
            (bind_prog (bad_crc_experiment os) (\<lambda>crc_result.
             bind_prog (timeout_experiment os) (\<lambda>timeout_result.
             ret [crc_result, timeout_result]))))
      (\<lambda>rs t. ?good rs (world t)) (\<lambda>_ t. ?bad (world t)) g"
    if g: "rx (world g) = rx (world h)" "tx (world g) = tx (world h)"
        "ftext (world g) = ftext (world h)" for g
    unfolding with_fault_csv_def
  proof (rule wp_with_csv_env, goal_cases)
    case s1: (1 k w1)
    have "wp (bind_prog (bad_crc_experiment os) (\<lambda>crc_result.
             bind_prog (timeout_experiment os) (\<lambda>timeout_result.
             ret [crc_result, timeout_result])))
        (\<lambda>rs t. ?good rs (world t)) (\<lambda>_ t. ?bad (world t)) (g\<lparr>csv_file := Some k, world := w1\<rparr>)"
      unfolding wp_bind
    proof (rule wp_bad_crc_experiment [of _ k ?p ?hdr], goal_cases)
      case s2: (4 f f' r ts w2)
      show ?case
      proof (rule wp_timeout_experiment [of _ k ?p "?hdr @ fault_row ts (crc_result f f' r)"], goal_cases)
        case s3: (4 g g' r' ts' w3)
        have "ftext w3 = (ftext (world h))(?p \<mapsto> ?hdr @ fault_row ts (crc_result f f' r)
            @ fault_row ts' (timeout_result g g' r'))"
          using s1(1) s2(5) s3(5) that(3) by (auto simp: fun_eq_iff)
        with s1 s2 s3 that show ?case
          unfolding wp_ret
          by - (rule exI [of _ f], rule exI [of _ f'], rule exI [of _ g], rule exI [of _ g'],
            rule exI [of _ r], rule exI [of _ r'], rule exI [of _ ts], rule exI [of _ ts'], simp)
      qed (use s1 s2 that in \<open>simp_all add: fun_eq_iff\<close>)
    qed (use s1 that in \<open>simp_all add: fun_eq_iff\<close>)
    then show ?case
      by (rule wp_mono) auto
  next
    case (2 e k w')
    then show ?case using that by (auto simp: fun_eq_iff)
  qed
  have "wp (with_link os port
         (bind_prog (settle_board os) (\<lambda>_.
          with_fault_csv os csv
            (bind_prog (bad_crc_experiment os) (\<lambda>crc_result.
             bind_prog (timeout_experiment os) (\<lambda>timeout_result.
             ret [crc_result, timeout_result]))))))
      (\<lambda>rs t. ?good rs (world t)) (\<lambda>_ t. ?bad (world t)) ?h"
  proof (rule wp_with_link_env, goal_cases)
    case s1: (1 fd w1)
    show ?case
      unfolding settle_board_def wp_bind
    proof (rule wp_py_sleep_env, goal_cases)
      case (1 w2)
      show ?case
        by (rule wp_mono [OF log]) (use 1 s1 in auto)
    qed (use s1 in simp)
  qed simp
  then show ?thesis
    unfolding run_fault_injection_comm_def wp_bind wp_print_lines
  proof (rule wp_mono, goal_cases)
    case (1 rs t)
    show ?case
    proof (cases "campaign_passed rs")
      case True
      from 1 obtain f f' g g' r r' ts ts' where
        rs: "rs = [crc_result f f' r, timeout_result g g' r']" and
        a: "answers (comm_query 0x50) f" "answers (comm_query 0x52) f'"
          "answers (comm_query 0x60) g" "answers (comm_query 0x61) g'" and
        io: "r \<and> r' \<longrightarrow> rx (world t) = rx (world h) @ wire f @ wire f' @ wire (pong_reply 0x53)
            @ wire g @ wire g' @ wire (pong_reply 0x62) \<and>
          tx (world t) = tx (world h) @ wire (comm_query 0x50) @ corrupt_last (wire (ping_query 0x51))
            @ wire (comm_query 0x52) @ wire (ping_query 0x53) @ wire (comm_query 0x60)
            @ partial_frame @ wire (comm_query 0x61) @ wire (ping_query 0x62)" and
        f: "ftext (world t) = (ftext (world h))(?p \<mapsto> ?hdr @ fault_row ts (crc_result f f' r)
            @ fault_row ts' (timeout_result g g' r'))"
        by blast
      have ok: "uint (payload f ! 2) < uint (payload f' ! 2)" "uint (payload g ! 1) < uint (payload g' ! 1)"
        "r = True" "r' = True"
        using True unfolding rs campaign_passed_iff by auto
      have "?Q () (t\<lparr>out := out t @ [''Communication fault campaign: '' @ pass_fail True]\<rparr>)"
        using a ok io f unfolding ok(3,4)
        by - (rule exI [of _ f], rule exI [of _ f'], rule exI [of _ g], rule exI [of _ g'],
          rule exI [of _ ts], rule exI [of _ ts'], simp)
      then show ?thesis using True by simp
    next
      case False
      with 1 show ?thesis by auto
    qed
  qed auto
qed

end

section \<open>The watchdog test\<close>

definition watchdog_query :: "int \<Rightarrow> frame" where
  "watchdog_query s = mk_frame TYPE_GET_WATCHDOG_STATUS s []"

definition reset_query :: "int \<Rightarrow> frame" where
  "reset_query s = mk_frame TYPE_GET_RESET_CAUSE s []"

definition inject_command :: frame where
  "inject_command = mk_frame TYPE_INJECT_WATCHDOG_BLOCK 0x71 []"

lemma watchdog_marker:
  "decode_watchdog_status f = Inr ws \<Longrightarrow> timeout_marker ws = uint (payload f ! 0) \<and>
     length (payload f) = 1"
  by (auto simp: decode_watchdog_status_def bind_res_Inr_iff expect_status_iff split: if_splits)

context host_env
begin

lemma wp_watchdog_env:
  assumes "0 \<le> s" "s \<le> 255"
    and "\<And>f x w'. answers (watchdog_query s) f \<Longrightarrow> timeout_marker x = uint (payload f ! 0) \<Longrightarrow>
        rx w' = rx (world h) @ wire f \<Longrightarrow> tx w' = tx (world h) @ wire (watchdog_query s) \<Longrightarrow>
        Q x (h\<lparr>world := w'\<rparr>)"
    and "\<And>e w'. E e (h\<lparr>world := w'\<rparr>)"
  shows "wp (request_watchdog_status os s) Q E h"
  unfolding request_watchdog_status_def
proof (rule wp_status_env, goal_cases)
  case 1
  show ?case using assms(1,2) by (simp add: valid_request type_defs)
next
  case (3 f x w')
  then show ?case using assms(3) [of f x w'] watchdog_marker [of f x] by (simp add: watchdog_query_def)
qed (use assms(4) in \<open>auto simp: decoder_answers\<close>)

lemma wp_reset_env:
  assumes "0 \<le> s" "s \<le> 255"
    and "\<And>f x w'. answers (reset_query s) f \<Longrightarrow> rx w' = rx (world h) @ wire f \<Longrightarrow>
        tx w' = tx (world h) @ wire (reset_query s) \<Longrightarrow> Q x (h\<lparr>world := w'\<rparr>)"
    and "\<And>e w'. E e (h\<lparr>world := w'\<rparr>)"
  shows "wp (request_reset_cause os s) Q E h"
  unfolding request_reset_cause_def
proof (rule wp_status_env, goal_cases)
  case 1
  show ?case using assms(1,2) by (simp add: valid_request type_defs)
next
  case (3 f x w')
  then show ?case using assms(3) [of f w' x] by (simp add: reset_query_def)
qed (use assms(4) in \<open>auto simp: decoder_answers\<close>)

lemma wp_watchdog_session:
  "wp (watchdog_session os)
     (\<lambda>(ok, marker, _) t. ok \<longrightarrow> (\<exists>f g k. answers (watchdog_query 0x70) f \<and>
        answers (watchdog_query 0x73) g \<and> answers (reset_query 0x74) k \<and>
        marker = uint (payload g ! 0) \<and>
        rx (world t) = rx (world h) @ wire f @ wire (pong_reply 0x72) @ wire g @ wire k \<and>
        tx (world t) = tx (world h) @ wire (watchdog_query 0x70) @ wire inject_command
          @ wire (ping_query 0x72) @ wire (watchdog_query 0x73) @ wire (reset_query 0x74)))
     (\<lambda>_ _. True) h"
  unfolding watchdog_session_def settle_board_def wp_bind
proof (rule wp_py_sleep_env, goal_cases)
  case s1: (1 w1)
  show ?case
  proof (rule wp_watchdog_env, goal_cases)
    case s2: (3 f x w2)
    have inj: "valid_frame inject_command" by (simp add: inject_command_def valid_request type_defs)
    show ?case
      unfolding wp_print_lines send_frame_def encode_frame_wire [OF inj, unfolded inject_command_def]
        wp_bind wp_lift_res sum.case
    proof (rule wp_serial_write_env, goal_cases)
      case s3: (1 w3)
      show ?case
      proof (rule wp_py_sleep_env, goal_cases)
        case s4: (1 w4)
        show ?case
        proof (rule wp_ping_env, goal_cases)
          case s5: (3 w5)
          show ?case
            unfolding if_True wp_bind
          proof (rule wp_watchdog_env, goal_cases)
            case s6: (3 g y w6)
            show ?case
              by (rule wp_reset_env)
                (use s1 s2 s3 s4 s5 s6 in \<open>auto simp: inject_command_def ping_query_def pong_reply_def\<close>)
          qed simp_all
        qed simp_all
      qed simp
    qed simp
  qed simp_all
qed simp

lemma wp_run_watchdog_test:
  "wp (run_watchdog_test os port)
     (\<lambda>_ h'. \<exists>f g k. answers (watchdog_query 0x70) f \<and> answers (watchdog_query 0x73) g \<and>
        uint (payload g ! 0) = 1 \<and> answers (reset_query 0x74) k \<and>
        rx (world h') = rx (world h) @ wire f @ wire (pong_reply 0x72) @ wire g @ wire k \<and>
        tx (world h') = tx (world h) @ wire (watchdog_query 0x70) @ wire inject_command
          @ wire (ping_query 0x72) @ wire (watchdog_query 0x73) @ wire (reset_query 0x74))
     (\<lambda>_ _. True) h"
proof -
  let ?P = "\<lambda>(ok, marker, c :: int) w. ok \<longrightarrow> (\<exists>f g k. answers (watchdog_query 0x70) f \<and>
        answers (watchdog_query 0x73) g \<and> answers (reset_query 0x74) k \<and>
        marker = uint (payload g ! 0) \<and>
        rx w = rx (world h) @ wire f @ wire (pong_reply 0x72) @ wire g @ wire k \<and>
        tx w = tx (world h) @ wire (watchdog_query 0x70) @ wire inject_command
          @ wire (ping_query 0x72) @ wire (watchdog_query 0x73) @ wire (reset_query 0x74))"
  define P where "P r w = ?P r w" for r w
  have P_cong: "P r w" if "P r w'" "rx w = rx w'" "tx w = tx w'" for r w w'
    using that(1) unfolding P_def case_prod_beta that(2,3) .
  have "wp (with_link os port (watchdog_session os)) (\<lambda>r t. P r (world t)) (\<lambda>_ _. True)
      (h\<lparr>out := out h @ [''Watchdog fault injection'', ''Port: '' @ port, []]\<rparr>)"
  proof (rule wp_with_link_env, goal_cases)
    case s1: (1 fd w')
    have "wp (watchdog_session os) (\<lambda>r t. P r (world t)) (\<lambda>_ _. True)
        (h\<lparr>out := out h @ [''Watchdog fault injection'', ''Port: '' @ port, []],
           link_fd := Some fd, world := w'\<rparr>)"
      by (rule wp_mono [OF wp_watchdog_session]) (use s1 in \<open>auto simp: P_def split: prod.splits\<close>)
    then show ?case
      by (rule wp_mono) (auto intro: P_cong)
  qed simp
  then show ?thesis
    unfolding run_watchdog_test_def wp_bind wp_print_lines
  proof (rule wp_mono, goal_cases)
    case (1 r t)
    obtain ok m c where r: "r = (ok, m, c)" by (cases r) auto
    show ?case
    proof (cases "watchdog_test_passed ok ok m")
      case True
      then have "ok" "m = 1" by (simp_all add: watchdog_test_passed_def)
      with 1 True show ?thesis by (simp add: r Let_def P_def) blast
    next
      case False
      then show ?thesis by (simp add: r Let_def)
    qed
  qed simp
qed

lemma returns_fault_modes [returns_intros]:
  "returns (run_fault_injection_comm os port csv) h" "returns (run_watchdog_test os port) h"
  unfolding run_fault_injection_comm_def run_watchdog_test_def settle_board_def with_fault_csv_def
    bad_crc_experiment_def timeout_experiment_def watchdog_session_def request_comm_status_def
    request_watchdog_status_def request_reset_cause_def send_bad_crc_def fault_csv_write_def
    print_fault_result_def Let_def
  by (intro returns_intros)+

end

lemma fault_modes_close:
  "wp (run_fault_injection_comm os port csv) (\<lambda>_ t. link_fd t = None) (\<lambda>_ t. link_fd t = None) h"
  "wp (run_watchdog_test os port) (\<lambda>_ t. link_fd t = None) (\<lambda>_ t. link_fd t = None) h"
proof -
  show "wp (run_fault_injection_comm os port csv) (\<lambda>_ t. link_fd t = None) (\<lambda>_ t. link_fd t = None) h"
    unfolding run_fault_injection_comm_def wp_bind wp_print_lines
    by (rule wp_mono [OF wp_with_link_closed]) auto
  show "wp (run_watchdog_test os port) (\<lambda>_ t. link_fd t = None) (\<lambda>_ t. link_fd t = None) h"
    unfolding run_watchdog_test_def wp_bind wp_print_lines
    by (rule wp_mono [OF wp_with_link_closed]) (auto simp: Let_def split: prod.splits)
qed


text \<open>
  The bytes that the campaign injects as a corrupted frame are refused by the codec
  for a CRC mismatch, and for no other reason.
\<close>

theorem bad_crc_frame_refused:
  "\<exists>m. decode_frame (corrupt_last (wire (ping_query 0x51))) = Inl (Exc CRCError m)"
  by (rule decode_corrupt_last) simp

text \<open>
  C9: the watchdog test always returns with the link closed, and passes only if, after
  the block command, the recovery ping was answered and the watchdog status then
  reported marker 1, each request having gone out once and in order.
\<close>

theorem watchdog_test:
  "returns (run_watchdog_test (line_os d) port) h \<and>
   wp (run_watchdog_test (line_os d) port)
     (\<lambda>_ h'. link_fd h' = None \<and> (\<exists>f g k. answers (watchdog_query 0x70) f \<and>
        answers (watchdog_query 0x73) g \<and> uint (payload g ! 0) = 1 \<and> answers (reset_query 0x74) k \<and>
        rx_seen (world h') =
          rx_seen (world h) @ wire f @ wire (pong_reply 0x72) @ wire g @ wire k \<and>
        tx_sent (world h') = tx_sent (world h) @ wire (watchdog_query 0x70) @ wire inject_command
          @ wire (ping_query 0x72) @ wire (watchdog_query 0x73) @ wire (reset_query 0x74)))
     (\<lambda>_ h'. link_fd h' = None) h"
  by (rule conjI [OF line_env.returns_fault_modes(2)],
      rule wp_mono [OF wp_conj [OF fault_modes_close(2) line_env.wp_run_watchdog_test]]) simp_all

text \<open>
  C39: the capacity guard refuses a counter exactly when no later value of its octet
  could still show an increment.
\<close>

theorem counter_capacity:
  "0 \<le> b \<Longrightarrow> b \<le> 255 \<Longrightarrow>
     require_counter_increment_capacity n b = Inr () \<longleftrightarrow>
       (\<exists>a. 0 \<le> a \<and> a \<le> 255 \<and> passed (build_fault_result i c b a True))"
  by (rule capacity_iff)

theorem counter_capacity_witness:
  "require_counter_increment_capacity ''CRC errors'' 254 = Inr () \<and>
   require_counter_increment_capacity ''CRC errors'' 255 \<noteq> Inr ()"
  using counter_capacity [of 254 "''CRC errors''" "[]" "[]"]
    counter_capacity [of 255 "''CRC errors''" "[]" "[]"]
  by (auto intro: exI [of _ 255])

end
