(* ===== verification/Command_Args.thy ===== *)
theory Command_Args
  imports Py_Text
begin

text \<open>
  \<open>parse_args\<close> of \<open>supervisor/main.py\<close>: its table of options, and what \<open>argparse\<close> makes
  of an argument list with such a table (options that store one value, flags of one
  mutually exclusive group, no positional arguments, abbreviations allowed). A parse that
  does not return is an exit with status 0, for the help, or 2, for an error; the texts
  printed on these exits are the library's.
\<close>

section \<open>Floats from text\<close>

text \<open>Digits with underscores between digits only: the digits and the rest.\<close>

fun digit_run :: "string \<Rightarrow> string \<times> string" where
  "digit_run [] = ([], [])"
| "digit_run (c # cs) =
     (if is_digit c then
        (let r = (case cs of
                    u # d # ds \<Rightarrow> if u = CHR ''_'' \<and> is_digit d then d # ds else cs
                  | _ \<Rightarrow> cs)
         in if length r = length cs then (c # fst (digit_run cs), snd (digit_run cs))
            else (c # fst (digit_run (tl cs)), snd (digit_run (tl cs))))
      else ([], c # cs))"

definition lower :: "string \<Rightarrow> string" where
  "lower s = map (\<lambda>c. let k = of_char c :: nat in if 65 \<le> k \<and> k \<le> 90 then char_of (k + 32) else c) s"

text \<open>The value of \<open>m * 10 ^ e\<close> as a double.\<close>

definition scaled_double :: "nat \<Rightarrow> int \<Rightarrow> pyfloat" where
  "scaled_double m e =
     (let x = to_double (of_nat m * (if 0 \<le> e then 10 ^ nat e else 1 / 10 ^ nat (- e)))
      in if 2 ^ 1024 \<le> x then PInf else Fin x)"

definition float_body :: "string \<Rightarrow> pyfloat option" where
  "float_body s =
     (if lower s \<in> {''inf'', ''infinity''} then Some PInf
      else if lower s = ''nan'' then Some NaN
      else
        (let (ip, r) = digit_run s;
             (fp, r') = (case r of c # cs \<Rightarrow> if c = CHR ''.'' then digit_run cs else ([], r) | [] \<Rightarrow> ([], r))
         in if ip @ fp = [] then None
            else
              (case r' of
                 [] \<Rightarrow> Some (scaled_double (val_in_base 10 (ip @ fp)) (- int (length fp)))
               | c # cs \<Rightarrow>
                   if c = CHR ''e'' \<or> c = CHR ''E'' then
                     (let neg = (take 1 cs = ''-'');
                          (ep, r'') = digit_run (if take 1 cs \<in> {''-'', ''+''} then drop 1 cs else cs);
                          e = (if neg then - 1 else 1) * int (val_in_base 10 ep)
                      in if ep = [] \<or> r'' \<noteq> [] then None
                         else Some (scaled_double (val_in_base 10 (ip @ fp)) (e - int (length fp))))
                   else None)))"

definition fl_neg :: "pyfloat \<Rightarrow> pyfloat" where
  "fl_neg x = (case x of Fin r \<Rightarrow> Fin (- r) | PInf \<Rightarrow> NInf | NInf \<Rightarrow> PInf | NaN \<Rightarrow> NaN)"

text \<open>\<open>float(s)\<close>: \<open>None\<close> is the \<open>ValueError\<close>.\<close>

definition py_float :: "string \<Rightarrow> pyfloat option" where
  "py_float s =
     (let t = py_strip s in
      if take 1 t = ''-'' then map_option fl_neg (float_body (drop 1 t))
      else float_body (if take 1 t = ''+'' then drop 1 t else t))"

section \<open>The options\<close>

datatype cli_mode =
    MStatus | MTiming | MJitter | MMemoryRuntime | MRtProfile | MMonitor
  | MFaultInjectionComm | MWatchdogTest | MValidationProfile | MDashboard

datatype cli_option =
    OHelp | OPort | OMode cli_mode | ODashboardHost | ODashboardPort | OSamples | OInterval
  | OObserveSeconds | OCsv

definition option_table :: "(string \<times> cli_option) list" where
  "option_table =
     [(''-h'', OHelp), (''--help'', OHelp),
      (''--port'', OPort),
      (''--status'', OMode MStatus),
      (''--timing'', OMode MTiming),
      (''--jitter'', OMode MJitter),
      (''--memory-runtime'', OMode MMemoryRuntime),
      (''--rt-profile'', OMode MRtProfile),
      (''--monitor'', OMode MMonitor),
      (''--fault-injection-comm'', OMode MFaultInjectionComm),
      (''--watchdog-test'', OMode MWatchdogTest),
      (''--validation-profile'', OMode MValidationProfile),
      (''--dashboard'', OMode MDashboard),
      (''--dashboard-host'', ODashboardHost),
      (''--dashboard-port'', ODashboardPort),
      (''--samples'', OSamples),
      (''--interval'', OInterval),
      (''--observe-seconds'', OObserveSeconds),
      (''--csv'', OCsv)]"

record cli_args =
  arg_port :: string
  arg_status :: bool
  arg_timing :: bool
  arg_jitter :: bool
  arg_memory_runtime :: bool
  arg_rt_profile :: bool
  arg_monitor :: bool
  arg_fault_injection_comm :: bool
  arg_watchdog_test :: bool
  arg_validation_profile :: bool
  arg_dashboard :: bool
  arg_dashboard_host :: string
  arg_dashboard_port :: int
  arg_samples :: int
  arg_interval :: pyfloat
  arg_observe_seconds :: pyfloat
  arg_csv :: "string option"

definition DEFAULT_DASHBOARD_HOST :: string where "DEFAULT_DASHBOARD_HOST = ''127.0.0.1''"
definition DEFAULT_DASHBOARD_PORT :: int where "DEFAULT_DASHBOARD_PORT = 8080"

text \<open>The defaults; the port, which is required, has none.\<close>

definition default_args :: cli_args where
  "default_args =
     \<lparr>arg_port = [], arg_status = False, arg_timing = False, arg_jitter = False,
      arg_memory_runtime = False, arg_rt_profile = False, arg_monitor = False,
      arg_fault_injection_comm = False, arg_watchdog_test = False,
      arg_validation_profile = False, arg_dashboard = False,
      arg_dashboard_host = DEFAULT_DASHBOARD_HOST, arg_dashboard_port = DEFAULT_DASHBOARD_PORT,
      arg_samples = 5,
      arg_interval = Fin 1, arg_observe_seconds = Fin 25, arg_csv = None\<rparr>"

section \<open>Option or argument\<close>

text \<open>
  A value attached to an option, \<open>--name=value\<close> or \<open>-hvalue\<close>, comes with whether a \<open>=\<close>
  stood before it.
\<close>

datatype arg_class = Positional | Separator | Option "cli_option option" "(bool \<times> string) option"

definition has_prefix :: "string \<Rightarrow> string \<Rightarrow> bool" where
  "has_prefix p s \<longleftrightarrow> take (length p) s = p"

text \<open>\<open>s.partition("=")\<close>, without the separator.\<close>

definition eq_name :: "string \<Rightarrow> string" where
  "eq_name s = takeWhile (\<lambda>c. c \<noteq> CHR ''='') s"

definition eq_value :: "string \<Rightarrow> (bool \<times> string) option" where
  "eq_value s =
     (if CHR ''='' \<in> set s then Some (True, drop (Suc (length (eq_name s))) s) else None)"

definition option_tuples :: "string \<Rightarrow> (cli_option \<times> (bool \<times> string) option) list" where
  "option_tuples s =
     (if take 2 s = ''--'' then
        map (\<lambda>(n, opt). (opt, eq_value s)) (filter (\<lambda>(n, opt). has_prefix (eq_name s) n) option_table)
      else
        map (\<lambda>(n, opt). (opt, if n = take 2 s then Some (False, drop 2 s) else None))
          (filter (\<lambda>(n, opt). n = take 2 s \<or> has_prefix s n) option_table))"

text \<open>The pattern \<open>-\d+\<close> or \<open>-\d*.\d+\<close>, before an optional newline at the end.\<close>

definition negative_number :: "string \<Rightarrow> bool" where
  "negative_number s =
     (let t = (if s \<noteq> [] \<and> last s = CHR 0x0A then butlast s else s);
          body = drop 1 t;
          ip = takeWhile is_digit body;
          r = dropWhile is_digit body
      in take 1 t = ''-'' \<and>
         (if r = [] then ip \<noteq> []
          else hd r = CHR ''.'' \<and> tl r \<noteq> [] \<and> list_all is_digit (tl r)))"

definition parse_optional :: "string \<Rightarrow> int + arg_class" where
  "parse_optional s =
     (if take 1 s \<noteq> ''-'' then Inr Positional
      else
        case map_of option_table s of
          Some opt \<Rightarrow> Inr (Option (Some opt) None)
        | None \<Rightarrow>
            if length s = 1 then Inr Positional
            else
              (case (eq_value s, map_of option_table (eq_name s)) of
                 (Some v, Some opt) \<Rightarrow> Inr (Option (Some opt) (Some v))
               | _ \<Rightarrow>
                   (case option_tuples s of
                      [(opt, v)] \<Rightarrow> Inr (Option (Some opt) v)
                    | [] \<Rightarrow>
                        if negative_number s \<or> CHR '' '' \<in> set s then Inr Positional
                        else Inr (Option None None)
                    | _ \<Rightarrow> Inl 2)))"

fun classify :: "string list \<Rightarrow> int + (string \<times> arg_class) list" where
  "classify [] = Inr []"
| "classify (s # ss) =
     (if s = ''--'' then Inr ((s, Separator) # map (\<lambda>a. (a, Positional)) ss)
      else
        case parse_optional s of
          Inl code \<Rightarrow> Inl code
        | Inr k \<Rightarrow> (case classify ss of Inl code \<Rightarrow> Inl code | Inr ks \<Rightarrow> Inr ((s, k) # ks)))"

section \<open>Taking the actions\<close>

record parse_state =
  ps_args :: cli_args
  ps_port_seen :: bool
  ps_modes :: "cli_mode list"
  ps_extras :: "string list"

fun set_mode :: "cli_mode \<Rightarrow> cli_args \<Rightarrow> cli_args" where
  "set_mode MStatus a = a\<lparr>arg_status := True\<rparr>"
| "set_mode MTiming a = a\<lparr>arg_timing := True\<rparr>"
| "set_mode MJitter a = a\<lparr>arg_jitter := True\<rparr>"
| "set_mode MMemoryRuntime a = a\<lparr>arg_memory_runtime := True\<rparr>"
| "set_mode MRtProfile a = a\<lparr>arg_rt_profile := True\<rparr>"
| "set_mode MMonitor a = a\<lparr>arg_monitor := True\<rparr>"
| "set_mode MFaultInjectionComm a = a\<lparr>arg_fault_injection_comm := True\<rparr>"
| "set_mode MWatchdogTest a = a\<lparr>arg_watchdog_test := True\<rparr>"
| "set_mode MValidationProfile a = a\<lparr>arg_validation_profile := True\<rparr>"
| "set_mode MDashboard a = a\<lparr>arg_dashboard := True\<rparr>"

definition take_mode :: "cli_mode \<Rightarrow> parse_state \<Rightarrow> int + parse_state" where
  "take_mode m st =
     (if list_ex (\<lambda>m'. m' \<noteq> m) (ps_modes st) then Inl 2
      else Inr (st\<lparr>ps_args := set_mode m (ps_args st), ps_modes := m # ps_modes st\<rparr>))"

definition update_args :: "(cli_args \<Rightarrow> cli_args) \<Rightarrow> parse_state \<Rightarrow> parse_state" where
  "update_args f st = st\<lparr>ps_args := f (ps_args st)\<rparr>"

definition converted :: "'a option \<Rightarrow> ('a \<Rightarrow> cli_args \<Rightarrow> cli_args) \<Rightarrow> parse_state \<Rightarrow> int + parse_state" where
  "converted x f st = (case x of None \<Rightarrow> Inl 2 | Some v \<Rightarrow> Inr (update_args (f v) st))"

fun take_value :: "cli_option \<Rightarrow> string \<Rightarrow> parse_state \<Rightarrow> int + parse_state" where
  "take_value OPort v st = Inr ((update_args (\<lambda>a. a\<lparr>arg_port := v\<rparr>) st)\<lparr>ps_port_seen := True\<rparr>)"
| "take_value ODashboardHost v st = Inr (update_args (\<lambda>a. a\<lparr>arg_dashboard_host := v\<rparr>) st)"
| "take_value ODashboardPort v st = converted (py_int v) (\<lambda>i a. a\<lparr>arg_dashboard_port := i\<rparr>) st"
| "take_value OSamples v st = converted (py_int v) (\<lambda>i a. a\<lparr>arg_samples := i\<rparr>) st"
| "take_value OInterval v st = converted (py_float v) (\<lambda>x a. a\<lparr>arg_interval := x\<rparr>) st"
| "take_value OObserveSeconds v st = converted (py_float v) (\<lambda>x a. a\<lparr>arg_observe_seconds := x\<rparr>) st"
| "take_value OCsv v st = Inr (update_args (\<lambda>a. a\<lparr>arg_csv := Some v\<rparr>) st)"
| "take_value OHelp v st = Inl 2"
| "take_value (OMode m) v st = Inl 2"

text \<open>\<open>-h\<close> with something attached: further letters are read as further short options.\<close>

fun help_chain :: "bool \<Rightarrow> string \<Rightarrow> int" where
  "help_chain sep [] = 2"
| "help_chain sep [c] = (if sep \<or> c = CHR ''-'' then 2 else 0)"
| "help_chain sep (c # d # cs) =
     (if sep \<or> c = CHR ''-'' then 2
      else if c \<noteq> CHR ''h'' then 0
      else if d = CHR ''='' then help_chain True cs
      else help_chain False (d # cs))"

definition add_extra :: "string \<Rightarrow> parse_state \<Rightarrow> parse_state" where
  "add_extra s st = st\<lparr>ps_extras := ps_extras st @ [s]\<rparr>"

text \<open>The loop over the arguments, with the option that waits for its value.\<close>

fun consume :: "cli_option option \<Rightarrow> (string \<times> arg_class) list \<Rightarrow> parse_state \<Rightarrow> int + parse_state" where
  "consume None [] st = Inr st"
| "consume (Some opt) [] st = Inl 2"
| "consume (Some opt) ((s, k) # ks) st =
     (if k = Positional then
        (case take_value opt s st of Inl code \<Rightarrow> Inl code | Inr st' \<Rightarrow> consume None ks st')
      else Inl 2)"
| "consume None ((s, k) # ks) st =
     (case k of
        Positional \<Rightarrow> consume None ks (add_extra s st)
      | Separator \<Rightarrow> consume None ks (add_extra s st)
      | Option None ex \<Rightarrow> consume None ks (add_extra s st)
      | Option (Some OHelp) ex \<Rightarrow>
          (case ex of
             None \<Rightarrow> Inl 0
           | Some (sep, v) \<Rightarrow> Inl (if take 2 s = ''--'' then 2 else help_chain sep v))
      | Option (Some (OMode m)) ex \<Rightarrow>
          (if ex = None then
             (case take_mode m st of Inl code \<Rightarrow> Inl code | Inr st' \<Rightarrow> consume None ks st')
           else Inl 2)
      | Option (Some opt) (Some (sep, v)) \<Rightarrow>
          (case take_value opt v st of Inl code \<Rightarrow> Inl code | Inr st' \<Rightarrow> consume None ks st')
      | Option (Some opt) None \<Rightarrow> consume (Some opt) ks st)"

definition parse_args :: "string list \<Rightarrow> int + cli_args" where
  "parse_args arguments =
     (case classify arguments of
        Inl code \<Rightarrow> Inl code
      | Inr ks \<Rightarrow>
          (case consume None ks
              \<lparr>ps_args = default_args, ps_port_seen = False, ps_modes = [], ps_extras = []\<rparr> of
             Inl code \<Rightarrow> Inl code
           | Inr st \<Rightarrow>
               if \<not> ps_port_seen st \<or> ps_extras st \<noteq> [] then Inl 2 else Inr (ps_args st)))"


section \<open>What a parse gives\<close>

fun mode_on :: "cli_mode \<Rightarrow> cli_args \<Rightarrow> bool" where
  "mode_on MStatus a = arg_status a"
| "mode_on MTiming a = arg_timing a"
| "mode_on MJitter a = arg_jitter a"
| "mode_on MMemoryRuntime a = arg_memory_runtime a"
| "mode_on MRtProfile a = arg_rt_profile a"
| "mode_on MMonitor a = arg_monitor a"
| "mode_on MFaultInjectionComm a = arg_fault_injection_comm a"
| "mode_on MWatchdogTest a = arg_watchdog_test a"
| "mode_on MValidationProfile a = arg_validation_profile a"
| "mode_on MDashboard a = arg_dashboard a"

lemma mode_on_set_mode [simp]: "mode_on m (set_mode m' a) \<longleftrightarrow> m = m' \<or> mode_on m a"
  by (cases m; cases m') auto

lemma mode_on_default [simp]: "\<not> mode_on m default_args"
  by (cases m) (simp_all add: default_args_def)

text \<open>The flags that are set are the modes that were seen, and these are all the same.\<close>

definition one_mode :: "parse_state \<Rightarrow> bool" where
  "one_mode st \<longleftrightarrow>
     (\<forall>m. mode_on m (ps_args st) \<longleftrightarrow> m \<in> set (ps_modes st)) \<and>
     (\<forall>m m'. m \<in> set (ps_modes st) \<longrightarrow> m' \<in> set (ps_modes st) \<longrightarrow> m = m')"

definition parsed_well :: "int + parse_state \<Rightarrow> bool" where
  "parsed_well r \<longleftrightarrow> (case r of Inl code \<Rightarrow> code = 0 \<or> code = 2 | Inr st \<Rightarrow> one_mode st)"

lemma parsed_well_simps [simp]:
  "parsed_well (Inl code) \<longleftrightarrow> code = 0 \<or> code = 2" "parsed_well (Inr st) \<longleftrightarrow> one_mode st"
  by (simp_all add: parsed_well_def)

lemma one_mode_extra [simp]: "one_mode (add_extra s st) = one_mode st"
  by (simp add: one_mode_def add_extra_def)

lemma one_mode_update:
  "one_mode st \<Longrightarrow> (\<And>m a. mode_on m (f a) = mode_on m a) \<Longrightarrow> one_mode (update_args f st)"
  by (simp add: one_mode_def update_args_def)

lemma take_value_well:
  assumes "one_mode st"
  shows "parsed_well (take_value opt v st)"
proof -
  have upd: "mode_on m (a\<lparr>arg_port := p\<rparr>) = mode_on m a"
    "mode_on m (a\<lparr>arg_dashboard_host := p\<rparr>) = mode_on m a"
    "mode_on m (a\<lparr>arg_dashboard_port := i\<rparr>) = mode_on m a"
    "mode_on m (a\<lparr>arg_samples := i\<rparr>) = mode_on m a"
    "mode_on m (a\<lparr>arg_interval := x\<rparr>) = mode_on m a"
    "mode_on m (a\<lparr>arg_observe_seconds := x\<rparr>) = mode_on m a"
    "mode_on m (a\<lparr>arg_csv := c\<rparr>) = mode_on m a" for m p i x c and a :: cli_args
    by (cases m; simp)+
  have port: "one_mode (st'\<lparr>ps_port_seen := True\<rparr>) = one_mode st'" for st'
    by (simp add: one_mode_def)
  show ?thesis
    using assms
    by (cases opt) (auto simp: converted_def port upd intro!: one_mode_update split: option.split)
qed

lemma take_mode_well: "one_mode st \<Longrightarrow> parsed_well (take_mode m st)"
  by (auto simp: take_mode_def one_mode_def list_ex_iff)

lemma help_chain_code: "help_chain sep s = 0 \<or> help_chain sep s = 2"
  by (induction sep s rule: help_chain.induct) auto

lemma consume_well: "one_mode st \<Longrightarrow> parsed_well (consume pend ks st)"
proof (induction ks arbitrary: pend st)
  case Nil
  then show ?case by (cases pend) simp_all
next
  case (Cons sk ks)
  obtain s k where sk: "sk = (s, k)" by (cases sk)
  have after: "parsed_well (case r of Inl code \<Rightarrow> Inl code | Inr st' \<Rightarrow> consume None ks st')"
    if "parsed_well r" for r
    using that Cons.IH by (cases r) simp_all
  note stored = after [OF take_value_well [OF Cons.prems]]
    and mode = after [OF take_mode_well [OF Cons.prems]]
    and extra = Cons.IH [of "add_extra s st" None, unfolded one_mode_extra, OF Cons.prems]
  show ?case
  proof (cases pend)
    case (Some opt)
    then show ?thesis using stored by (simp add: sk)
  next
    case None
    show ?thesis
    proof (cases k)
      case (Option o' ex)
      show ?thesis
      proof (cases o')
        case (Some opt)
        show ?thesis
          unfolding None sk Option Some
          by (cases opt; cases ex) (simp_all del: take_value.simps add: stored mode Cons help_chain_code split: prod.split)
      qed (simp add: None sk Option extra)
    qed (simp_all add: None sk extra)
  qed
qed

lemma parse_optional_code: "parse_optional s = Inl code \<Longrightarrow> code = 2"
  by (auto simp: parse_optional_def split: if_splits option.splits list.splits prod.splits)

lemma classify_code: "classify ss = Inl code \<Longrightarrow> code = 2"
  by (induction ss arbitrary: code)
    (auto dest: parse_optional_code split: if_splits sum.splits)

text \<open>
  C34: the command line selects at most one mode. Parsing ends in arguments or in an exit
  with status 0 or 2; of the ten mode flags of parsed arguments no two are set.
\<close>

theorem parse_args_one_mode:
  "case parse_args arguments of
     Inl code \<Rightarrow> code = 0 \<or> code = 2
   | Inr a \<Rightarrow> \<forall>m m'. if mode_on m a \<and> mode_on m' a then m = m' else True"
proof -
  have "one_mode \<lparr>ps_args = default_args, ps_port_seen = False, ps_modes = [], ps_extras = []\<rparr>"
    by (simp add: one_mode_def)
  note well = consume_well [OF this, of None]
  show ?thesis
  proof (cases "classify arguments")
    case (Inl code)
    then show ?thesis using classify_code by (simp add: parse_args_def)
  next
    case (Inr ks)
    with well [of ks] show ?thesis
      by (auto simp: parse_args_def parsed_well_def one_mode_def split: sum.splits)
  qed
qed

text \<open>A value after \<open>=\<close> reaches its option, whatever it is.\<close>

lemma table_names:
  assumes "map_of option_table n = Some opt"
  shows "CHR ''='' \<notin> set n" "take 1 n = ''-''" "n \<noteq> []"
  using assms by (auto simp: option_table_def split: if_splits)

lemma classify_valued:
  assumes "map_of option_table n = Some opt"
  shows "classify ((n @ CHR ''='' # v) # ss) =
    (case classify ss of Inl code \<Rightarrow> Inl code
     | Inr ks \<Rightarrow> Inr ((n @ CHR ''='' # v, Option (Some opt) (Some (True, v))) # ks))"
proof -
  let ?s = "n @ CHR ''='' # v"
  note n = table_names [OF assms]
  have "map_of option_table ?s = None"
  proof (cases "map_of option_table ?s")
    case (Some o')
    then show ?thesis using table_names(1) [OF Some] by simp
  qed
  moreover have "eq_name ?s = n" using n(1) by (subst eq_name_def, subst takeWhile_append2) auto
  moreover have "eq_value ?s = Some (True, v)" using calculation(2) by (simp add: eq_value_def)
  moreover have "take 1 ?s = ''-''" "\<not> (n = [] \<and> v = [])" using n by (cases n; simp)+
  moreover have "?s \<noteq> ''--''"
  proof
    assume "?s = ''--''"
    then have "CHR ''='' \<in> set ''--''" by (metis in_set_conv_decomp)
    then show False by simp
  qed
  ultimately show ?thesis using assms n(3) by (simp add: parse_optional_def)
qed

lemma classify_mode:
  assumes "map_of option_table n = Some (OMode m)"
  shows "classify (n # ss) =
    (case classify ss of Inl code \<Rightarrow> Inl code | Inr ks \<Rightarrow> Inr ((n, Option (Some (OMode m)) None) # ks))"
proof -
  have "n \<noteq> ''--''" using assms by (auto simp: option_table_def split: if_splits)
  then show ?thesis using assms table_names(2) [OF assms] by (simp add: parse_optional_def)
qed

fun mode_flag :: "cli_mode \<Rightarrow> string" where
  "mode_flag MStatus = ''--status''"
| "mode_flag MTiming = ''--timing''"
| "mode_flag MJitter = ''--jitter''"
| "mode_flag MMemoryRuntime = ''--memory-runtime''"
| "mode_flag MRtProfile = ''--rt-profile''"
| "mode_flag MMonitor = ''--monitor''"
| "mode_flag MFaultInjectionComm = ''--fault-injection-comm''"
| "mode_flag MWatchdogTest = ''--watchdog-test''"
| "mode_flag MValidationProfile = ''--validation-profile''"
| "mode_flag MDashboard = ''--dashboard''"

lemma option_table_flag: "map_of option_table (mode_flag m) = Some (OMode m)"
  by (cases m) (simp_all add: option_table_def)

text \<open>A command line for a mode, with every text in the form \<open>--name=value\<close>.\<close>

definition command_line :: "string \<Rightarrow> string \<Rightarrow> nat \<Rightarrow> nat \<Rightarrow> string \<Rightarrow> cli_mode \<Rightarrow> string list" where
  "command_line port dashboard_host dashboard_port n csv m =
     [''--port'' @ CHR ''='' # port,
      ''--dashboard-host'' @ CHR ''='' # dashboard_host,
      ''--dashboard-port'' @ CHR ''='' # dec_nat dashboard_port,
      ''--samples'' @ CHR ''='' # dec_nat n,
      ''--csv'' @ CHR ''='' # csv,
      mode_flag m]"

lemma option_names:
  "map_of option_table ''--port'' = Some OPort"
  "map_of option_table ''--dashboard-host'' = Some ODashboardHost"
  "map_of option_table ''--dashboard-port'' = Some ODashboardPort"
  "map_of option_table ''--samples'' = Some OSamples"
  "map_of option_table ''--csv'' = Some OCsv"
  by (simp_all add: option_table_def)


end
