(* ===== verification/Main_Command.thy ===== *)
theory Main_Command
  imports Dashboard_App Comm_Monitor Fault_Campaign Command_Args
begin

text \<open>
  \<open>main\<close> of \<open>supervisor/main.py\<close>: the choice of the mode, its default paths, and the exit
  status, with what every mode promises to \<open>main\<close>: it prints nothing to standard error
  and leaves no descriptor open.
\<close>

section \<open>The command\<close>

definition or_default :: "string option \<Rightarrow> string \<Rightarrow> string" where
  "or_default x d = (case x of None \<Rightarrow> d | Some s \<Rightarrow> if s = [] then d else s)"

text \<open>
  What the modes take besides the arguments: the server and its browsers, the steps of a
  dashboard session, and the directories that the code finds from its own location.
\<close>

record 'w surroundings =
  sur_net :: "'w net"
  sur_event :: "'w stop_event"
  sur_netloc :: "string \<Rightarrow> unit res"
  sur_static :: string
  sur_repo :: string
  sur_serving :: "dash_event list"
  sur_ends :: exc
  sur_joining :: "dash_event list"

definition run_mode ::
  "'w os \<Rightarrow> 'w surroundings \<Rightarrow> cli_args \<Rightarrow> (('w, 'z) dash_session_scheme, unit) prog" where
  "run_mode os sur a =
     (if arg_dashboard a then
        run_dashboard os (sur_net sur) (sur_event sur) (sur_netloc sur) (sur_static sur)
          (arg_port a) (arg_dashboard_host a) (arg_dashboard_port a) (read_protocol_frame os)
          (sur_serving sur) (sur_ends sur) (sur_joining sur)
      else if arg_validation_profile a then run_validation_profile os (sur_repo sur) (arg_port a)
      else if arg_rt_profile a then run_rt_profile os (arg_port a) (arg_observe_seconds a)
      else if arg_memory_runtime a then run_runtime_memory os (arg_port a) (arg_observe_seconds a)
      else if arg_fault_injection_comm a then
        run_fault_injection_comm os (arg_port a)
          (or_default (arg_csv a) ''measurements/fault_injection_comm.csv'')
      else if arg_watchdog_test a then run_watchdog_test os (arg_port a)
      else if arg_monitor a then
        run_monitor os (arg_port a) (arg_samples a) (arg_interval a)
          (or_default (arg_csv a) ''measurements/comm_health.csv'')
      else run_supervisor os (arg_port a) (arg_status a) (arg_timing a) (arg_jitter a))"

definition expected_errors :: "exc_class list" where
  "expected_errors = [OSError, ProtocolError, SerialLinkError, SupervisorError, ValueError]"

text \<open>The exit status of the process; one of the parser is passed on by \<open>SystemExit\<close>.\<close>

definition main ::
  "'w os \<Rightarrow> 'w surroundings \<Rightarrow> string list \<Rightarrow> (('w, 'z) dash_session_scheme, int) prog" where
  "main os sur arguments =
     (case parse_args arguments of
        Inl code \<Rightarrow> ret code
      | Inr args \<Rightarrow>
          try_except (bind_prog (run_mode os sur args) (\<lambda>_. ret 0)) expected_errors
            (\<lambda>error.
               bind_prog (print_err (''Supervisor error: '' @ exc_msg error)) (\<lambda>_.
               bind_prog (print_err ''Supervisor bring-up: FAIL'') (\<lambda>_.
               ret 1))))"

section \<open>What a mode leaves alone\<close>

text \<open>\<open>quiet_part v\<close> is kept inside a session, \<open>settled_part v\<close> by the session as a whole.\<close>

definition quiet_part :: "('w \<Rightarrow> 'f) \<Rightarrow> ('w, 'z) host_scheme \<Rightarrow> 'f \<times> int option \<times> string list" where
  "quiet_part v h = (v (world h), link_fd h, err h)"

definition settled_part :: "('w \<Rightarrow> 'f) \<Rightarrow> ('w, 'z) host_scheme \<Rightarrow> 'f \<times> string list" where
  "settled_part v h = (v (world h), err h)"

named_theorems quiet_rules \<open>programs that keep the quiet part\<close>

lemma quiet_local:
  "keeps local_part m \<Longrightarrow> keeps (\<lambda>h. v (world h)) m \<Longrightarrow> keeps (quiet_part v) m"
  by (auto simp: keeps_def quiet_part_def local_part_def)

lemma keeps_of_rises: "(\<And>c. rises (\<lambda>s. f s = c) m) \<Longrightarrow> keeps f m"
  unfolding rises_def keeps_def le_bool_def by blast

lemma keeps_case_prod: "(\<And>x y. keeps f (n x y)) \<Longrightarrow> keeps f (case r of (x, y) \<Rightarrow> n x y)"
  by (cases r) simp

lemma settledI: "keeps err m \<Longrightarrow> keeps (\<lambda>h. v (world h)) m \<Longrightarrow> keeps (settled_part v) m"
  by (auto simp: keeps_def settled_part_def)

lemma settled_quiet: "keeps (quiet_part v) m \<Longrightarrow> keeps (settled_part v) m"
  by (auto simp: keeps_def quiet_part_def settled_part_def)

lemma quiet_print [quiet_rules]:
  "keeps (quiet_part v) (print_line l)" "keeps (quiet_part v) (print_lines ls)"
proof -
  show p: "keeps (quiet_part v) (print_line l)" for l
    unfolding print_line_def by (intro keeps_intros) (simp add: quiet_part_def)
  show "keeps (quiet_part v) (print_lines ls)"
    by (induction ls) (auto intro!: keeps_intros p)
qed

lemma quiet_csv_upd [quiet_rules]: "keeps (quiet_part v) (modify (\<lambda>h. h\<lparr>csv_file := x\<rparr>))"
  by (intro keeps_intros) (simp add: quiet_part_def)

context port_frame
begin

lemma quiet_link [quiet_rules]:
  "keeps (quiet_part v) (serial_write os bs)" "keeps (quiet_part v) (py_sleep os x)"
  "keeps (quiet_part v) (read_protocol_frame os t)" "keeps (quiet_part v) (send_frame os f)"
  "keeps (quiet_part v) (transact os f)" "keeps (quiet_part v) (request_status os ty s nm dcd)"
  "keeps (quiet_part v) (verify_recovery_ping os s)"
  "keeps (quiet_part v) (require_no_bad_crc_response os)"
  "keeps (quiet_part v) (call_total (os_monotonic os))" "keeps (quiet_part v) (call_total (os_now os))"
proof -
  have "keeps local_part (py_sleep os x)"
    unfolding py_sleep_def by (cases x) (auto intro!: keeps_intros simp: local_part_def)
  then show "keeps (quiet_part v) (py_sleep os x)" by (rule quiet_local) (rule v_py_sleep)
qed (rule quiet_local; intro keeps_intros v_transactions v_serial_write v_calls)+

end

context file_frame
begin

lemma quiet_files [quiet_rules]:
  "keeps (quiet_part u) (call (os_fopen os p m))" "keeps (quiet_part u) (call (os_fwrite os k t))"
  "keeps (quiet_part u) (call (os_fflush os k))" "keeps (quiet_part u) (call (os_fclose os k))"
  "keeps (quiet_part u) (call (os_makedirs os p))"
  by (rule quiet_local; intro keeps_intros u_calls)+

lemma quiet_csv [quiet_rules]:
  "keeps (quiet_part u) (csv_logger_open os name cols p)"
  "keeps (quiet_part u) (csv_logger_write os name fs)"
  "keeps (quiet_part u) (csv_logger_close os)"
  unfolding csv_logger_open_def csv_logger_write_def csv_logger_close_def csv_write_row_def
  by (intro keeps_intros quiet_files quiet_csv_upd)+

end

text \<open>A session closes its descriptor, so it keeps the open ones.\<close>

lemma keeps_err_serial:
  "keeps err (serial_open os p)" "keeps err (serial_close os)"
  unfolding serial_open_def serial_close_def
  by (intro keeps_intros; auto simp: keeps_def call_def split: prod.splits)+

context fd_table
begin

lemma settled_with_link:
  assumes "keeps (quiet_part open_fds) m"
  shows "keeps (settled_part open_fds) (with_link os p m)"
proof -
  have body: "wp m (\<lambda>_ g'. open_fds (world g') = open_fds (world g) \<and> link_fd g' = link_fd g)
      (\<lambda>_ g'. open_fds (world g') = open_fds (world g) \<and> link_fd g' = link_fd g) g" for g
    by (rule wp_mono [OF keeps_wp [OF assms, of g]]) (simp_all add: quiet_part_def)
  have "keeps err m"
    using assms by (auto simp: keeps_def quiet_part_def)
  then have "keeps err (with_link os p m)"
    unfolding with_link_def by (intro keeps_intros keeps_err_serial) simp_all
  moreover have "keeps (\<lambda>h. open_fds (world h)) (with_link os p m)"
  proof -
    have "open_fds (world s') = open_fds (world s)" if "with_link os p m s = Some (r, s')" for s r s'
      using wp_resultD [OF wp_with_link_fds [OF body, of p s]] that by (cases r) auto
    then show ?thesis by (auto simp: keeps_def)
  qed
  ultimately show ?thesis by (rule settledI)
qed

end

locale main_env = session_env os rx tx clock tick ftext fpath stop ev open_fds bound net +
  tool_env os rx tx clock tick ftext fpath hash tool same unread + fls: file_frame os open_fds
  for os :: "'w os" and rx tx :: "'w \<Rightarrow> bytes" and clock :: "'w \<Rightarrow> rat" and tick
    and ftext :: "'w \<Rightarrow> string \<Rightarrow> string option" and fpath :: "'w \<Rightarrow> int \<Rightarrow> string option"
    and stop :: "'w \<Rightarrow> rat option" and ev :: "'w stop_event"
    and open_fds :: "'w \<Rightarrow> int set" and bound :: "'w \<Rightarrow> int set" and net :: "'w net"
    and hash :: "'w \<Rightarrow> string \<Rightarrow> string" and tool :: "'w \<Rightarrow> string list \<Rightarrow> completed_process res"
    and same :: "'w \<Rightarrow> 'w \<Rightarrow> bool" and unread :: "'w \<Rightarrow> int \<Rightarrow> string option" +
  assumes same_fds: "same w w' \<Longrightarrow> open_fds w' = open_fds w"
begin

lemmas quiet = quiet_print quiet_csv_upd fds.quiet_link fls.quiet_files fls.quiet_csv

lemma quiet_tools:
  "keeps (quiet_part open_fds) (call (os_is_file os p))"
  "keeps (quiet_part open_fds) (call (os_is_dir os p))"
  "keeps (quiet_part open_fds) (call (os_exists os p))"
  "keeps (quiet_part open_fds) (call (os_run os c))"
  by (rule quiet_local, rule keeps_local_call, rule keeps_call, rule same_fds,
      erule is_file_same is_dir_same exists_same run_same)+

lemma quiet_sha256: "keeps (quiet_part open_fds) (sha256_file os p)"
proof -
  have calls: "keeps (quiet_part open_fds) (call (os_bopen os p))"
    "keeps (quiet_part open_fds) (call (os_bclose os k))" for k
    by (rule quiet_local, rule keeps_local_call, rule keeps_call, rule same_fds,
        erule bopen_same bclose_same)+
  have digest: "keeps (quiet_part open_fds) (call_total (os_sha256 os s))" for s
    by (rule quiet_local, rule keeps_local_call_total, rule keeps_call_total, rule same_fds)
      (use sha256_ok in blast)
  have chunks: "keeps (quiet_part open_fds) (\<lambda>h. case hash_chunks os k [] (world h) of
      None \<Rightarrow> None | Some (r, w) \<Rightarrow> Some (r, h\<lparr>world := w\<rparr>))" for k
    by (auto simp: keeps_def quiet_part_def split: option.splits dest!: hash_chunks_same same_fds)
  show ?thesis unfolding sha256_file_def by (intro keeps_intros calls digest chunks)
qed

lemma settled_serial_modes:
  "keeps (settled_part open_fds) (run_supervisor os port s t j)"
  "keeps (settled_part open_fds) (run_runtime_memory os port x)"
  "keeps (settled_part open_fds) (run_rt_profile os port x)"
  unfolding run_supervisor_def run_runtime_memory_def run_rt_profile_def settle_board_def
    ping_check_def echo_check_def status_section_def timing_section_def jitter_section_def Let_def
  by (intro keeps_intros keeps_case_prod settled_with_link quiet settled_quiet)+

lemma settled_monitor: "keeps (settled_part open_fds) (run_monitor os port n x csv)"
proof -
  have sample: "keeps (quiet_part open_fds) (monitor_sample os n x i s nx)" for i s nx
    unfolding monitor_sample_def monitor_pace_def comm_csv_write_def Let_def
    by (intro keeps_intros quiet)
  have loop: "keeps (quiet_part open_fds) (monitor_loop os n x i k st)" for i k st
    by (induction k arbitrary: i st) (auto intro!: keeps_intros sample)
  show ?thesis
    unfolding run_monitor_def settle_board_def with_comm_csv_def with_csv_logger_def
    by (intro keeps_intros settled_with_link settled_quiet quiet loop; simp add: quiet_part_def)
qed

lemma settled_fault_modes:
  "keeps (settled_part open_fds) (run_fault_injection_comm os port csv)"
  "keeps (settled_part open_fds) (run_watchdog_test os port)"
  unfolding run_fault_injection_comm_def run_watchdog_test_def settle_board_def with_fault_csv_def
    bad_crc_experiment_def timeout_experiment_def watchdog_session_def request_comm_status_def
    request_watchdog_status_def request_reset_cause_def send_bad_crc_def fault_csv_write_def
    print_fault_result_def with_csv_logger_def Let_def
  by (intro keeps_intros keeps_case_prod settled_with_link settled_quiet quiet;
      simp add: quiet_part_def)+

lemma settled_validation: "keeps (settled_part open_fds) (run_validation_profile os repo port)"
proof -
  have "keeps (quiet_part open_fds) (require_artifacts os ps)" for ps
    by (induction ps) (auto intro!: keeps_intros quiet_tools)
  moreover have "keeps (quiet_part open_fds) (first_free_report os repo ts i n)" for ts i n
    by (induction n arbitrary: i) (auto intro!: keeps_intros quiet_tools)
  ultimately show ?thesis
    unfolding run_validation_profile_def collect_build_evidence_def validation_session_def
      collect_validation_runtime_def settle_board_def measurement_report_path_def
      write_measurement_report_def Let_def
    by (intro keeps_intros keeps_case_prod settled_with_link settled_quiet quiet quiet_tools quiet_sha256)
qed

lemma settled_dashboard:
  "keeps (settled_part open_fds)
     (run_dashboard os net ev chk static p a q (read_protocol_frame os) es e js)"
proof -
  let ?rf = "read_protocol_frame os"
  have r: "rises (\<lambda>h. err h = c) m" if "keeps local_part m" for c m
    using that by (auto simp: rises_def keeps_def local_part_def)
  have "keeps own_part (poll_once os ?rf t)" for t
    by (rule keeps_own_poll_once [OF keeps_local_transactions(1)])
  then have "rises (\<lambda>h. err h = c) (poll_once os ?rf t)" for c t
    by (fastforce simp: rises_def keeps_def own_part_def)
  then have "rises (\<lambda>h. err h = c) (run_events os ev chk static ?rf es)" for c es
    by (rule rises_run_events) (auto intro!: r keeps_intros)
  then have events: "keeps err (run_events os ev chk static ?rf es)" for es
    by (rule keeps_of_rises)
  have local: "keeps err m" if "keeps local_part m" for m
    using that by (auto simp: keeps_def local_part_def)
  have print: "keeps err (print_lines ls)" for ls
    by (induction ls) (auto intro!: keeps_intros simp: print_line_def)
  have sleep: "keeps err (py_sleep os x)" for x
    unfolding py_sleep_def by (cases x) (auto intro!: keeps_intros)
  have "keeps err (run_dashboard os net ev chk static p a q ?rf es e js)"
    unfolding run_dashboard_def create_http_server_def poller_stop_def Let_def open_serial_session_def new_poller_def set_poller_def
      serve_forever_def
    by (intro keeps_intros events print sleep keeps_err_serial local [OF keeps_local_call]
        local [OF keeps_local_call_total]; simp)
  moreover have "keeps (\<lambda>h. open_fds (world h)) (run_dashboard os net ev chk static p a q ?rf es e js)"
  proof -
    have "open_fds (world h') = open_fds (world h)"
      if "run_dashboard os net ev chk static p a q ?rf es e js h = Some (r, h')" for h r h'
      using wp_resultD [OF wp_run_dashboard [where h = h]] that
      by (cases r) (auto simp: in_session_def)
    then show ?thesis by (auto simp: keeps_def)
  qed
  ultimately show ?thesis by (rule settledI)
qed

lemma settled_run_mode:
  "sur_net sur = net \<Longrightarrow> sur_event sur = ev \<Longrightarrow> keeps (settled_part open_fds) (run_mode os sur a)"
  unfolding run_mode_def
  by (simp add: settled_dashboard settled_validation settled_serial_modes settled_fault_modes
      settled_monitor)

lemma returns_run_mode:
  "sur_net sur = net \<Longrightarrow> sur_event sur = ev \<Longrightarrow> returns (run_mode os sur a) h"
  unfolding run_mode_def
  by (simp add: returns_run_dashboard returns_run_validation_profile returns_modes
      returns_fault_modes returns_run_monitor)

lemma wp_main:
  assumes "sur_net sur = net" "sur_event sur = ev"
  shows "wp (main os sur arguments)
     (\<lambda>status h'. open_fds (world h') = open_fds (world h) \<and>
        (case parse_args arguments of
           Inl code \<Rightarrow> status = code \<and> h' = h
         | Inr a \<Rightarrow>
             status = 0 \<and> err h' = err h \<and> run_mode os sur a h = Some (Inr (), h') \<or>
             status = 1 \<and> (\<exists>e g. catches expected_errors e \<and>
               run_mode os sur a h = Some (Inl e, g) \<and> err g = err h \<and>
               h' = g\<lparr>err := err h @ [''Supervisor error: '' @ exc_msg e, ''Supervisor bring-up: FAIL'']\<rparr>)))
     (\<lambda>e h'. \<not> catches expected_errors e \<and> open_fds (world h') = open_fds (world h) \<and> err h' = err h) h"
proof (cases "parse_args arguments")
  case (Inl code)
  then show ?thesis by (simp add: main_def)
next
  case (Inr a)
  have keep: "open_fds (world g) = open_fds (world h)" "err g = err h"
    if "run_mode os sur a h = Some (r, g)" for r g
    using keepsD [OF settled_run_mode [OF assms] that] by (simp_all add: settled_part_def)
  show ?thesis
    unfolding main_def Inr sum.case wp_try_except wp_bind
    by (rule wp_I) (use keep in auto)
qed

lemma returns_main:
  assumes "sur_net sur = net" "sur_event sur = ev"
  shows "returns (main os sur arguments) h"
  unfolding main_def
  by (cases "parse_args arguments") (auto intro!: returns_intros returns_run_mode assms)

end

interpretation line_main:
  main_env "line_os d" rx_seen tx_sent clk clock_tick lw_text lw_path stop_time line_event
    line_fds server_ports line_net hash_fun tools line_same lw_unread for d
  by unfold_locales
    (auto simp: line_os_defs line_fds_def split: if_splits option.splits
      dest!: line_same_parts [unfolded line_fds_def])


text \<open>
  \<open>termios.error\<close> is none of the expected errors: for a port that is no terminal, such as
  \<open>/dev/null\<close>, it escapes from the command.
\<close>

lemma parse_port: "parse_args [''--port'', ''p''] = Inr (default_args\<lparr>arg_port := ''p''\<rparr>)"
  by (simp add: parse_args_def parse_optional_def option_table_def update_args_def)

lemma termios_error_escapes:
  assumes "ports (world h) = [''p'']" "ttys (world h) = []" "fd_paths (world h) = []"
  shows "\<exists>h'. main (line_os d) sur [''--port'', ''p''] h = Some (Inl not_a_tty, h')"
  using assms
  by (simp add: main_def parse_port run_mode_def default_args_def run_supervisor_def with_link_def
      serial_open_def try_except_def bind_prog_def modify_def print_line_def get_st_def call_def ret_def
      lift_res_def line_os_defs not_a_tty_def is_tty_def expected_errors_def)

end
